(* ===== verification/Prelude.thy ===== *)
theory Prelude
  imports Main "HOL-Library.Word" "HOL-Library.List_Lexorder" "HOL-Library.Char_ord"
begin

text \<open>
  Shared vocabulary of the development: bytes, the fact collections the other theories
  extend, and generic lemmas on tables. A database table is a list of rows; the three
  shapes of statement kal issues against one are an insert (append), an update
  (\<^term>\<open>update_where\<close>) and a delete (\<^term>\<open>filter\<close>), so the lemmas here are about those.
\<close>

section \<open>Bytes and strings\<close>

type_synonym byte = "8 word"

text \<open>Go's string is a byte sequence; so is HOL's \<^typ>\<open>string\<close>, whose characters are bytes.\<close>

definition byte_of :: "char \<Rightarrow> byte" where
  "byte_of c = word_of_nat (of_char c)"

definition char_of_byte :: "byte \<Rightarrow> char" where
  "char_of_byte b = char_of (unat b)"

definition bytes_of :: "string \<Rightarrow> byte list" where
  "bytes_of s = map byte_of s"

lemma length_bytes_of [simp]: "length (bytes_of s) = length s"
  by (simp add: bytes_of_def)

lemma bytes_of_Nil [simp]: "bytes_of [] = []"
  by (simp add: bytes_of_def)

lemma unat_byte_of: "unat (byte_of c) = of_char c"
  by (simp add: byte_of_def unat_of_nat)

lemma char_of_byte_of [simp]: "char_of_byte (byte_of c) = c"
  by (simp add: char_of_byte_def unat_byte_of)

lemma byte_of_inject: "byte_of a = byte_of b \<longleftrightarrow> a = b"
  by (metis char_of_byte_of)

lemma bytes_of_inject: "bytes_of s = bytes_of t \<longleftrightarrow> s = t"
  by (auto simp: bytes_of_def byte_of_inject inj_map_eq_map inj_def)

section \<open>Fact collections\<close>

text \<open>
  \<open>wp\<close> holds one rule per effect of the program monad: what must hold before it for a
  predicate to hold after it. \<open>guar\<close> holds the matching rules for two-state guarantees
  (a relation between the world before and the world after). \<open>sql\<close> holds the defining
  equations of the SQL statements.
\<close>

named_theorems wp "weakest preconditions of the effects"
named_theorems guar "introduction rules for two-state guarantees"
named_theorems sql "definitions of the SQL statements"

section \<open>Tables\<close>

definition update_where :: "('r \<Rightarrow> bool) \<Rightarrow> ('r \<Rightarrow> 'r) \<Rightarrow> 'r list \<Rightarrow> 'r list" where
  "update_where p f t = map (\<lambda>r. if p r then f r else r) t"

lemma length_update_where [simp]: "length (update_where p f t) = length t"
  by (simp add: update_where_def)

lemma update_where_Nil [simp]: "update_where p f [] = []"
  by (simp add: update_where_def)

lemma update_where_Cons [simp]:
  "update_where p f (r # t) = (if p r then f r else r) # update_where p f t"
  by (simp add: update_where_def)

lemma set_update_where:
  "set (update_where p f t) = (\<lambda>r. if p r then f r else r) ` set t"
  by (simp add: update_where_def)

lemma update_where_none: "(\<And>r. r \<in> set t \<Longrightarrow> \<not> p r) \<Longrightarrow> update_where p f t = t"
  by (induction t) auto

text \<open>An update that leaves a column alone leaves the column of the whole table alone.\<close>

lemma map_update_where:
  assumes "\<And>r. r \<in> set t \<Longrightarrow> p r \<Longrightarrow> k (f r) = k r"
  shows "map k (update_where p f t) = map k t"
  using assms by (induction t) auto

lemma filter_update_where:
  assumes "\<And>r. r \<in> set t \<Longrightarrow> p r \<Longrightarrow> q (f r) = q r"
  shows "filter q (update_where p f t) = update_where p f (filter q t)"
  using assms by (induction t) auto

text \<open>
  A key column: the rows that carry one key value are at most one row, so a select by key
  returns nothing or a single row.
\<close>

lemma filter_key_unique:
  assumes "distinct (map k t)" and "r \<in> set t" and "q r"
    and "\<And>x. x \<in> set t \<Longrightarrow> q x \<Longrightarrow> k x = k r"
  shows "filter q t = [r]"
  using assms
proof -
  have "\<exists>us vs. t = us @ r # vs \<and> k r \<notin> k ` set us \<and> k r \<notin> k ` set vs"
    using split_list [OF assms(2)] assms(1) by fastforce
  then obtain us vs where t: "t = us @ r # vs"
    and "k r \<notin> k ` set us" and "k r \<notin> k ` set vs"
    by blast
  then have "filter q us = []" and "filter q vs = []"
    using assms(4) unfolding t by (auto simp: filter_empty_conv) (metis image_eqI)+
  with t assms(3) show ?thesis by simp
qed

lemma distinct_key_eq:
  "distinct (map k t) \<Longrightarrow> r \<in> set t \<Longrightarrow> r' \<in> set t \<Longrightarrow> k r = k r' \<Longrightarrow> r = r'"
  by (induction t) (auto simp: rev_image_eqI)

text \<open>An update that a select's condition does not see, and an appended row it does not match.\<close>

lemma find_update_where_other:
  assumes "\<And>r. p r \<Longrightarrow> \<not> q r \<and> \<not> q (f r)"
  shows "find q (update_where p f t) = find q t"
  using assms by (induction t) auto

lemma find_append: "find q (t @ [r]) = (case find q t of None \<Rightarrow> if q r then Some r else None | Some x \<Rightarrow> Some x)"
  by (induction t) auto

lemma find_key_Some:
  assumes "distinct (map k t)" and "r \<in> set t"
  shows "find (\<lambda>x. k x = k r) t = Some r"
  using assms by (induction t) (auto simp: rev_image_eqI)

lemma find_SomeD: "find p xs = Some x \<Longrightarrow> x \<in> set xs \<and> p x"
  by (induction xs) (auto split: if_splits)

lemma find_NoneD: "find p xs = None \<Longrightarrow> \<forall>x \<in> set xs. \<not> p x"
  by (simp add: find_None_iff)

text \<open>A select by a key column, after an update that leaves that column alone.\<close>

lemma find_update_where_key:
  assumes "\<And>r. k (f r) = k r"
  shows "find (\<lambda>r. k r = x) (update_where p f t)
    = map_option (\<lambda>r. if p r then f r else r) (find (\<lambda>r. k r = x) t)"
  using assms by (induction t) auto

lemma find_filter_key:
  assumes "distinct (map k t)"
  shows "filter (\<lambda>r. k r = x \<and> q r) t
    = (case find (\<lambda>r. k r = x) t of None \<Rightarrow> [] | Some r \<Rightarrow> if q r then [r] else [])"
  using assms
proof (induction t)
  case (Cons r t)
  have "filter (\<lambda>y. k y = k r \<and> q y) t = []"
    using Cons.prems by (auto simp: filter_empty_conv rev_image_eqI)
  with Cons show ?case by auto
qed simp

lemma find_append_new: "k r \<notin> k ` set t \<Longrightarrow> find (\<lambda>q. k q = k r) (t @ [r]) = Some r"
  by (induction t) auto

lemma list_ex_update_where:
  "list_ex p t \<Longrightarrow> (\<And>r. p r \<Longrightarrow> q (f r)) \<Longrightarrow> list_ex q (update_where p f t)"
  by (induction t) (auto simp: update_where_def)

end
