(* ===== verification/Go_Strings.thy ===== *)
theory Go_Strings
  imports Prelude
begin

text \<open>
  The parts of Go's \<open>strings\<close>, \<open>strconv\<close>, \<open>fmt\<close>, \<open>unicode/utf8\<close> and \<open>regexp\<close> that kal
  calls, over byte strings. Unicode case mapping needs the Unicode tables, which belong to
  the Go toolchain and to Postgres; they are the fields of \<open>unicode_tables\<close> and are
  consulted, as in Go, only for strings that hold a byte outside ASCII.
\<close>

section \<open>Case and white space\<close>

record unicode_tables =
  uni_lower :: "string \<Rightarrow> string"  \<comment> \<open>strings.Map (unicode.ToLower)\<close>
  uni_fold :: "string \<Rightarrow> string \<Rightarrow> bool"  \<comment> \<open>the Unicode half of strings.EqualFold\<close>
  uni_pg_lower :: "string \<Rightarrow> string"  \<comment> \<open>Postgres lower() under the database's collation\<close>
  uni_quote :: "string \<Rightarrow> string"  \<comment> \<open>strconv.Quote beyond ASCII\<close>

abbreviation code :: "char \<Rightarrow> nat" where
  "code c \<equiv> of_char c"

definition ascii_char :: "char \<Rightarrow> bool" where
  "ascii_char c \<longleftrightarrow> code c < 128"

definition is_ascii :: "string \<Rightarrow> bool" where
  "is_ascii s \<longleftrightarrow> list_all ascii_char s"

definition lower_char :: "char \<Rightarrow> char" where
  "lower_char c = (if 65 \<le> code c \<and> code c \<le> 90 then char_of (code c + 32) else c)"

definition to_lower :: "unicode_tables \<Rightarrow> string \<Rightarrow> string" where
  "to_lower U s = (if is_ascii s then map lower_char s else uni_lower U s)"

text \<open>Postgres's \<open>lower(text)\<close>: the same ASCII map, its own table beyond it.\<close>

definition pg_lower :: "unicode_tables \<Rightarrow> string \<Rightarrow> string" where
  "pg_lower U s = (if is_ascii s then map lower_char s else uni_pg_lower U s)"

fun equal_fold :: "unicode_tables \<Rightarrow> string \<Rightarrow> string \<Rightarrow> bool" where
  "equal_fold U [] [] = True"
| "equal_fold U [] (b # t) = False"
| "equal_fold U (a # s) [] = False"
| "equal_fold U (a # s) (b # t) =
     (if \<not> ascii_char a \<or> \<not> ascii_char b then uni_fold U (a # s) (b # t)
      else lower_char a = lower_char b \<and> equal_fold U s t)"

definition ascii_space :: "char \<Rightarrow> bool" where
  "ascii_space c \<longleftrightarrow> 9 \<le> code c \<and> code c \<le> 13 \<or> code c = 32"

text \<open>
  The length in bytes of the white-space character a string starts with, 0 if it starts
  with another character: ASCII, then the UTF-8 encodings of the White_Space code points
  U+0085, U+00A0, U+1680, U+2000 to U+200A, U+2028, U+2029, U+202F, U+205F and U+3000.
\<close>

definition space_len :: "string \<Rightarrow> nat" where
  "space_len s =
     (case map code s of
        [] \<Rightarrow> 0
      | b0 # r0 \<Rightarrow>
          if ascii_space (hd s) then 1
          else (case r0 of
             [] \<Rightarrow> 0
           | b1 # r1 \<Rightarrow>
               if b0 = 0xC2 \<and> (b1 = 0x85 \<or> b1 = 0xA0) then 2
               else (case r1 of
                  [] \<Rightarrow> 0
                | b2 # _ \<Rightarrow>
                    if b0 = 0xE1 \<and> b1 = 0x9A \<and> b2 = 0x80
                       \<or> b0 = 0xE2 \<and> b1 = 0x80 \<and> (0x80 \<le> b2 \<and> b2 \<le> 0x8A \<or> b2 = 0xA8 \<or> b2 = 0xA9 \<or> b2 = 0xAF)
                       \<or> b0 = 0xE2 \<and> b1 = 0x81 \<and> b2 = 0x9F
                       \<or> b0 = 0xE3 \<and> b1 = 0x80 \<and> b2 = 0x80
                    then 3 else 0)))"

function trim_left :: "string \<Rightarrow> string" where
  "trim_left s = (if 0 < space_len s \<and> s \<noteq> [] then trim_left (drop (space_len s) s) else s)"
  by pat_completeness auto
termination
  by (relation "measure length") auto

declare trim_left.simps [simp del]

text \<open>From the right, the last character is one of the last three suffixes.\<close>

definition space_suffix :: "string \<Rightarrow> nat" where
  "space_suffix s =
     (let n = length s in
      if 1 \<le> n \<and> space_len (drop (n - 1) s) = 1 then 1
      else if 2 \<le> n \<and> space_len (drop (n - 2) s) = 2 then 2
      else if 3 \<le> n \<and> space_len (drop (n - 3) s) = 3 then 3
      else 0)"

function trim_right :: "string \<Rightarrow> string" where
  "trim_right s =
     (if 0 < space_suffix s \<and> s \<noteq> [] then trim_right (take (length s - space_suffix s) s) else s)"
  by pat_completeness auto
termination
  by (relation "measure length") auto

declare trim_right.simps [simp del]

definition trim_space :: "string \<Rightarrow> string" where
  "trim_space s = trim_right (trim_left s)"

lemma lower_char_idem [simp]: "lower_char (lower_char c) = lower_char c"
  by (auto simp: lower_char_def)

lemma ascii_lower_char [simp]: "ascii_char (lower_char c) = ascii_char c"
  by (auto simp: lower_char_def ascii_char_def)

lemma is_ascii_lower [simp]: "is_ascii (map lower_char s) = is_ascii s"
  by (simp add: is_ascii_def list_all_iff)

lemma to_lower_idem: "is_ascii s \<Longrightarrow> to_lower U (to_lower U s) = to_lower U s"
  by (simp add: to_lower_def comp_def)

lemma pg_lower_to_lower: "is_ascii s \<Longrightarrow> pg_lower U s = to_lower U s"
  by (simp add: to_lower_def pg_lower_def)

lemma equal_fold_ascii:
  "is_ascii s \<Longrightarrow> is_ascii t \<Longrightarrow> equal_fold U s t \<longleftrightarrow> to_lower U s = to_lower U t"
proof (induction U s t rule: equal_fold.induct)
  case (4 U a s b t)
  then show ?case by (simp add: is_ascii_def to_lower_def)
qed (simp_all add: is_ascii_def to_lower_def)

section \<open>Quoting\<close>

text \<open>\<open>strconv.Quote\<close>, the \<open>%q\<close> verb: printable ASCII as it is, escapes for the rest.\<close>

definition hex_digit :: "nat \<Rightarrow> char" where
  "hex_digit n = char_of (if n < 10 then 48 + n else 87 + n)"

definition quote_char :: "char \<Rightarrow> string" where
  "quote_char c =
     (let n = code c in
      if n = 34 \<or> n = 92 then [CHR 0x5C, c]
      else if 32 \<le> n \<and> n < 127 then [c]
      else if 7 \<le> n \<and> n \<le> 13 then [CHR 0x5C, ''abtnvfr'' ! (n - 7)]
      else [CHR 0x5C, CHR ''x'', hex_digit (n div 16), hex_digit (n mod 16)])"

definition go_quote :: "unicode_tables \<Rightarrow> string \<Rightarrow> string" where
  "go_quote U s =
     (if is_ascii s then [CHR 0x22] @ concat (map quote_char s) @ [CHR 0x22] else uni_quote U s)"

text \<open>The dash of kal's messages, in UTF-8.\<close>

definition em_dash :: string where
  "em_dash = [CHR 0xE2, CHR 0x80, CHR 0x94]"

section \<open>Splitting, joining, prefixes\<close>

fun has_prefix :: "string \<Rightarrow> string \<Rightarrow> bool" where
  "has_prefix s [] = True"
| "has_prefix [] (p # ps) = False"
| "has_prefix (c # s) (p # ps) = (c = p \<and> has_prefix s ps)"

lemma has_prefix_iff: "has_prefix s p \<longleftrightarrow> (\<exists>r. s = p @ r)"
  by (induction s p rule: has_prefix.induct) auto

definition cut_prefix :: "string \<Rightarrow> string \<Rightarrow> string option" where
  "cut_prefix s p = (if has_prefix s p then Some (drop (length p) s) else None)"

lemma cut_prefix_Some: "cut_prefix s p = Some r \<longleftrightarrow> s = p @ r"
  by (auto simp: cut_prefix_def has_prefix_iff)

fun split_on :: "char \<Rightarrow> string \<Rightarrow> string list" where
  "split_on c [] = [[]]"
| "split_on c (x # xs) =
     (if x = c then [] # split_on c xs
      else (case split_on c xs of [] \<Rightarrow> [[x]] | p # ps \<Rightarrow> (x # p) # ps))"

lemma split_on_ne [simp]: "split_on c s \<noteq> []"
  by (induction s) (auto split: list.splits)

lemma split_on_none: "c \<notin> set s \<Longrightarrow> split_on c s = [s]"
  by (induction s) auto

lemma split_on_append: "c \<notin> set s \<Longrightarrow> split_on c (s @ c # t) = s # split_on c t"
  by (induction s) auto

fun join :: "string \<Rightarrow> string list \<Rightarrow> string" where
  "join sep [] = []"
| "join sep [x] = x"
| "join sep (x # y # xs) = x @ sep @ join sep (y # xs)"

definition trim_right_char :: "char \<Rightarrow> string \<Rightarrow> string" where
  "trim_right_char c s = rev (dropWhile (\<lambda>x. x = c) (rev s))"

section \<open>Decimal numbers\<close>

definition digit :: "nat \<Rightarrow> char" where
  "digit n = char_of (48 + n)"

definition is_digit :: "char \<Rightarrow> bool" where
  "is_digit c \<longleftrightarrow> 48 \<le> code c \<and> code c \<le> 57"

definition digit_val :: "char \<Rightarrow> nat" where
  "digit_val c = code c - 48"

fun itoa :: "nat \<Rightarrow> string" where
  "itoa n = (if n < 10 then [digit n] else itoa (n div 10) @ [digit (n mod 10)])"

declare itoa.simps [simp del]

definition number_of :: "string \<Rightarrow> nat" where
  "number_of s = foldl (\<lambda>v c. 10 * v + digit_val c) 0 s"

lemma is_digit_digit [simp]: "n < 10 \<Longrightarrow> is_digit (digit n)"
  by (simp add: is_digit_def digit_def)

lemma digit_val_digit [simp]: "n < 10 \<Longrightarrow> digit_val (digit n) = n"
  by (simp add: digit_val_def digit_def)

lemma itoa_digits: "list_all is_digit (itoa n)"
proof (induction n rule: itoa.induct)
  case (1 n)
  then show ?case by (subst itoa.simps) auto
qed

lemma itoa_not_Nil [simp]: "itoa n \<noteq> []"
  by (subst itoa.simps) simp

lemma number_of_itoa [simp]: "number_of (itoa n) = n"
proof (induction n rule: itoa.induct)
  case (1 n)
  then show ?case by (subst itoa.simps) (auto simp: number_of_def)
qed

lemma takeWhile_itoa:
  assumes "r = [] \<or> \<not> is_digit (hd r)"
  shows "takeWhile is_digit (itoa n @ r) = itoa n" and "dropWhile is_digit (itoa n @ r) = r"
proof -
  have d: "\<forall>c \<in> set (itoa n). is_digit c"
    using itoa_digits by (simp add: list_all_iff)
  from assms have "takeWhile is_digit r = []" and "dropWhile is_digit r = r"
    by (cases r; simp)+
  with d show "takeWhile is_digit (itoa n @ r) = itoa n" and "dropWhile is_digit (itoa n @ r) = r"
    by (simp_all add: takeWhile_append2 dropWhile_append2)
qed

section \<open>The verbs of fmt.Sscanf that kal uses\<close>

text \<open>
  A scanner takes the input and returns the value read with the rest of the input.
  \<open>scan_lit\<close> is a literal of the format string. \<open>%d\<close> skips white space first (a newline
  is an error), reads the longest run of digits, and fails on an empty run or on overflow;
  for a signed operand one sign may precede the digits. Sscanf does not look at the input
  that is left once the format is used up.
\<close>

fun scan_lit :: "string \<Rightarrow> string \<Rightarrow> string option" where
  "scan_lit [] s = Some s"
| "scan_lit (c # f) [] = None"
| "scan_lit (c # f) (x # s) = (if x = c then scan_lit f s else None)"

function skip_space :: "string \<Rightarrow> string option" where
  "skip_space s =
     (if s = [] then Some []
      else if hd s = CHR 0x0A then None
      else if 0 < space_len s then skip_space (drop (space_len s) s)
      else Some s)"
  by pat_completeness auto
termination
  by (relation "measure length") auto

declare skip_space.simps [simp del]

definition scan_digits :: "nat \<Rightarrow> string \<Rightarrow> (nat \<times> string) option" where
  "scan_digits limit s =
     (let ds = takeWhile is_digit s in
      if ds = [] \<or> limit \<le> number_of ds then None
      else Some (number_of ds, dropWhile is_digit s))"

definition scan_uint :: "nat \<Rightarrow> string \<Rightarrow> (nat \<times> string) option" where
  "scan_uint bits s = Option.bind (skip_space s) (scan_digits (2 ^ bits))"

text \<open>The signed operand, 64 bits wide; the magnitude of the most negative value is one larger.\<close>

definition scan_int :: "string \<Rightarrow> (int \<times> string) option" where
  "scan_int s =
     Option.bind (skip_space s) (\<lambda>t. case t of
         [] \<Rightarrow> None
       | c # r \<Rightarrow>
           if c = CHR ''-'' then map_option (\<lambda>(n, u). (- int n, u)) (scan_digits (2 ^ 63 + 1) r)
           else map_option (\<lambda>(n, u). (int n, u))
                  (scan_digits (2 ^ 63) (if c = CHR ''+'' then r else t)))"

lemma scan_lit_append [simp]: "scan_lit f (f @ s) = Some s"
  by (induction f) auto

lemma digit_not_space: "is_digit c \<Longrightarrow> space_len (c # s) = 0 \<and> c \<noteq> CHR 0x0A"
  by (auto simp: is_digit_def space_len_def ascii_space_def split: list.splits)

lemma skip_space_digit: "is_digit c \<Longrightarrow> skip_space (c # s) = Some (c # s)"
  using digit_not_space [of c s] by (subst skip_space.simps) simp

lemma skip_space_itoa: "skip_space (itoa n @ r) = Some (itoa n @ r)"
proof (cases "itoa n")
  case (Cons c s)
  with itoa_digits [of n] show ?thesis by (simp add: skip_space_digit)
qed simp

lemma scan_uint_itoa:
  assumes "n < 2 ^ bits" and "r = [] \<or> \<not> is_digit (hd r)"
  shows "scan_uint bits (itoa n @ r) = Some (n, r)"
  using assms takeWhile_itoa [OF assms(2), of n]
  by (simp add: scan_uint_def skip_space_itoa scan_digits_def)

lemma scan_int_itoa:
  assumes "n < 2 ^ 63" and "r = [] \<or> \<not> is_digit (hd r)"
  shows "scan_int (itoa n @ r) = Some (int n, r)"
proof (cases "itoa n")
  case (Cons c s)
  with itoa_digits [of n] have "c \<noteq> CHR ''-''" and "c \<noteq> CHR ''+''"
    by (auto simp: is_digit_def)
  moreover have "scan_digits (2 ^ 63) (itoa n @ r) = Some (n, r)"
    using assms takeWhile_itoa [OF assms(2), of n] by (simp add: scan_digits_def)
  ultimately show ?thesis
    using skip_space_itoa [of n r] Cons by (simp add: scan_int_def)
qed simp

lemma scan_uint_bound: "scan_uint bits s = Some (n, r) \<Longrightarrow> n < 2 ^ bits"
  by (auto simp: scan_uint_def scan_digits_def Let_def bind_eq_Some_conv split: if_splits)

section \<open>Rune counting\<close>

definition in_range :: "nat \<Rightarrow> nat \<Rightarrow> nat \<Rightarrow> bool" where
  "in_range lo hi b \<longleftrightarrow> lo \<le> b \<and> b \<le> hi"

text \<open>
  The width of the first rune of a non-empty byte string, as utf8.DecodeRune finds it: a
  byte that starts no valid encoding counts as one rune of width 1.
\<close>

definition rune_width :: "nat list \<Rightarrow> nat" where
  "rune_width bs =
     (let b0 = hd bs; cont = in_range 0x80 0xBF;
          lo = (if b0 = 0xE0 then 0xA0 else if b0 = 0xF0 then 0x90 else 0x80);
          hi = (if b0 = 0xED then 0x9F else if b0 = 0xF4 then 0x8F else 0xBF);
          need = (if in_range 0xC2 0xDF b0 then 2 else if in_range 0xE0 0xEF b0 then 3
                  else if in_range 0xF0 0xF4 b0 then 4 else (1 :: nat))
      in if need = 1 \<or> length bs < need then 1
         else if in_range lo hi (bs ! 1) \<and> list_all cont (take (need - 2) (drop 2 bs)) then need
         else 1)"

lemma rune_width_pos: "1 \<le> rune_width bs"
  by (auto simp: rune_width_def Let_def)

lemma rune_width_le: "rune_width bs \<le> 4"
  by (auto simp: rune_width_def Let_def)

lemma rune_width_length: "bs \<noteq> [] \<Longrightarrow> rune_width bs \<le> length bs"
  by (cases bs) (auto simp: rune_width_def Let_def)

function runes :: "nat list \<Rightarrow> nat" where
  "runes bs = (if bs = [] then 0 else Suc (runes (drop (rune_width bs) bs)))"
  by pat_completeness auto
termination
  using rune_width_pos by (relation "measure length") (auto simp: Suc_le_eq)

declare runes.simps [simp del]

definition rune_count :: "string \<Rightarrow> nat" where
  "rune_count s = runes (map code s)"

lemma runes_Nil [simp]: "runes [] = 0"
  by (subst runes.simps) simp

lemma runes_le_length: "runes bs \<le> length bs"
proof (induction bs rule: runes.induct)
  case (1 bs)
  show ?case
  proof (cases "bs = []")
    case False
    with "1.IH" have "runes (drop (rune_width bs) bs) \<le> length bs - rune_width bs" by simp
    with rune_width_pos [of bs] rune_width_length [OF False] False
    show ?thesis by (subst runes.simps) auto
  qed simp
qed

lemma length_le_runes: "length bs \<le> 4 * runes bs"
proof (induction bs rule: runes.induct)
  case (1 bs)
  show ?case
  proof (cases "bs = []")
    case False
    with "1.IH" have "length bs - rune_width bs \<le> 4 * runes (drop (rune_width bs) bs)" by simp
    with rune_width_le [of bs] False show ?thesis by (subst runes.simps) auto
  qed simp
qed

lemma runes_ascii: "list_all (\<lambda>b. b < 128) bs \<Longrightarrow> runes bs = length bs"
proof (induction bs rule: runes.induct)
  case (1 bs)
  show ?case
  proof (cases bs)
    case (Cons b r)
    with "1.prems" have "rune_width bs = 1"
      by (auto simp: rune_width_def in_range_def Let_def)
    with "1.IH" "1.prems" Cons show ?thesis by (subst runes.simps) simp
  qed simp
qed

lemma rune_count_ascii: "is_ascii s \<Longrightarrow> rune_count s = length s"
  by (simp add: rune_count_def runes_ascii is_ascii_def list_all_iff ascii_char_def)

text \<open>utf8.ValidString: every byte belongs to the encoding of a rune.\<close>

function well_encoded :: "nat list \<Rightarrow> bool" where
  "well_encoded bs =
     (if bs = [] then True
      else if hd bs < 128 \<or> 1 < rune_width bs then well_encoded (drop (rune_width bs) bs)
      else False)"
  by pat_completeness auto
termination
  using rune_width_pos by (relation "measure length") (auto simp: Suc_le_eq)

declare well_encoded.simps [simp del]

definition valid_utf8 :: "string \<Rightarrow> bool" where
  "valid_utf8 s \<longleftrightarrow> well_encoded (map code s)"

lemma well_encoded_ascii: "list_all (\<lambda>b. b < 128) bs \<Longrightarrow> well_encoded bs"
proof (induction bs)
  case (Cons b r)
  then have "rune_width (b # r) = 1"
    by (auto simp: rune_width_def in_range_def Let_def)
  with Cons show ?case by (subst well_encoded.simps) simp
qed (subst well_encoded.simps, simp)

lemma ascii_valid_utf8: "is_ascii s \<Longrightarrow> valid_utf8 s"
  by (simp add: valid_utf8_def well_encoded_ascii is_ascii_def list_all_iff ascii_char_def)

section \<open>Identifiers\<close>

text \<open>The schema qualifier's pattern: a lower-case letter or underscore, then also digits.\<close>

definition ident_start :: "char \<Rightarrow> bool" where
  "ident_start c \<longleftrightarrow> 97 \<le> code c \<and> code c \<le> 122 \<or> c = CHR ''_''"

definition ident_char :: "char \<Rightarrow> bool" where
  "ident_char c \<longleftrightarrow> ident_start c \<or> is_digit c"

fun ident_ok :: "string \<Rightarrow> bool" where
  "ident_ok [] = False"
| "ident_ok (c # s) = (ident_start c \<and> list_all ident_char s)"

lemma ident_ok_chars: "ident_ok s \<Longrightarrow> c \<in> set s \<Longrightarrow> ident_char c"
  by (cases s) (auto simp: ident_char_def list_all_iff)

end
