(* ===== verification/Kalerr.thy ===== *)
theory Kalerr
  imports Go_Strings
begin

text \<open>
  The error contract of \<open>kalerr/errors.go\<close>. Go's \<open>error\<close> values are a datatype: kal's own
  \<open>*kalerr.Error\<close>, plain text errors, wrapping (\<open>fmt.Errorf\<close> with \<open>%w\<close>), and the errors
  that reach kal from below. \<open>GoPanic\<close> is not an error value in Go: it stands for a panic
  that unwinds the call, and appears only where kal calls code that panics.
\<close>

section \<open>The code vocabulary\<close>

definition CodeUnauthenticated :: string where "CodeUnauthenticated = ''UNAUTHENTICATED''"
definition CodeForbidden :: string where "CodeForbidden = ''FORBIDDEN''"
definition CodeInvalidCredentials :: string where "CodeInvalidCredentials = ''INVALID_CREDENTIALS''"
definition CodeRateLimited :: string where "CodeRateLimited = ''RATE_LIMITED''"
definition CodeMFARequired :: string where "CodeMFARequired = ''MFA_REQUIRED''"
definition CodeInvalidToken :: string where "CodeInvalidToken = ''INVALID_TOKEN''"
definition CodeInvalidInput :: string where "CodeInvalidInput = ''INVALID_INPUT''"
definition CodeInvalidProof :: string where "CodeInvalidProof = ''INVALID_PROOF''"
definition CodeConflict :: string where "CodeConflict = ''CONFLICT''"

lemmas code_defs =
  CodeUnauthenticated_def CodeForbidden_def CodeInvalidCredentials_def CodeRateLimited_def
  CodeMFARequired_def CodeInvalidToken_def CodeInvalidInput_def CodeInvalidProof_def
  CodeConflict_def

section \<open>Error values\<close>

text \<open>The sentinel errors of golang-jwt kal tells apart; its validator joins several into one.\<close>

datatype jwt_fault =
    TokenMalformed | TokenUnverifiable | TokenSignatureInvalid | TokenExpired | TokenNotValidYet
  | OtherFault

datatype goerr =
    KalErr string string "goerr option"  \<comment> \<open>Code, Message, Internal\<close>
  | Text string
  | Wrapped string goerr
  | NoRows  \<comment> \<open>pg.ErrNoRows\<close>
  | MultiRows  \<comment> \<open>pg.ErrMultiRows\<close>
  | Driver string  \<comment> \<open>any other driver error: a lost connection, a violated constraint\<close>
  | Csprng  \<comment> \<open>crypto/rand failed\<close>
  | SlotTimeout  \<comment> \<open>the context ended before the semaphore had room\<close>
  | MailRefused  \<comment> \<open>the Mailer returned an error\<close>
  | JwtFault "jwt_fault list" string  \<comment> \<open>the joined sentinels and the text\<close>
  | GoPanic string

text \<open>The Error method, \<open>Code: Message\<close> and the cause when there is one.\<close>

fun error_text :: "goerr \<Rightarrow> string" where
  "error_text (KalErr c m None) = c @ '': '' @ m"
| "error_text (KalErr c m (Some e)) = c @ '': '' @ m @ '': '' @ error_text e"
| "error_text (Text s) = s"
| "error_text (Wrapped s e) = s @ error_text e"
| "error_text NoRows = ''pg: no rows in result set''"
| "error_text MultiRows = ''pg: multiple rows in result set''"
| "error_text (Driver s) = s"
| "error_text Csprng = ''crypto/rand''"
| "error_text SlotTimeout = ''context deadline exceeded''"
| "error_text MailRefused = ''mail''"
| "error_text (JwtFault fs s) = s"
| "error_text (GoPanic s) = s"

fun unwrap :: "goerr \<Rightarrow> goerr option" where
  "unwrap (KalErr c m i) = i"
| "unwrap (Wrapped s e) = Some e"
| "unwrap _ = None"

text \<open>\<open>errors.Is\<close> against pg.ErrNoRows walks the chain.\<close>

fun is_no_rows :: "goerr \<Rightarrow> bool" where
  "is_no_rows NoRows = True"
| "is_no_rows (KalErr c m (Some e)) = is_no_rows e"
| "is_no_rows (Wrapped s e) = is_no_rows e"
| "is_no_rows _ = False"

text \<open>\<open>errors.Is\<close> against a golang-jwt sentinel: the whole chain, and every joined error.\<close>

fun is_fault :: "jwt_fault \<Rightarrow> goerr \<Rightarrow> bool" where
  "is_fault f (JwtFault fs s) = (f \<in> set fs)"
| "is_fault f (KalErr c m (Some e)) = is_fault f e"
| "is_fault f (Wrapped s e) = is_fault f e"
| "is_fault f _ = False"

text \<open>\<open>errors.AsType[*Error]\<close>: the first kal error of the chain, as its code and message.\<close>

fun as_kal :: "goerr \<Rightarrow> (string \<times> string) option" where
  "as_kal (KalErr c m i) = Some (c, m)"
| "as_kal (Wrapped s e) = as_kal e"
| "as_kal _ = None"

text \<open>
  The As method: the bridge that hands luima's presenter a CustomError with the safe message
  and the cause.
\<close>

fun custom_error :: "goerr \<Rightarrow> (string \<times> goerr option) option" where
  "custom_error (KalErr c m i) = Some (m, i)"
| "custom_error _ = None"

section \<open>The presenter\<close>

record gql_error =
  ge_message :: string
  ge_path :: "string list"
  ge_code :: "string option"  \<comment> \<open>extensions.code\<close>

text \<open>luima's own presenter is code outside the repository: the parameter \<open>luima\<close>.\<close>

definition present_error ::
  "(string list \<Rightarrow> goerr \<Rightarrow> gql_error) \<Rightarrow> string list \<Rightarrow> goerr \<Rightarrow> gql_error" where
  "present_error luima path e =
     (case as_kal e of
        Some (c, m) \<Rightarrow> \<lparr>ge_message = m, ge_path = path, ge_code = Some c\<rparr>
      | None \<Rightarrow> luima path e)"

definition has_code :: "string \<Rightarrow> goerr \<Rightarrow> bool" where
  "has_code c e \<longleftrightarrow> map_option fst (as_kal e) = Some c"

lemma has_code_KalErr [simp]: "has_code c (KalErr c' m i) \<longleftrightarrow> c = c'"
  by (auto simp: has_code_def)

lemma has_code_simps [simp]:
  "\<not> has_code c (Text s)" "\<not> has_code c NoRows" "\<not> has_code c MultiRows"
  "\<not> has_code c (Driver s)" "\<not> has_code c Csprng" "\<not> has_code c SlotTimeout"
  "\<not> has_code c MailRefused" "\<not> has_code c (GoPanic s)"
  "\<not> has_code c (JwtFault fs s)"
  "has_code c (Wrapped s e) = has_code c e"
  by (simp_all add: has_code_def)

definition invalid_input :: "string \<Rightarrow> goerr" where
  "invalid_input message = KalErr CodeInvalidInput message None"

definition invalid_credentials :: "goerr option \<Rightarrow> goerr" where
  "invalid_credentials cause = KalErr CodeInvalidCredentials ''invalid email or password'' cause"

text \<open>
  What a client sees of a kal error is its code and its message: two errors that differ only
  in the cause are presented alike, under every presenter below.
\<close>

lemma present_error_cause_free:
  "present_error luima path (KalErr c m i) = present_error luima path (KalErr c m j)"
  by (simp add: present_error_def)

lemma present_error_other: "as_kal e = None \<Longrightarrow> present_error luima path e = luima path e"
  by (simp add: present_error_def)

end
