(* ===== verification/Schema.thy ===== *)
theory Schema
  imports Kalerr
begin

text \<open>
  The tables of \<open>migrations/0001_core.sql\<close> and \<open>migrations/0003_e2ee.sql\<close>. A table is the
  list of its rows, a nullable column an option, a timestamptz a number of microseconds, a
  bytea a list of bytes. The eight zero-knowledge tables of 0002 are read and written by no
  statement of this repository and have no rows here; \<open>Ddl\<close> has their declarations.
\<close>

section \<open>Rows\<close>

record user_row =
  u_id :: string
  u_email :: string
  u_hash :: "string option"
  u_verified :: bool
  u_created :: int
  u_updated :: int
  u_deleted :: "int option"

record session_row =
  s_id :: string
  s_token :: "byte list"
  s_user :: string
  s_created :: int
  s_last_seen :: int
  s_idle_exp :: int
  s_exp :: int
  s_mfa :: "int option"
  s_ua :: "string option"
  s_ip :: "string option"
  s_revoked :: "int option"

record token_row =
  t_hash :: "byte list"
  t_user :: string
  t_purpose :: string
  t_expires :: int
  t_consumed :: "int option"
  t_created :: int

record attempt_row =
  a_scope :: string
  a_key :: string
  a_failures :: int
  a_last :: int

record vault_row =
  v_user :: string
  v_kdf :: string
  v_salt :: "byte list"
  v_memory :: int
  v_iterations :: int
  v_parallelism :: int
  v_wrapped :: "byte list option"
  v_recovery :: "byte list option"
  v_wrapped_for :: "byte list option"
  v_version :: int
  v_updated :: int

record database =
  users :: "user_row list"
  sessions :: "session_row list"
  tokens :: "token_row list"
  roles :: "(string \<times> string) list"  \<comment> \<open>name, description\<close>
  user_roles :: "(string \<times> string) list"  \<comment> \<open>user id, role\<close>
  attempts :: "attempt_row list"
  vaults :: "vault_row list"

definition empty_db :: database where
  "empty_db = \<lparr>users = [], sessions = [], tokens = [], roles = [], user_roles = [],
               attempts = [], vaults = []\<rparr>"

section \<open>Constraints\<close>

text \<open>An account is live while deleted_at is null; that is also the disable switch.\<close>

definition live_user :: "user_row \<Rightarrow> bool" where
  "live_user u \<longleftrightarrow> u_deleted u = None"

text \<open>The key of the partial unique index auth_users_email_live_key.\<close>

definition email_key :: "unicode_tables \<Rightarrow> user_row \<Rightarrow> string" where
  "email_key U u = pg_lower U (u_email u)"

definition has_user :: "database \<Rightarrow> string \<Rightarrow> bool" where
  "has_user d i \<longleftrightarrow> list_ex (\<lambda>u. u_id u = i) (users d)"

lemma has_user_iff: "has_user d i \<longleftrightarrow> i \<in> u_id ` set (users d)"
  by (auto simp: has_user_def list_ex_iff)

text \<open>The range of the columns declared int (failures, memory, iterations, key_version).\<close>

definition int4_max :: int where
  "int4_max = 2147483647"

definition int4 :: "int \<Rightarrow> bool" where
  "int4 i \<longleftrightarrow> - int4_max - 1 \<le> i \<and> i \<le> int4_max"

text \<open>
  The constraints the migrations declare: primary keys, the unique token hash, the partial
  unique index, the foreign keys, the check on parallelism.
\<close>

definition wf_users :: "unicode_tables \<Rightarrow> database \<Rightarrow> bool" where
  "wf_users U d \<longleftrightarrow> distinct (map u_id (users d))
     \<and> distinct (map (email_key U) (filter live_user (users d)))"

definition wf_sessions :: "database \<Rightarrow> bool" where
  "wf_sessions d \<longleftrightarrow> distinct (map s_id (sessions d)) \<and> distinct (map s_token (sessions d))
     \<and> (\<forall>s \<in> set (sessions d). has_user d (s_user s))"

definition wf_tokens :: "database \<Rightarrow> bool" where
  "wf_tokens d \<longleftrightarrow> distinct (map t_hash (tokens d)) \<and> (\<forall>t \<in> set (tokens d). has_user d (t_user t))"

definition wf_roles :: "database \<Rightarrow> bool" where
  "wf_roles d \<longleftrightarrow> distinct (map fst (roles d)) \<and> distinct (user_roles d)
     \<and> (\<forall>(i, r) \<in> set (user_roles d). has_user d i \<and> r \<in> fst ` set (roles d))"

definition wf_attempts :: "database \<Rightarrow> bool" where
  "wf_attempts d \<longleftrightarrow> distinct (map (\<lambda>a. (a_scope a, a_key a)) (attempts d))
     \<and> (\<forall>a \<in> set (attempts d). 1 \<le> a_failures a \<and> a_failures a \<le> int4_max)"

definition wf_vaults :: "database \<Rightarrow> bool" where
  "wf_vaults d \<longleftrightarrow> distinct (map v_user (vaults d))
     \<and> (\<forall>v \<in> set (vaults d). has_user d (v_user v) \<and> v_parallelism v = 1 \<and> 1 \<le> v_version v)"

definition wf_db :: "unicode_tables \<Rightarrow> database \<Rightarrow> bool" where
  "wf_db U d \<longleftrightarrow> wf_users U d \<and> wf_sessions d \<and> wf_tokens d \<and> wf_roles d \<and> wf_attempts d
     \<and> wf_vaults d"

lemmas wf_defs = wf_users_def wf_sessions_def wf_tokens_def wf_roles_def wf_attempts_def wf_vaults_def

lemma wf_empty_db: "wf_db U empty_db"
  by (simp add: wf_db_def wf_defs empty_db_def)

section \<open>Statements\<close>

text \<open>
  A statement takes \<open>now()\<close> and the value \<open>gen_random_uuid()\<close> gives, and either violates a
  constraint, leaving the tables as they were, or returns its rows (or its row count) with
  the new tables. Postgres runs one statement atomically.
\<close>

type_synonym 'r stmt = "int \<Rightarrow> string \<Rightarrow> database \<Rightarrow> goerr + ('r \<times> database)"

definition unique_violation :: goerr where "unique_violation = Driver ''23505''"
definition foreign_key_violation :: goerr where "foreign_key_violation = Driver ''23503''"
definition out_of_range :: goerr where "out_of_range = Driver ''22003''"

text \<open>go-pg's QueryOne: exactly one row, or an error that says which way it failed.\<close>

fun one_row :: "'r list \<Rightarrow> goerr + 'r" where
  "one_row [] = Inl NoRows"
| "one_row [r] = Inr r"
| "one_row (r # r' # rs) = Inl MultiRows"

lemma one_row_Inr: "one_row rs = Inr r \<longleftrightarrow> rs = [r]"
  by (cases rs rule: one_row.cases) auto

lemma one_row_NoRows: "one_row rs = Inl NoRows \<longleftrightarrow> rs = []"
  by (cases rs rule: one_row.cases) auto

lemma one_row_no_rows: "one_row rs = Inl e \<Longrightarrow> is_no_rows e \<longleftrightarrow> rs = []"
  by (cases rs rule: one_row.cases) auto

end
