(* ===== verification/World.thy ===== *)
theory World
  imports Schema
begin

text \<open>
  The state a kal operation runs in and the effects it has: statements on the database,
  audit events, log lines, mail, cookies, random bytes, hashing slots. What the outside world decides
  (the clocks, whether a statement, a mail or an acquire fails, the random bytes) is the
  environment, a record of functions of the number of interactions so far; a program is a
  function of the environment and the world. \<open>wp\<close> and the locale \<open>guarantee\<close> are the two
  ways the other theories reason about programs.
\<close>

section \<open>Events, messages, cookies\<close>

text \<open>\<open>authz.Event\<close>. A zero time is 0.\<close>

record event =
  ev_kind :: string
  ev_user :: string
  ev_email :: string
  ev_ip :: string
  ev_at :: int
  ev_detail :: "(string \<times> string) list"

datatype message_kind =
    KindVerify | KindReset | KindInvite | KindAttemptedRegister | KindResetNoAccount
  | KindPasswordChanged | KindSuspiciousLogin

fun kind_text :: "message_kind \<Rightarrow> string" where
  "kind_text KindVerify = ''verify''"
| "kind_text KindReset = ''reset''"
| "kind_text KindInvite = ''invite''"
| "kind_text KindAttemptedRegister = ''attempted-register''"
| "kind_text KindResetNoAccount = ''reset-no-account''"
| "kind_text KindPasswordChanged = ''password-changed''"
| "kind_text KindSuspiciousLogin = ''suspicious-login''"

record message =
  m_kind :: message_kind
  m_subject :: string
  m_text :: string
  m_url :: string

datatype same_site = SameSiteLax | SameSiteStrict | SameSiteNone

record cookie =
  ck_name :: string
  ck_value :: string
  ck_path :: string
  ck_secure :: bool
  ck_http_only :: bool
  ck_same_site :: same_site
  ck_max_age :: int

section \<open>Environment and world\<close>

text \<open>
  The Mailer is the consumer's, or the one in \<open>authn/mailer.go\<close>: \<open>mail_fails\<close> says whether it
  returns an error, \<open>mail_lines\<close> what it prints to the process log of its own accord.
  Argon2 and bcrypt are golang.org/x/crypto, outside the repository. \<open>argon2\<close> is
  argon2.IDKey, \<open>None\<close> where it panics; \<open>bcrypt\<close> is bcrypt.CompareHashAndPassword
  returning nil.
\<close>

record env =
  unicode :: unicode_tables
  db_clock :: "nat \<Rightarrow> int"
  proc_clock :: "nat \<Rightarrow> int"
  db_fails :: "nat \<Rightarrow> bool"
  db_applied :: "nat \<Rightarrow> bool"
  new_uuid :: "nat \<Rightarrow> string"
  rand_fails :: "nat \<Rightarrow> bool"
  rand_byte :: "nat \<Rightarrow> nat \<Rightarrow> byte"
  slot_times_out :: "nat \<Rightarrow> bool"
  mail_fails :: "nat \<Rightarrow> bool"
  mail_lines :: "string \<Rightarrow> message \<Rightarrow> string list"
  argon2 :: "byte list \<Rightarrow> byte list \<Rightarrow> nat \<Rightarrow> nat \<Rightarrow> nat \<Rightarrow> nat \<Rightarrow> byte list option"
  bcrypt :: "string \<Rightarrow> string \<Rightarrow> bool"

text \<open>What a program does with the hashing slots, in order.\<close>

datatype slot_event = Slot_taken | Slot_refused | Hash_computed | Slot_given

text \<open>
  \<open>in_flight\<close> counts the hashing slots held, \<open>hash_runs\<close> the password hashes computed,
  \<open>slot_log\<close> is what was done with slots and hashes, oldest first,
  \<open>outbox\<close> the messages the Mailer accepted, \<open>trail\<close> the events the audit hook received,
  \<open>log_lines\<close> the lines printed to the process log, \<open>jar\<close> the cookies queued on the
  response; the last four oldest first.
\<close>

record world =
  step :: nat
  db :: database
  outbox :: "(string \<times> message) list"
  trail :: "event list"
  log_lines :: "string list"
  jar :: "cookie list"
  in_flight :: nat
  hash_runs :: nat
  slot_log :: "slot_event list"

type_synonym 'a outcome = "goerr + 'a"
type_synonym 'a prog = "env \<Rightarrow> world \<Rightarrow> 'a outcome \<times> world"

section \<open>Programs\<close>

definition ret :: "'a \<Rightarrow> 'a prog" where
  "ret x = (\<lambda>E w. (Inr x, w))"

definition fail :: "goerr \<Rightarrow> 'a prog" where
  "fail e = (\<lambda>E w. (Inl e, w))"

definition bindM :: "'a prog \<Rightarrow> ('a outcome \<Rightarrow> 'b prog) \<Rightarrow> 'b prog" where
  "bindM m f = (\<lambda>E w. case m E w of (r, w') \<Rightarrow> f r E w')"

text \<open>\<open>if err != nil { return err }\<close>.\<close>

definition tryM :: "'a prog \<Rightarrow> ('a \<Rightarrow> 'b prog) \<Rightarrow> 'b prog" where
  "tryM m f = bindM m (\<lambda>r. case r of Inl e \<Rightarrow> fail e | Inr a \<Rightarrow> f a)"

text \<open>A line of the process log.\<close>

definition log_printf :: "string \<Rightarrow> unit prog" where
  "log_printf l = (\<lambda>E w. (Inr (), w\<lparr>log_lines := log_lines w @ [l]\<rparr>))"

text \<open>A call whose error is logged behind a prefix and dropped.\<close>

definition ignoring :: "string \<Rightarrow> 'a prog \<Rightarrow> 'b prog \<Rightarrow> 'b prog" where
  "ignoring prefix m n = bindM m (\<lambda>r. case r of
     Inl e \<Rightarrow> bindM (log_printf (prefix @ error_text e)) (\<lambda>_. n)
   | Inr a \<Rightarrow> n)"

definition lift :: "goerr + 'a \<Rightarrow> 'a prog" where
  "lift r = (\<lambda>E w. (r, w))"

text \<open>A part of a program that reads the environment's tables.\<close>

definition with_env :: "(env \<Rightarrow> 'a prog) \<Rightarrow> 'a prog" where
  "with_env f = (\<lambda>E w. f E E w)"

definition tick :: "world \<Rightarrow> world" where
  "tick w = w\<lparr>step := Suc (step w)\<rparr>"

text \<open>
  A statement that fails on the way has not run, or has run and only its answer was lost:
  \<open>db_applied\<close> says which. A statement the database rejects leaves the tables as they were.
\<close>

definition apply_stmt :: "'r stmt \<Rightarrow> env \<Rightarrow> world \<Rightarrow> world" where
  "apply_stmt st E w = (case st (db_clock E (step w)) (new_uuid E (step w)) (db w) of
     Inl e \<Rightarrow> w
   | Inr (r, d) \<Rightarrow> w\<lparr>db := d\<rparr>)"

definition exec :: "'r stmt \<Rightarrow> 'r prog" where
  "exec st = (\<lambda>E w.
     if db_fails E (step w)
     then (Inl (Driver ''connection''), tick (if db_applied E (step w) then apply_stmt st E w else w))
     else case st (db_clock E (step w)) (new_uuid E (step w)) (db w) of
            Inl e \<Rightarrow> (Inl e, tick w)
          | Inr (r, d) \<Rightarrow> (Inr r, (tick w)\<lparr>db := d\<rparr>))"

lemma apply_stmt_simps [simp]:
  "step (apply_stmt st E w) = step w" "outbox (apply_stmt st E w) = outbox w" "trail (apply_stmt st E w) = trail w"
  "log_lines (apply_stmt st E w) = log_lines w"
  "jar (apply_stmt st E w) = jar w" "in_flight (apply_stmt st E w) = in_flight w"
  "hash_runs (apply_stmt st E w) = hash_runs w" "slot_log (apply_stmt st E w) = slot_log w"
  by (simp_all add: apply_stmt_def split: sum.split)

text \<open>A statement nothing can reject; of these, a SELECT changes nothing, applied or not.\<close>

lemma apply_total [simp]:
  "apply_stmt (\<lambda>now uid d. Inr (f now uid d, g now uid d)) E w
     = w\<lparr>db := g (db_clock E (step w)) (new_uuid E (step w)) (db w)\<rparr>"
  by (simp add: apply_stmt_def)

lemma same_tables [simp]: "w\<lparr>db := db w\<rparr> = w"
  by simp

definition query_one :: "'r list stmt \<Rightarrow> 'r prog" where
  "query_one st = tryM (exec st) (\<lambda>rs. lift (one_row rs))"

text \<open>\<open>Audit.Emit\<close>: nothing when the hook is nil; a zero time becomes the process clock.\<close>

definition emit :: "bool \<Rightarrow> event \<Rightarrow> unit prog" where
  "emit hook e = (\<lambda>E w.
     if hook
     then (Inr (), (tick w)\<lparr>trail := trail w @ [if ev_at e = 0 then e\<lparr>ev_at := proc_clock E (step w)\<rparr> else e]\<rparr>)
     else (Inr (), w))"

definition send_mail :: "string \<Rightarrow> message \<Rightarrow> unit prog" where
  "send_mail to msg = (\<lambda>E w.
     if mail_fails E (step w) then (Inl MailRefused, (tick w)\<lparr>log_lines := log_lines w @ mail_lines E to msg\<rparr>)
     else (Inr (), (tick w)\<lparr>log_lines := log_lines w @ mail_lines E to msg, outbox := outbox w @ [(to, msg)]\<rparr>))"

definition rand_read :: "nat \<Rightarrow> byte list prog" where
  "rand_read n = (\<lambda>E w.
     if rand_fails E (step w) then (Inl Csprng, tick w)
     else (Inr (map (rand_byte E (step w)) [0..<n]), tick w))"

definition add_cookie :: "cookie \<Rightarrow> unit prog" where
  "add_cookie c = (\<lambda>E w. (Inr (), w\<lparr>jar := jar w @ [c]\<rparr>))"

definition count_hash :: "unit prog" where
  "count_hash = (\<lambda>E w. (Inr (), w\<lparr>hash_runs := Suc (hash_runs w), slot_log := slot_log w @ [Hash_computed]\<rparr>))"

text \<open>
  \<open>semaphore.Weighted\<close> of the given size: an acquire succeeds only while a slot is free, and
  may run into the context's deadline even then. When none is free it waits for up to two
  seconds; nothing runs beside this program that could give one back, so the wait ends at the
  deadline. \<open>Hash_Slots\<close> has the runs of many programs beside each other, and their waiting.
\<close>

definition turned_away :: "world \<Rightarrow> world" where
  "turned_away w = (tick w)\<lparr>slot_log := slot_log w @ [Slot_refused]\<rparr>"

definition took_slot :: "world \<Rightarrow> world" where
  "took_slot w = (tick w)\<lparr>in_flight := Suc (in_flight w), slot_log := slot_log w @ [Slot_taken]\<rparr>"

definition gave_slot :: "world \<Rightarrow> world" where
  "gave_slot w = w\<lparr>in_flight := in_flight w - 1, slot_log := slot_log w @ [Slot_given]\<rparr>"

definition acquire_slot :: "nat \<Rightarrow> unit prog" where
  "acquire_slot limit = (\<lambda>E w.
     if limit \<le> in_flight w \<or> slot_times_out E (step w)
     then (Inl SlotTimeout, turned_away w) else (Inr (), took_slot w))"

definition release_slot :: "unit prog" where
  "release_slot = (\<lambda>E w. (Inr (), gave_slot w))"

lemmas prog_defs = ret_def fail_def bindM_def tryM_def ignoring_def lift_def with_env_def

lemma tick_simps [simp]:
  "step (tick w) = Suc (step w)" "db (tick w) = db w" "outbox (tick w) = outbox w"
  "trail (tick w) = trail w" "log_lines (tick w) = log_lines w" "jar (tick w) = jar w" "in_flight (tick w) = in_flight w"
  "hash_runs (tick w) = hash_runs w" "slot_log (tick w) = slot_log w"
  by (simp_all add: tick_def)

lemma slot_simps [simp]:
  "step (turned_away w) = Suc (step w)" "db (turned_away w) = db w" "outbox (turned_away w) = outbox w"
  "trail (turned_away w) = trail w" "log_lines (turned_away w) = log_lines w" "jar (turned_away w) = jar w"
  "in_flight (turned_away w) = in_flight w" "hash_runs (turned_away w) = hash_runs w"
  "slot_log (turned_away w) = slot_log w @ [Slot_refused]"
  "step (took_slot w) = Suc (step w)" "db (took_slot w) = db w" "outbox (took_slot w) = outbox w"
  "trail (took_slot w) = trail w" "log_lines (took_slot w) = log_lines w" "jar (took_slot w) = jar w"
  "in_flight (took_slot w) = Suc (in_flight w)" "hash_runs (took_slot w) = hash_runs w"
  "slot_log (took_slot w) = slot_log w @ [Slot_taken]"
  "step (gave_slot w) = step w" "db (gave_slot w) = db w" "outbox (gave_slot w) = outbox w"
  "trail (gave_slot w) = trail w" "log_lines (gave_slot w) = log_lines w" "jar (gave_slot w) = jar w"
  "in_flight (gave_slot w) = in_flight w - 1" "hash_runs (gave_slot w) = hash_runs w"
  "slot_log (gave_slot w) = slot_log w @ [Slot_given]"
  by (simp_all add: turned_away_def took_slot_def gave_slot_def)

text \<open>Failed or not, the tables are the old ones or what the statement makes of them.\<close>

lemma exec_db:
  assumes "exec st E w = (r, w')"
  obtains (kept) "db w' = db w"
    | (applied) x where "st (db_clock E (step w)) (new_uuid E (step w)) (db w) = Inr (x, db w')"
  using assms by (auto simp: exec_def apply_stmt_def split: if_splits sum.splits)

lemma exec_frame:
  assumes "exec st E w = (r, w')"
  shows "step w' = Suc (step w)" "outbox w' = outbox w" "trail w' = trail w" "jar w' = jar w"
    "in_flight w' = in_flight w" "hash_runs w' = hash_runs w" "log_lines w' = log_lines w"
    "slot_log w' = slot_log w"
  using assms by (auto simp: exec_def split: if_splits sum.splits)

lemma tryM_lift [simp]: "tryM (lift (Inr x)) f = f x" "tryM (lift (Inl e)) f = fail e"
  by (simp_all add: prog_defs)

lemma tryM_log [simp]: "tryM (log_printf l) f E w = f () E (w\<lparr>log_lines := log_lines w @ [l]\<rparr>)"
  by (simp add: tryM_def bindM_def log_printf_def)

lemma tryM_ret [simp]: "tryM (ret x) f = f x" "tryM (fail e) f = fail e"
  by (simp_all add: prog_defs)

lemma fail_Inr [simp]: "fail e E w \<noteq> (Inr v, w')"
  by (simp add: fail_def)

lemma lift_run [simp]: "lift r E w = (r', w') \<longleftrightarrow> r' = r \<and> w' = w"
  by (auto simp: lift_def)

section \<open>Weakest preconditions\<close>

definition wlp :: "'a prog \<Rightarrow> env \<Rightarrow> world \<Rightarrow> ('a outcome \<Rightarrow> world \<Rightarrow> bool) \<Rightarrow> bool" where
  "wlp m E w Q = (case m E w of (r, w') \<Rightarrow> Q r w')"

lemma wlpD: "wlp m E w Q \<Longrightarrow> m E w = (r, w') \<Longrightarrow> Q r w'"
  by (simp add: wlp_def)

lemma wlpI: "(\<And>r w'. m E w = (r, w') \<Longrightarrow> Q r w') \<Longrightarrow> wlp m E w Q"
  by (auto simp: wlp_def split: prod.splits)

lemma wlp_mono: "wlp m E w P \<Longrightarrow> (\<And>r w'. P r w' \<Longrightarrow> Q r w') \<Longrightarrow> wlp m E w Q"
  by (auto simp: wlp_def split: prod.splits)

lemma wlp_ret [wp]: "wlp (ret x) E w Q \<longleftrightarrow> Q (Inr x) w"
  by (simp add: wlp_def prog_defs)

lemma wlp_fail [wp]: "wlp (fail e) E w Q \<longleftrightarrow> Q (Inl e) w"
  by (simp add: wlp_def prog_defs)

lemma wlp_lift [wp]: "wlp (lift r) E w Q \<longleftrightarrow> Q r w"
  by (simp add: wlp_def prog_defs)

lemma wlp_bindM [wp]: "wlp (bindM m f) E w Q \<longleftrightarrow> wlp m E w (\<lambda>r w'. wlp (f r) E w' Q)"
  by (simp add: wlp_def prog_defs split: prod.splits)

lemma wlp_tryM [wp]:
  "wlp (tryM m f) E w Q \<longleftrightarrow>
     wlp m E w (\<lambda>r w'. (\<forall>e. r = Inl e \<longrightarrow> Q (Inl e) w') \<and> (\<forall>a. r = Inr a \<longrightarrow> wlp (f a) E w' Q))"
  by (auto simp: wlp_def prog_defs split: prod.splits sum.splits)

lemma wlp_log_printf [wp]: "wlp (log_printf l) E w Q \<longleftrightarrow> Q (Inr ()) (w\<lparr>log_lines := log_lines w @ [l]\<rparr>)"
  by (simp add: wlp_def log_printf_def)

lemma wlp_ignoring [wp]:
  fixes m :: "'a prog" and n :: "'b prog"
  shows "wlp (ignoring prefix m n) E w Q \<longleftrightarrow> wlp m E w (\<lambda>r w'. case r of
      Inl e \<Rightarrow> wlp n E (w'\<lparr>log_lines := log_lines w' @ [prefix @ error_text e]\<rparr>) Q
    | Inr a \<Rightarrow> wlp n E w' Q)"
proof -
  have "wlp (case r of Inl e \<Rightarrow> bindM (log_printf (prefix @ error_text e)) (\<lambda>_. n) | Inr a \<Rightarrow> n) E w' Q \<longleftrightarrow>
      (case r of Inl e \<Rightarrow> wlp n E (w'\<lparr>log_lines := log_lines w' @ [prefix @ error_text e]\<rparr>) Q
       | Inr a \<Rightarrow> wlp n E w' Q)" for r :: "'a outcome" and w'
    by (simp add: wlp_bindM wlp_log_printf split: sum.split)
  then show ?thesis by (simp only: ignoring_def wlp_bindM)
qed

lemma wlp_with_env [wp]: "wlp (with_env f) E w Q \<longleftrightarrow> wlp (f E) E w Q"
  by (simp add: wlp_def with_env_def)

lemma wlp_exec [wp]:
  "wlp (exec st) E w Q \<longleftrightarrow>
     (if db_fails E (step w)
      then Q (Inl (Driver ''connection'')) (tick (if db_applied E (step w) then apply_stmt st E w else w))
      else case st (db_clock E (step w)) (new_uuid E (step w)) (db w) of
             Inl e \<Rightarrow> Q (Inl e) (tick w)
           | Inr (r, d) \<Rightarrow> Q (Inr r) ((tick w)\<lparr>db := d\<rparr>))"
  by (auto simp: wlp_def exec_def split: sum.splits)

lemma wlp_emit [wp]:
  "wlp (emit hook e) E w Q \<longleftrightarrow>
     (if hook
      then Q (Inr ()) ((tick w)\<lparr>trail := trail w @ [if ev_at e = 0 then e\<lparr>ev_at := proc_clock E (step w)\<rparr> else e]\<rparr>)
      else Q (Inr ()) w)"
  by (simp add: wlp_def emit_def)

lemma wlp_send_mail [wp]:
  "wlp (send_mail to msg) E w Q \<longleftrightarrow>
     (if mail_fails E (step w) then Q (Inl MailRefused) ((tick w)\<lparr>log_lines := log_lines w @ mail_lines E to msg\<rparr>)
      else Q (Inr ()) ((tick w)\<lparr>log_lines := log_lines w @ mail_lines E to msg, outbox := outbox w @ [(to, msg)]\<rparr>))"
  by (simp add: wlp_def send_mail_def)

lemma wlp_rand_read [wp]:
  "wlp (rand_read n) E w Q \<longleftrightarrow>
     (if rand_fails E (step w) then Q (Inl Csprng) (tick w)
      else Q (Inr (map (rand_byte E (step w)) [0..<n])) (tick w))"
  by (simp add: wlp_def rand_read_def)

lemma wlp_add_cookie [wp]: "wlp (add_cookie c) E w Q \<longleftrightarrow> Q (Inr ()) (w\<lparr>jar := jar w @ [c]\<rparr>)"
  by (simp add: wlp_def add_cookie_def)

lemma wlp_count_hash [wp]:
  "wlp count_hash E w Q \<longleftrightarrow>
     Q (Inr ()) (w\<lparr>hash_runs := Suc (hash_runs w), slot_log := slot_log w @ [Hash_computed]\<rparr>)"
  by (simp add: wlp_def count_hash_def)

lemma wlp_acquire_slot [wp]:
  "wlp (acquire_slot limit) E w Q \<longleftrightarrow>
     (if limit \<le> in_flight w \<or> slot_times_out E (step w) then Q (Inl SlotTimeout) (turned_away w)
      else Q (Inr ()) (took_slot w))"
  by (simp add: wlp_def acquire_slot_def)

lemma wlp_release_slot [wp]:
  "wlp release_slot E w Q \<longleftrightarrow> Q (Inr ()) (gave_slot w)"
  by (simp add: wlp_def release_slot_def)

lemma wlp_query_one [wp]:
  "wlp (query_one st) E w Q \<longleftrightarrow>
     wlp (exec st) E w (\<lambda>r w'. (\<forall>e. r = Inl e \<longrightarrow> Q (Inl e) w') \<and> (\<forall>rs. r = Inr rs \<longrightarrow> Q (one_row rs) w'))"
  by (simp add: query_one_def wlp_tryM wlp_lift)

section \<open>Reading a run backwards\<close>

lemma tryM_Inr:
  assumes "tryM m f E w = (Inr v, w')"
  obtains a w1 where "m E w = (Inr a, w1)" and "f a E w1 = (Inr v, w')"
  using assms by (auto simp: prog_defs split: prod.splits sum.splits)

lemma bindM_run:
  assumes "bindM m f E w = (r, w')"
  obtains a w1 where "m E w = (a, w1)" and "f a E w1 = (r, w')"
  using assms by (auto simp: prog_defs split: prod.splits)

lemma exec_Inr:
  assumes "exec st E w = (Inr r, w')"
  obtains d where "st (db_clock E (step w)) (new_uuid E (step w)) (db w) = Inr (r, d)"
    and "w' = (tick w)\<lparr>db := d\<rparr>"
  using assms by (auto simp: exec_def split: if_splits sum.splits)

lemma query_one_Inr:
  assumes "query_one st E w = (Inr r, w')"
  obtains d where "st (db_clock E (step w)) (new_uuid E (step w)) (db w) = Inr ([r], d)"
    and "w' = (tick w)\<lparr>db := d\<rparr>"
  using assms unfolding query_one_def
  by (elim tryM_Inr exec_Inr) (auto simp: lift_def one_row_Inr)

section \<open>Two-state guarantees\<close>

text \<open>
  A program keeps a relation when every run of it, whatever its outcome, relates the world
  before to the world after. For a relation that is reflexive and transitive the rules below
  follow the program's structure down to its effects.
\<close>

definition keeps :: "(env \<Rightarrow> world \<Rightarrow> world \<Rightarrow> bool) \<Rightarrow> env \<Rightarrow> 'a prog \<Rightarrow> bool" where
  "keeps R E m \<longleftrightarrow> (\<forall>w. R E w (snd (m E w)))"

lemma keepsD: "keeps R E m \<Longrightarrow> m E w = (r, w') \<Longrightarrow> R E w w'"
  by (metis keeps_def snd_conv)

lemma keepsI: "(\<And>w r w'. m E w = (r, w') \<Longrightarrow> R E w w') \<Longrightarrow> keeps R E m"
  by (metis keeps_def prod.collapse)

locale guarantee =
  fixes R :: "env \<Rightarrow> world \<Rightarrow> world \<Rightarrow> bool"
  assumes refl: "R E w w"
    and trans: "R E w w' \<Longrightarrow> R E w' w'' \<Longrightarrow> R E w w''"
begin

lemma keeps_ret: "keeps R E (ret x)"
  by (simp add: keeps_def ret_def refl)

lemma keeps_fail: "keeps R E (fail e)"
  by (simp add: keeps_def fail_def refl)

lemma keeps_lift: "keeps R E (lift r)"
  by (simp add: keeps_def lift_def refl)

lemma keeps_bindM:
  assumes "keeps R E m" and "\<And>r. keeps R E (f r)"
  shows "keeps R E (bindM m f)"
proof (rule keepsI)
  fix w r w'
  assume "bindM m f E w = (r, w')"
  then obtain a w1 where "m E w = (a, w1)" and "f a E w1 = (r, w')"
    by (rule bindM_run)
  with assms show "R E w w'" by (blast intro: trans dest: keepsD)
qed

lemma keeps_tryM:
  assumes "keeps R E m" and "\<And>a. keeps R E (f a)"
  shows "keeps R E (tryM m f)"
  unfolding tryM_def using assms
  by (intro keeps_bindM) (auto intro: keeps_fail split: sum.split)

lemma keeps_ignoring:
  "keeps R E m \<Longrightarrow> (\<And>e. keeps R E (log_printf (prefix @ error_text e))) \<Longrightarrow> keeps R E n \<Longrightarrow>
     keeps R E (ignoring prefix m n)"
  unfolding ignoring_def by (intro keeps_bindM) (auto intro: keeps_bindM split: sum.split)

lemma keeps_with_env: "keeps R E (f E) \<Longrightarrow> keeps R E (with_env f)"
  by (simp add: keeps_def with_env_def)

lemma keeps_query_one: "keeps R E (exec st) \<Longrightarrow> keeps R E (query_one st)"
  unfolding query_one_def by (rule keeps_tryM) (auto intro: keeps_lift)

lemma keeps_if: "(b \<Longrightarrow> keeps R E m) \<Longrightarrow> (\<not> b \<Longrightarrow> keeps R E n) \<Longrightarrow> keeps R E (if b then m else n)"
  by simp

lemma keeps_case_sum:
  "(\<And>e. keeps R E (f e)) \<Longrightarrow> (\<And>a. keeps R E (g a)) \<Longrightarrow> keeps R E (case r of Inl e \<Rightarrow> f e | Inr a \<Rightarrow> g a)"
  by (simp split: sum.split)

lemma keeps_case_option:
  "keeps R E m \<Longrightarrow> (\<And>a. keeps R E (g a)) \<Longrightarrow> keeps R E (case r of None \<Rightarrow> m | Some a \<Rightarrow> g a)"
  by (simp split: option.split)

lemma keeps_case_prod: "(\<And>a b. keeps R E (f a b)) \<Longrightarrow> keeps R E (case p of (a, b) \<Rightarrow> f a b)"
  by (simp split: prod.split)

lemma keeps_Let: "(\<And>a. keeps R E (f a)) \<Longrightarrow> keeps R E (Let x f)"
  by (simp add: Let_def)

lemmas keeps_rules =
  keeps_ret keeps_fail keeps_lift keeps_bindM keeps_tryM keeps_ignoring keeps_with_env
  keeps_query_one keeps_if keeps_case_sum keeps_case_option keeps_case_prod keeps_Let

end

section \<open>The slots are given back\<close>

text \<open>A relation on two worlds that no effect but an acquire or a release can break.\<close>

definition same_slots :: "env \<Rightarrow> world \<Rightarrow> world \<Rightarrow> bool" where
  "same_slots E w w' \<longleftrightarrow> in_flight w' = in_flight w"

interpretation slots: guarantee same_slots
  by unfold_locales (simp_all add: same_slots_def)

lemma slots_effects [guar]:
  "keeps same_slots E (exec st)" "keeps same_slots E (emit hook e)"
  "keeps same_slots E (send_mail to msg)" "keeps same_slots E (rand_read n)"
  "keeps same_slots E (add_cookie c)" "keeps same_slots E count_hash" "keeps same_slots E (log_printf l)"
  by (auto simp: keeps_def same_slots_def log_printf_def exec_def emit_def send_mail_def rand_read_def
      add_cookie_def count_hash_def split: sum.split)

text \<open>Nothing sent or recorded is taken back, and interactions are counted up.\<close>

definition log_grows :: "env \<Rightarrow> world \<Rightarrow> world \<Rightarrow> bool" where
  "log_grows E w w' \<longleftrightarrow> step w \<le> step w' \<and> hash_runs w \<le> hash_runs w'
     \<and> (\<exists>o'. outbox w' = outbox w @ o') \<and> (\<exists>t'. trail w' = trail w @ t')
     \<and> (\<exists>l'. log_lines w' = log_lines w @ l') \<and> (\<exists>j'. jar w' = jar w @ j')"

interpretation logs: guarantee log_grows
  by unfold_locales (force simp: log_grows_def)+

lemma logs_effects [guar]:
  "keeps log_grows E (exec st)" "keeps log_grows E (emit hook e)"
  "keeps log_grows E (send_mail to msg)" "keeps log_grows E (rand_read n)"
  "keeps log_grows E (add_cookie c)" "keeps log_grows E count_hash"
  "keeps log_grows E (acquire_slot limit)" "keeps log_grows E release_slot" "keeps log_grows E (log_printf l)"
  by (auto simp: keeps_def log_grows_def log_printf_def exec_def emit_def send_mail_def rand_read_def
      add_cookie_def count_hash_def acquire_slot_def release_slot_def split: sum.split)

text \<open>Nothing but a cookie goes into the jar.\<close>

definition same_jar :: "env \<Rightarrow> world \<Rightarrow> world \<Rightarrow> bool" where
  "same_jar E w w' \<longleftrightarrow> jar w' = jar w"

interpretation jars: guarantee same_jar
  by unfold_locales (simp_all add: same_jar_def)

lemma jars_effects [guar]:
  "keeps same_jar E (exec st)" "keeps same_jar E (emit hook e)"
  "keeps same_jar E (send_mail to msg)" "keeps same_jar E (rand_read n)"
  "keeps same_jar E (acquire_slot limit)" "keeps same_jar E release_slot"
  "keeps same_jar E count_hash" "keeps same_jar E (log_printf l)"
  by (auto simp: keeps_def same_jar_def log_printf_def exec_def emit_def send_mail_def rand_read_def
      acquire_slot_def release_slot_def count_hash_def split: sum.split)

text \<open>No effect but a statement touches the tables.\<close>

definition same_db :: "env \<Rightarrow> world \<Rightarrow> world \<Rightarrow> bool" where
  "same_db E w w' \<longleftrightarrow> db w' = db w"

interpretation tables: guarantee same_db
  by unfold_locales (simp_all add: same_db_def)

lemma tables_effects [guar]:
  "keeps same_db E (emit hook e)" "keeps same_db E (send_mail to msg)" "keeps same_db E (rand_read n)"
  "keeps same_db E (add_cookie c)" "keeps same_db E count_hash" "keeps same_db E (acquire_slot limit)"
  "keeps same_db E release_slot" "keeps same_db E (log_printf l)"
  by (auto simp: keeps_def same_db_def log_printf_def emit_def send_mail_def rand_read_def add_cookie_def
      count_hash_def acquire_slot_def release_slot_def)

lemma outbox_step_mono:
  assumes "keeps log_grows E m" and "m E w = (r, w')"
  shows "step w \<le> step w'"
  using keepsD [OF assms] by (simp add: log_grows_def)

end
