(* ===== verification/Session_Sql.thy ===== *)
theory Session_Sql
  imports World
begin

text \<open>
  The statements of \<open>session/sql.go\<close>, each as the function on the tables its text denotes.
  Durations are counted in microseconds, the resolution of the timestamps.
\<close>

definition seconds :: "int \<Rightarrow> int" where
  "seconds n = n * 1000000"

text \<open>The liveness predicate that lookup, rotate, recordMFA and list repeat.\<close>

definition live_session :: "int \<Rightarrow> session_row \<Rightarrow> bool" where
  "live_session now s \<longleftrightarrow> s_revoked s = None \<and> now < s_idle_exp s \<and> now < s_exp s"

definition issue_sql ::
  "byte list \<Rightarrow> string \<Rightarrow> int \<Rightarrow> int \<Rightarrow> string option \<Rightarrow> string option \<Rightarrow> string list stmt" where
  "issue_sql hash user idle absolute ua ip = (\<lambda>now uid d.
     if list_ex (\<lambda>s. s_token s = hash \<or> s_id s = uid) (sessions d) then Inl unique_violation
     else if \<not> has_user d user then Inl foreign_key_violation
     else Inr ([uid], d\<lparr>sessions := sessions d @
            [\<lparr>s_id = uid, s_token = hash, s_user = user, s_created = now, s_last_seen = now,
              s_idle_exp = now + idle, s_exp = now + absolute, s_mfa = None, s_ua = ua, s_ip = ip,
              s_revoked = None\<rparr>]\<rparr>))"

text \<open>
  The lookup: the live session with the token, joined to its live user and the user's roles.
  The touched part of the statement refreshes the idle window of that session when it was
  last seen more than 60 seconds ago, whether or not the join finds a user.
\<close>

type_synonym lookup_row =
  "string \<times> string \<times> int \<times> int option \<times> string \<times> bool \<times> string list"

definition roles_of :: "database \<Rightarrow> string \<Rightarrow> string list" where
  "roles_of d user = map snd (filter (\<lambda>p. fst p = user) (user_roles d))"

definition lookup_rows :: "byte list \<Rightarrow> int \<Rightarrow> database \<Rightarrow> lookup_row list" where
  "lookup_rows hash now d =
     concat (map (\<lambda>s. map (\<lambda>u. (s_id s, s_user s, s_created s, s_mfa s, u_email u, u_verified u,
                                  roles_of d (s_user s)))
                        (filter (\<lambda>u. u_id u = s_user s \<and> live_user u) (users d)))
       (filter (\<lambda>s. s_token s = hash \<and> live_session now s) (sessions d)))"

definition touch :: "int \<Rightarrow> int \<Rightarrow> session_row \<Rightarrow> session_row" where
  "touch now idle s = s\<lparr>s_last_seen := now, s_idle_exp := now + idle\<rparr>"

definition lookup_sql :: "byte list \<Rightarrow> int \<Rightarrow> lookup_row list stmt" where
  "lookup_sql hash idle = (\<lambda>now uid d.
     Inr (lookup_rows hash now d,
          d\<lparr>sessions := update_where
               (\<lambda>s. s_token s = hash \<and> live_session now s \<and> s_last_seen s < now - seconds 60)
               (touch now idle) (sessions d)\<rparr>))"

definition rotate_sql :: "byte list \<Rightarrow> int \<Rightarrow> string \<Rightarrow> string list stmt" where
  "rotate_sql hash idle sid = (\<lambda>now uid d.
     let hit = filter (\<lambda>s. s_id s = sid \<and> live_session now s) (sessions d) in
     if hit \<noteq> [] \<and> list_ex (\<lambda>s. s_token s = hash \<and> s_id s \<noteq> sid) (sessions d)
     then Inl unique_violation
     else Inr (map s_user hit,
               d\<lparr>sessions := update_where (\<lambda>s. s_id s = sid \<and> live_session now s)
                    (\<lambda>s. touch now idle (s\<lparr>s_token := hash\<rparr>)) (sessions d)\<rparr>))"

definition record_mfa_sql :: "string \<Rightarrow> string \<Rightarrow> string list stmt" where
  "record_mfa_sql sid user = (\<lambda>now uid d.
     Inr (map s_id (filter (\<lambda>s. s_id s = sid \<and> s_user s = user \<and> live_session now s) (sessions d)),
          d\<lparr>sessions := update_where (\<lambda>s. s_id s = sid \<and> s_user s = user \<and> live_session now s)
               (s_mfa_update (\<lambda>_. Some now)) (sessions d)\<rparr>))"

definition revoke_sql :: "string \<Rightarrow> nat stmt" where
  "revoke_sql sid = (\<lambda>now uid d.
     Inr (length (filter (\<lambda>s. s_id s = sid \<and> s_revoked s = None) (sessions d)),
          d\<lparr>sessions := update_where (\<lambda>s. s_id s = sid \<and> s_revoked s = None)
               (s_revoked_update (\<lambda>_. Some now)) (sessions d)\<rparr>))"

definition revoke_all_sql :: "string \<Rightarrow> nat stmt" where
  "revoke_all_sql user = (\<lambda>now uid d.
     Inr (length (filter (\<lambda>s. s_user s = user \<and> s_revoked s = None) (sessions d)),
          d\<lparr>sessions := update_where (\<lambda>s. s_user s = user \<and> s_revoked s = None)
               (s_revoked_update (\<lambda>_. Some now)) (sessions d)\<rparr>))"

text \<open>The order of rows with equal last_seen_at is not determined; the model keeps table order.\<close>

definition list_sql :: "string \<Rightarrow> session_row list stmt" where
  "list_sql user = (\<lambda>now uid d.
     Inr (sort_key (\<lambda>s. - s_last_seen s)
            (filter (\<lambda>s. s_user s = user \<and> live_session now s) (sessions d)), d))"

lemmas session_sql_defs [sql] =
  issue_sql_def lookup_sql_def rotate_sql_def record_mfa_sql_def revoke_sql_def revoke_all_sql_def
  list_sql_def

section \<open>What each statement writes\<close>

lemma touch_simps [simp]:
  "s_id (touch now idle s) = s_id s" "s_token (touch now idle s) = s_token s"
  "s_user (touch now idle s) = s_user s" "s_created (touch now idle s) = s_created s"
  "s_exp (touch now idle s) = s_exp s" "s_mfa (touch now idle s) = s_mfa s"
  "s_revoked (touch now idle s) = s_revoked s" "s_last_seen (touch now idle s) = now"
  "s_idle_exp (touch now idle s) = now + idle"
  by (simp_all add: touch_def)

text \<open>
  A session row after any of these statements still is the session it was: the same id,
  owner, creation time and absolute deadline, revoked if it was revoked, and dead at a later
  time if it was dead at the time of the statement.
\<close>

definition same_session :: "session_row \<Rightarrow> session_row \<Rightarrow> bool" where
  "same_session s s' \<longleftrightarrow> s_id s' = s_id s \<and> s_user s' = s_user s \<and> s_created s' = s_created s
     \<and> s_exp s' = s_exp s \<and> (s_revoked s \<noteq> None \<longrightarrow> s_revoked s' = s_revoked s)"

text \<open>The idle window only moves for a session that was live at the time it moves.\<close>

definition no_resurrection :: "int \<Rightarrow> session_row \<Rightarrow> session_row \<Rightarrow> bool" where
  "no_resurrection now s s' \<longleftrightarrow> (\<not> live_session now s \<longrightarrow> s_idle_exp s' = s_idle_exp s \<and> s_token s' = s_token s)"

lemma same_session_refl [simp]: "same_session s s"
  by (simp add: same_session_def)

lemma same_session_trans: "same_session a b \<Longrightarrow> same_session b c \<Longrightarrow> same_session a c"
  by (auto simp: same_session_def)

lemma no_resurrection_refl [simp]: "no_resurrection now s s"
  by (simp add: no_resurrection_def)

section \<open>Lookup rows\<close>

lemma lookup_rows_iff:
  "row \<in> set (lookup_rows hash now d) \<longleftrightarrow>
     (\<exists>s \<in> set (sessions d). \<exists>u \<in> set (users d).
        s_token s = hash \<and> live_session now s \<and> u_id u = s_user s \<and> live_user u
        \<and> row = (s_id s, s_user s, s_created s, s_mfa s, u_email u, u_verified u, roles_of d (s_user s)))"
  by (auto simp: lookup_rows_def)

text \<open>The unique token hash and the user's primary key leave at most one row.\<close>

lemma lookup_rows_single:
  assumes "wf_users U d" and "wf_sessions d"
    and "s \<in> set (sessions d)" and "s_token s = hash" and "live_session now s"
    and "u \<in> set (users d)" and "u_id u = s_user s" and "live_user u"
  shows "lookup_rows hash now d =
    [(s_id s, s_user s, s_created s, s_mfa s, u_email u, u_verified u, roles_of d (s_user s))]"
proof -
  have "filter (\<lambda>s. s_token s = hash \<and> live_session now s) (sessions d) = [s]"
    by (rule filter_key_unique [where k = s_token]) (use assms in \<open>auto simp: wf_sessions_def\<close>)
  moreover have "filter (\<lambda>u. u_id u = s_user s \<and> live_user u) (users d) = [u]"
    by (rule filter_key_unique [where k = u_id]) (use assms in \<open>auto simp: wf_users_def\<close>)
  ultimately show ?thesis by (simp add: lookup_rows_def)
qed

lemma lookup_rows_empty:
  "lookup_rows hash now d = [] \<longleftrightarrow>
     (\<forall>s \<in> set (sessions d). s_token s = hash \<longrightarrow> live_session now s \<longrightarrow>
        (\<forall>u \<in> set (users d). u_id u = s_user s \<longrightarrow> \<not> live_user u))"
  using lookup_rows_iff [of _ hash now d] by (metis list.set_intros(1) neq_Nil_conv length_pos_if_in_set list.size(3) not_less_zero)

end
