(* ===== verification/Authn_Sql.thy ===== *)
theory Authn_Sql
  imports World
begin

text \<open>
  The statements of \<open>authn/sql.go\<close>. An address parameter is compared with \<open>lower(email)\<close>,
  so the statements that take one also take the Unicode tables.
\<close>

definition live_email :: "unicode_tables \<Rightarrow> string \<Rightarrow> user_row \<Rightarrow> bool" where
  "live_email U email u \<longleftrightarrow> pg_lower U (u_email u) = email \<and> live_user u"

definition coalesce_text :: "string option \<Rightarrow> string" where
  "coalesce_text v = (case v of None \<Rightarrow> [] | Some s \<Rightarrow> s)"

section \<open>Accounts\<close>

definition login_select_sql :: "unicode_tables \<Rightarrow> string \<Rightarrow> (string \<times> string \<times> bool) list stmt" where
  "login_select_sql U email = (\<lambda>now uid d.
     Inr (map (\<lambda>u. (u_id u, coalesce_text (u_hash u), u_verified u)) (filter (live_email U email) (users d)), d))"

definition hash_by_id_sql :: "string \<Rightarrow> (string \<times> string) list stmt" where
  "hash_by_id_sql i = (\<lambda>now uid d.
     Inr (map (\<lambda>u. (coalesce_text (u_hash u), u_email u))
            (filter (\<lambda>u. u_id u = i \<and> live_user u) (users d)), d))"

definition update_password_sql :: "string \<Rightarrow> string \<Rightarrow> string \<Rightarrow> nat stmt" where
  "update_password_sql new_hash i old_hash = (\<lambda>now uid d.
     Inr (length (filter (\<lambda>u. u_id u = i \<and> u_hash u = Some old_hash) (users d)),
          d\<lparr>users := update_where (\<lambda>u. u_id u = i \<and> u_hash u = Some old_hash)
               (\<lambda>u. u\<lparr>u_hash := Some new_hash, u_updated := now\<rparr>) (users d)\<rparr>))"

text \<open>
  The conflict target of both inserts is the partial unique index over live rows, which is looked
  up before anything is inserted. A clash of the generated id is an ordinary unique violation.
\<close>

definition insert_account :: "unicode_tables \<Rightarrow> string \<Rightarrow> string option \<Rightarrow> string list stmt" where
  "insert_account U email hash = (\<lambda>now uid d.
     if list_ex (\<lambda>u. live_user u \<and> email_key U u = pg_lower U email) (users d)
     then Inr ([], d)
     else if list_ex (\<lambda>u. u_id u = uid) (users d) then Inl unique_violation
     else Inr ([uid], d\<lparr>users := users d @
            [\<lparr>u_id = uid, u_email = email, u_hash = hash, u_verified = False, u_created = now,
              u_updated = now, u_deleted = None\<rparr>]\<rparr>))"

definition insert_user_sql :: "unicode_tables \<Rightarrow> string \<Rightarrow> string \<Rightarrow> string list stmt" where
  "insert_user_sql U email hash = insert_account U email (Some hash)"

definition insert_invitee_sql :: "unicode_tables \<Rightarrow> string \<Rightarrow> string list stmt" where
  "insert_invitee_sql U email = insert_account U email None"

definition user_id_by_email_sql :: "unicode_tables \<Rightarrow> string \<Rightarrow> string list stmt" where
  "user_id_by_email_sql U email = (\<lambda>now uid d.
     Inr (map u_id (filter (live_email U email) (users d)), d))"

definition email_by_id_sql :: "string \<Rightarrow> string list stmt" where
  "email_by_id_sql i = (\<lambda>now uid d.
     Inr (map u_email (filter (\<lambda>u. u_id u = i \<and> live_user u) (users d)), d))"

definition set_password_sql :: "string \<Rightarrow> string \<Rightarrow> unit stmt" where
  "set_password_sql hash i = (\<lambda>now uid d.
     Inr ((), d\<lparr>users := update_where (\<lambda>u. u_id u = i)
                   (\<lambda>u. u\<lparr>u_hash := Some hash, u_updated := now\<rparr>) (users d)\<rparr>))"

definition mark_verified_sql :: "string \<Rightarrow> unit stmt" where
  "mark_verified_sql i = (\<lambda>now uid d.
     Inr ((), d\<lparr>users := update_where (\<lambda>u. u_id u = i)
                   (\<lambda>u. u\<lparr>u_verified := True, u_updated := now\<rparr>) (users d)\<rparr>))"

section \<open>Failure counters\<close>

definition attempt_hit :: "string \<Rightarrow> string \<Rightarrow> attempt_row \<Rightarrow> bool" where
  "attempt_hit email ip a \<longleftrightarrow>
     a_scope a = ''user'' \<and> a_key a = email \<or> a_scope a = ''ip'' \<and> a_key a = ip"

definition attempts_sql :: "string \<Rightarrow> string \<Rightarrow> (string \<times> int \<times> int) list stmt" where
  "attempts_sql email ip = (\<lambda>now uid d.
     Inr (map (\<lambda>a. (a_scope a, a_failures a, now - a_last a))
            (filter (attempt_hit email ip) (attempts d)), d))"

definition bump_attempt :: "int \<Rightarrow> string \<Rightarrow> string \<Rightarrow> attempt_row list \<Rightarrow> attempt_row list" where
  "bump_attempt now scope key t =
     (if list_ex (\<lambda>a. a_scope a = scope \<and> a_key a = key) t
      then update_where (\<lambda>a. a_scope a = scope \<and> a_key a = key)
             (\<lambda>a. a\<lparr>a_failures := a_failures a + 1, a_last := now\<rparr>) t
      else t @ [\<lparr>a_scope = scope, a_key = key, a_failures = 1, a_last = now\<rparr>])"

definition at_max :: "string \<Rightarrow> string \<Rightarrow> attempt_row list \<Rightarrow> bool" where
  "at_max scope key t \<longleftrightarrow>
     list_ex (\<lambda>a. a_scope a = scope \<and> a_key a = key \<and> int4_max \<le> a_failures a) t"

definition record_both_sql :: "string \<Rightarrow> string \<Rightarrow> unit stmt" where
  "record_both_sql email ip = (\<lambda>now uid d.
     if at_max ''user'' email (attempts d) \<or> at_max ''ip'' ip (attempts d) then Inl out_of_range
     else Inr ((), d\<lparr>attempts := bump_attempt now ''ip'' ip (bump_attempt now ''user'' email (attempts d))\<rparr>))"

definition record_user_sql :: "string \<Rightarrow> unit stmt" where
  "record_user_sql email = (\<lambda>now uid d.
     if at_max ''user'' email (attempts d) then Inl out_of_range
     else Inr ((), d\<lparr>attempts := bump_attempt now ''user'' email (attempts d)\<rparr>))"

definition reset_attempts_sql :: "string \<Rightarrow> string \<Rightarrow> unit stmt" where
  "reset_attempts_sql email ip = (\<lambda>now uid d.
     Inr ((), d\<lparr>attempts := filter (\<lambda>a. \<not> attempt_hit email ip a) (attempts d)\<rparr>))"

section \<open>Emailed tokens\<close>

definition insert_token_sql :: "byte list \<Rightarrow> string \<Rightarrow> string \<Rightarrow> int \<Rightarrow> unit stmt" where
  "insert_token_sql hash user purpose ttl = (\<lambda>now uid d.
     if \<not> has_user d user then Inl foreign_key_violation
     else Inr ((), d\<lparr>tokens :=
       (if list_ex (\<lambda>t. t_hash t = hash) (tokens d)
        then update_where (\<lambda>t. t_hash t = hash)
               (\<lambda>t. t\<lparr>t_user := user, t_purpose := purpose, t_expires := now + ttl, t_consumed := None\<rparr>)
               (tokens d)
        else tokens d @ [\<lparr>t_hash = hash, t_user = user, t_purpose = purpose, t_expires = now + ttl,
                           t_consumed = None, t_created = now\<rparr>])\<rparr>))"

definition redeemable :: "byte list \<Rightarrow> string \<Rightarrow> int \<Rightarrow> token_row \<Rightarrow> bool" where
  "redeemable hash purpose now t \<longleftrightarrow>
     t_hash t = hash \<and> t_purpose t = purpose \<and> t_consumed t = None \<and> now < t_expires t"

definition consume_token_sql :: "byte list \<Rightarrow> string \<Rightarrow> string list stmt" where
  "consume_token_sql hash purpose = (\<lambda>now uid d.
     Inr (map t_user (filter (redeemable hash purpose now) (tokens d)),
          d\<lparr>tokens := update_where (redeemable hash purpose now) (t_consumed_update (\<lambda>_. Some now))
               (tokens d)\<rparr>))"

lemmas authn_sql_defs [sql] =
  login_select_sql_def hash_by_id_sql_def update_password_sql_def insert_account_def
  insert_user_sql_def insert_invitee_sql_def user_id_by_email_sql_def email_by_id_sql_def
  set_password_sql_def mark_verified_sql_def attempts_sql_def record_both_sql_def
  record_user_sql_def reset_attempts_sql_def insert_token_sql_def consume_token_sql_def

section \<open>Selects by key find at most one row\<close>

lemma live_email_unique:
  assumes "wf_users U d" and "u \<in> set (users d)" and "live_email U email u"
  shows "filter (live_email U email) (users d) = [u]"
proof -
  have "filter (live_email U email) (users d) = filter (\<lambda>v. email_key U v = email) (filter live_user (users d))"
    by (auto simp: live_email_def email_key_def intro!: filter_cong)
  also have "\<dots> = [u]"
    by (rule filter_key_unique [where k = "email_key U"])
      (use assms in \<open>auto simp: wf_users_def live_email_def email_key_def\<close>)
  finally show ?thesis .
qed

lemma user_by_id_unique:
  assumes "wf_users U d" and "u \<in> set (users d)" and "p u"
  shows "filter (\<lambda>v. u_id v = u_id u \<and> p v) (users d) = [u]"
  by (rule filter_key_unique [where k = u_id]) (use assms in \<open>auto simp: wf_users_def\<close>)

lemma redeemable_unique:
  assumes "wf_tokens d" and "t \<in> set (tokens d)" and "redeemable hash purpose now t"
  shows "filter (redeemable hash purpose now) (tokens d) = [t]"
  by (rule filter_key_unique [where k = t_hash]) (use assms in \<open>auto simp: wf_tokens_def redeemable_def\<close>)

section \<open>Counters\<close>

text \<open>The failure count of one key, 0 when it has no row.\<close>

definition failure_count :: "database \<Rightarrow> string \<Rightarrow> string \<Rightarrow> int" where
  "failure_count d scope key =
     (case find (\<lambda>a. a_scope a = scope \<and> a_key a = key) (attempts d) of
        None \<Rightarrow> 0 | Some a \<Rightarrow> a_failures a)"

lemma find_bump_same:
  "find (\<lambda>a. a_scope a = scope \<and> a_key a = key) (bump_attempt now scope key t) =
     Some \<lparr>a_scope = scope, a_key = key,
           a_failures = 1 + (case find (\<lambda>a. a_scope a = scope \<and> a_key a = key) t of
                               None \<Rightarrow> 0 | Some a \<Rightarrow> a_failures a), a_last = now\<rparr>"
proof (cases "list_ex (\<lambda>a. a_scope a = scope \<and> a_key a = key) t")
  case True
  then have "find (\<lambda>a. a_scope a = scope \<and> a_key a = key)
       (update_where (\<lambda>a. a_scope a = scope \<and> a_key a = key)
             (\<lambda>a. a\<lparr>a_failures := a_failures a + 1, a_last := now\<rparr>) t) =
     Some \<lparr>a_scope = scope, a_key = key,
           a_failures = 1 + (case find (\<lambda>a. a_scope a = scope \<and> a_key a = key) t of
                               None \<Rightarrow> 0 | Some a \<Rightarrow> a_failures a), a_last = now\<rparr>"
    by (induction t) auto
  with True show ?thesis by (simp add: bump_attempt_def)
next
  case False
  then have "find (\<lambda>a. a_scope a = scope \<and> a_key a = key) t = None"
    by (auto simp: find_None_iff list_ex_iff)
  with False show ?thesis by (simp add: bump_attempt_def find_append)
qed

lemma find_bump_other:
  assumes "(scope', key') \<noteq> (scope, key)"
  shows "find (\<lambda>a. a_scope a = scope' \<and> a_key a = key') (bump_attempt now scope key t) =
     find (\<lambda>a. a_scope a = scope' \<and> a_key a = key') t"
proof (cases "list_ex (\<lambda>a. a_scope a = scope \<and> a_key a = key) t")
  case True
  with assms show ?thesis
    by (auto simp: bump_attempt_def intro!: find_update_where_other)
next
  case False
  with assms show ?thesis
    by (auto simp: bump_attempt_def find_append split: option.split)
qed

end
