(* ===== verification/Authz_Sql.thy ===== *)
theory Authz_Sql
  imports World
begin

text \<open>The statements of \<open>authz/sql.go\<close>: role definitions and memberships.\<close>

definition ensure_role_sql :: "string \<Rightarrow> string \<Rightarrow> unit stmt" where
  "ensure_role_sql name descr = (\<lambda>now uid d.
     Inr ((), d\<lparr>roles :=
       (if list_ex (\<lambda>r. fst r = name) (roles d)
        then update_where (\<lambda>r. fst r = name) (\<lambda>r. (fst r, descr)) (roles d)
        else roles d @ [(name, descr)])\<rparr>))"

text \<open>The two foreign keys of auth_user_roles; an existing membership conflicts and is kept.\<close>

definition grant_role_sql :: "string \<Rightarrow> string \<Rightarrow> unit stmt" where
  "grant_role_sql user role = (\<lambda>now uid d.
     if List.member (user_roles d) (user, role) then Inr ((), d)
     else if \<not> has_user d user \<or> \<not> list_ex (\<lambda>r. fst r = role) (roles d)
     then Inl foreign_key_violation
     else Inr ((), d\<lparr>user_roles := user_roles d @ [(user, role)]\<rparr>))"

definition revoke_role_sql :: "string \<Rightarrow> string \<Rightarrow> unit stmt" where
  "revoke_role_sql user role = (\<lambda>now uid d.
     Inr ((), d\<lparr>user_roles := filter (\<lambda>p. p \<noteq> (user, role)) (user_roles d)\<rparr>))"

definition roles_for_user_sql :: "string \<Rightarrow> string list stmt" where
  "roles_for_user_sql user = (\<lambda>now uid d.
     Inr (sort (map snd (filter (\<lambda>p. fst p = user) (user_roles d))), d))"

lemmas authz_sql_defs [sql] =
  ensure_role_sql_def grant_role_sql_def revoke_role_sql_def roles_for_user_sql_def

end
