(* ===== verification/E2ee_Sql.thy ===== *)
theory E2ee_Sql
  imports Authn_Sql Sha256
begin

text \<open>The statements of \<open>e2ee/sql.go\<close>: one vault row per user.\<close>

text \<open>\<open>wrappedForFingerprint\<close>, the digest both the write and the staleness read compute.\<close>

definition fingerprint :: "user_row \<Rightarrow> byte list" where
  "fingerprint u = sha256 (bytes_of (coalesce_text (u_hash u)))"

type_synonym kdf_row = "string \<times> byte list \<times> int \<times> int \<times> int"

definition kdf_of :: "vault_row \<Rightarrow> kdf_row" where
  "kdf_of v = (v_kdf v, v_salt v, v_memory v, v_iterations v, v_parallelism v)"

definition joined :: "database \<Rightarrow> (vault_row \<times> user_row) list" where
  "joined d = concat (map (\<lambda>v. map (\<lambda>u. (v, u)) (filter (\<lambda>u. u_id u = v_user v) (users d))) (vaults d))"

definition params_by_email_sql :: "unicode_tables \<Rightarrow> string \<Rightarrow> kdf_row list stmt" where
  "params_by_email_sql U email = (\<lambda>now uid d.
     Inr (map (\<lambda>(v, u). kdf_of v) (filter (\<lambda>(v, u). live_email U email u) (joined d)), d))"

type_synonym vault_answer =
  "byte list option \<times> byte list option \<times> int \<times> bool \<times> kdf_row"

definition vault_by_user_sql :: "string \<Rightarrow> vault_answer list stmt" where
  "vault_by_user_sql user = (\<lambda>now uid d.
     Inr (map (\<lambda>(v, u). (v_wrapped v, v_recovery v, v_version v,
                           v_wrapped_for v \<noteq> Some (fingerprint u), kdf_of v))
            (filter (\<lambda>(v, u). v_user v = user) (joined d)), d))"

text \<open>
  The insert-select proposes one row per live user with the id. On a conflict the existing
  row is updated if its version is the expected one; otherwise nothing is written and nothing
  returned. The salt is in the insert only.
\<close>

definition put_row ::
  "string \<Rightarrow> byte list \<Rightarrow> int \<Rightarrow> int \<Rightarrow> byte list \<Rightarrow> byte list option \<Rightarrow> user_row \<Rightarrow> int \<Rightarrow> vault_row" where
  "put_row kdf salt mem iter wrapped recovery u now =
     \<lparr>v_user = u_id u, v_kdf = kdf, v_salt = salt, v_memory = mem, v_iterations = iter,
      v_parallelism = 1, v_wrapped = Some wrapped, v_recovery = recovery,
      v_wrapped_for = Some (fingerprint u), v_version = 1, v_updated = now\<rparr>"

definition overwrite_vault :: "vault_row \<Rightarrow> vault_row \<Rightarrow> vault_row" where
  "overwrite_vault new old =
     old\<lparr>v_kdf := v_kdf new, v_memory := v_memory new, v_iterations := v_iterations new,
         v_wrapped := v_wrapped new, v_recovery := v_recovery new,
         v_wrapped_for := v_wrapped_for new, v_version := v_version old + 1,
         v_updated := v_updated new\<rparr>"

definition put_vault_sql ::
  "string \<Rightarrow> byte list \<Rightarrow> int \<Rightarrow> int \<Rightarrow> byte list \<Rightarrow> byte list option \<Rightarrow> string \<Rightarrow> int \<Rightarrow> int list stmt" where
  "put_vault_sql kdf salt mem iter wrapped recovery user expected = (\<lambda>now uid d.
     if \<not> int4 mem \<or> \<not> int4 iter then Inl out_of_range
     else case find (\<lambda>u. u_id u = user \<and> live_user u) (users d) of
       None \<Rightarrow> Inr ([], d)
     | Some u \<Rightarrow> (let new = put_row kdf salt mem iter wrapped recovery u now in
           case find (\<lambda>v. v_user v = user) (vaults d) of
             None \<Rightarrow> Inr ([1], d\<lparr>vaults := vaults d @ [new]\<rparr>)
           | Some v \<Rightarrow>
               if v_version v \<noteq> expected then Inr ([], d)
               else if int4_max \<le> v_version v then Inl out_of_range
               else Inr ([v_version v + 1],
                         d\<lparr>vaults := update_where (\<lambda>v. v_user v = user) (overwrite_vault new) (vaults d)\<rparr>)))"

definition delete_vault_sql :: "string \<Rightarrow> nat stmt" where
  "delete_vault_sql user = (\<lambda>now uid d.
     Inr (length (filter (\<lambda>v. v_user v = user) (vaults d)),
          d\<lparr>vaults := filter (\<lambda>v. v_user v \<noteq> user) (vaults d)\<rparr>))"

lemmas e2ee_sql_defs [sql] =
  params_by_email_sql_def vault_by_user_sql_def put_vault_sql_def delete_vault_sql_def

end
