(* ===== verification/Schedule.thy ===== *)
theory Schedule
  imports Session_Sql Authn_Sql Authz_Sql E2ee_Sql
begin

text \<open>
  Everything that can happen to the tables, as one transition system. An \<open>op\<close> is one
  statement of one of the four \<open>sql.go\<close> files with its parameters, or a write the
  application makes to the accounts on its own; a schedule is any sequence of them, from any
  number of requests and replicas, at database times that do not run backwards. What is
  proved of every schedule holds under every interleaving of the handlers, whose runs are
  shown to be schedules by the guarantee \<open>via\<close> at the end of this theory.
\<close>

section \<open>Statements as operations\<close>

datatype op =
    Read
  | Issue "byte list" string int int "string option" "string option"
  | Lookup "byte list" int
  | Rotate "byte list" int string
  | Record_mfa string string
  | Revoke string
  | Revoke_all string
  | Update_password string string string
  | Insert_account string "string option"
  | Set_password string string
  | Mark_verified string
  | Record_both string string
  | Record_user string
  | Reset_attempts string string
  | Insert_token "byte list" string string int
  | Consume "byte list" string
  | Ensure_role string string
  | Grant_role string string
  | Revoke_role string string
  | Put_vault string "byte list" int int "byte list" "byte list option" string int
  | Delete_vault string
  | Outside "user_row list"

text \<open>
  \<open>Outside\<close> is the consumer's own write to auth_users: disabling an account, changing an
  address. It is held to the constraints of the table like every other statement.
\<close>

definition outside_sql :: "unicode_tables \<Rightarrow> user_row list \<Rightarrow> unit stmt" where
  "outside_sql U us = (\<lambda>now uid d.
     if map u_id us = map u_id (users d) \<and> distinct (map (email_key U) (filter live_user us))
     then Inr ((), d\<lparr>users := us\<rparr>) else Inl unique_violation)"

definition tables_of :: "goerr + ('r \<times> database) \<Rightarrow> database option" where
  "tables_of r = (case r of Inl e \<Rightarrow> None | Inr (v, d) \<Rightarrow> Some d)"

fun apply_op :: "unicode_tables \<Rightarrow> op \<Rightarrow> int \<Rightarrow> string \<Rightarrow> database \<Rightarrow> database option" where
  "apply_op U Read now uid d = Some d"
| "apply_op U (Issue h u i a ua ip) now uid d = tables_of (issue_sql h u i a ua ip now uid d)"
| "apply_op U (Lookup h i) now uid d = tables_of (lookup_sql h i now uid d)"
| "apply_op U (Rotate h i s) now uid d = tables_of (rotate_sql h i s now uid d)"
| "apply_op U (Record_mfa s u) now uid d = tables_of (record_mfa_sql s u now uid d)"
| "apply_op U (Revoke s) now uid d = tables_of (revoke_sql s now uid d)"
| "apply_op U (Revoke_all u) now uid d = tables_of (revoke_all_sql u now uid d)"
| "apply_op U (Update_password n i p) now uid d = tables_of (update_password_sql n i p now uid d)"
| "apply_op U (Insert_account e h) now uid d = tables_of (insert_account U e h now uid d)"
| "apply_op U (Set_password h i) now uid d = tables_of (set_password_sql h i now uid d)"
| "apply_op U (Mark_verified i) now uid d = tables_of (mark_verified_sql i now uid d)"
| "apply_op U (Record_both e ip) now uid d = tables_of (record_both_sql e ip now uid d)"
| "apply_op U (Record_user e) now uid d = tables_of (record_user_sql e now uid d)"
| "apply_op U (Reset_attempts e ip) now uid d = tables_of (reset_attempts_sql e ip now uid d)"
| "apply_op U (Insert_token h u p ttl) now uid d = tables_of (insert_token_sql h u p ttl now uid d)"
| "apply_op U (Consume h p) now uid d = tables_of (consume_token_sql h p now uid d)"
| "apply_op U (Ensure_role n x) now uid d = tables_of (ensure_role_sql n x now uid d)"
| "apply_op U (Grant_role u r) now uid d = tables_of (grant_role_sql u r now uid d)"
| "apply_op U (Revoke_role u r) now uid d = tables_of (revoke_role_sql u r now uid d)"
| "apply_op U (Put_vault k s m i w r u n) now uid d = tables_of (put_vault_sql k s m i w r u n now uid d)"
| "apply_op U (Delete_vault u) now uid d = tables_of (delete_vault_sql u now uid d)"
| "apply_op U (Outside us) now uid d = tables_of (outside_sql U us now uid d)"

text \<open>The statements that write, outside the table of sessions and in it.\<close>

lemmas other_writes =
  update_password_sql_def insert_account_def set_password_sql_def mark_verified_sql_def
  record_both_sql_def record_user_sql_def reset_attempts_sql_def insert_token_sql_def
  consume_token_sql_def ensure_role_sql_def grant_role_sql_def revoke_role_sql_def
  put_vault_sql_def delete_vault_sql_def outside_sql_def Let_def

lemmas session_writes =
  issue_sql_def lookup_sql_def rotate_sql_def record_mfa_sql_def revoke_sql_def revoke_all_sql_def

lemma tables_of_simps [simp]:
  "tables_of (Inl e) = None" "tables_of (Inr (v, d)) = Some d"
  "tables_of (if b then x else y) = (if b then tables_of x else tables_of y)"
  by (simp_all add: tables_of_def)

inductive schedule ::
  "unicode_tables \<Rightarrow> int \<Rightarrow> database \<Rightarrow> op list \<Rightarrow> int \<Rightarrow> database \<Rightarrow> bool" for U where
  wait: "t \<le> t' \<Longrightarrow> schedule U t d [] t' d"
| act: "t \<le> t1 \<Longrightarrow> apply_op U x t1 uid d = Some d1 \<Longrightarrow> schedule U t1 d1 xs t' d'
          \<Longrightarrow> schedule U t d (x # xs) t' d'"

inductive_cases schedule_NilE: "schedule U t d [] t' d'"
inductive_cases schedule_ConsE: "schedule U t d (x # xs) t' d'"

lemma schedule_time: "schedule U t d xs t' d' \<Longrightarrow> t \<le> t'"
  by (induction rule: schedule.induct) auto

lemma schedule_later: "schedule U t d xs t' d' \<Longrightarrow> s \<le> t \<Longrightarrow> schedule U s d xs t' d'"
  by (erule schedule.cases) (auto intro: schedule.wait schedule.act [OF order_trans])

lemma schedule_append:
  "schedule U t d xs t1 d1 \<Longrightarrow> schedule U t1 d1 ys t' d' \<Longrightarrow> schedule U t d (xs @ ys) t' d'"
  by (induction rule: schedule.induct) (auto intro: schedule.act schedule_later)

text \<open>The invariant rule: what every admitted statement keeps, at its time, every schedule keeps.\<close>

lemma schedule_invariant:
  assumes "schedule U t d xs t' d'" and "I t d" and "list_all ok xs"
    and "\<And>t t' d. I t d \<Longrightarrow> t \<le> t' \<Longrightarrow> I t' d"
    and "\<And>x t uid d d'. ok x \<Longrightarrow> I t d \<Longrightarrow> apply_op U x t uid d = Some d' \<Longrightarrow> I t d'"
  shows "I t' d'"
  using assms(1-3)
proof (induction rule: schedule.induct)
  case (wait t t' d)
  then show ?case using assms(4) by blast
next
  case (act t t1 x uid d d1 xs t' d')
  then show ?case using assms(4,5) by (metis list.pred_inject(2))
qed

section \<open>The constraints are kept\<close>

lemma tables_of_Some: "tables_of r = Some d \<longleftrightarrow> (\<exists>v. r = Inr (v, d))"
  by (auto simp: tables_of_def split: sum.splits prod.splits)

lemma has_user_users: "users d' = users d \<Longrightarrow> has_user d' i = has_user d i"
  by (simp add: has_user_def)

lemma has_user_ids: "map u_id (users d') = map u_id (users d) \<Longrightarrow> has_user d' i = has_user d i"
  unfolding has_user_iff by (metis set_map)

lemma users_update_wf:
  assumes "wf_db U d" and "map u_id us = map u_id (users d)"
    and "distinct (map (email_key U) (filter live_user us))"
  shows "wf_db U (d\<lparr>users := us\<rparr>)"
proof -
  have "has_user (d\<lparr>users := us\<rparr>) i = has_user d i" for i
    by (rule has_user_ids) (simp add: assms(2))
  with assms show ?thesis by (simp add: wf_db_def wf_defs)
qed

lemma users_update_where_wf:
  assumes "wf_db U d"
    and "\<And>u. u_id (f u) = u_id u" and "\<And>u. u_email (f u) = u_email u" and "\<And>u. u_deleted (f u) = u_deleted u"
  shows "wf_db U (d\<lparr>users := update_where p f (users d)\<rparr>)"
proof (rule users_update_wf)
  show "map u_id (update_where p f (users d)) = map u_id (users d)"
    by (rule map_update_where) (simp add: assms)
  have "map (email_key U) (filter live_user (update_where p f (users d)))
      = map (email_key U) (filter live_user (users d))"
    by (subst filter_update_where; (subst map_update_where)?)
      (simp_all add: live_user_def email_key_def assms)
  then show "distinct (map (email_key U) (filter live_user (update_where p f (users d))))"
    using assms(1) by (simp add: wf_db_def wf_users_def)
qed (rule assms(1))

lemma insert_account_wf:
  assumes "wf_db U d" and "insert_account U email hash now uid d = Inr (v, d')"
  shows "wf_db U d'"
proof (cases "list_ex (\<lambda>u. live_user u \<and> email_key U u = pg_lower U email) (users d)")
  case True
  with assms show ?thesis by (auto simp: insert_account_def split: if_splits)
next
  case False
  with assms(2) have fresh: "uid \<notin> u_id ` set (users d)"
    and d': "d' = d\<lparr>users := users d @
            [\<lparr>u_id = uid, u_email = email, u_hash = hash, u_verified = False, u_created = now,
              u_updated = now, u_deleted = None\<rparr>]\<rparr>"
    by (auto simp: insert_account_def list_ex_iff split: if_splits)
  have up: "has_user d i \<Longrightarrow> has_user d' i" for i
    by (simp add: d' has_user_def)
  have "wf_users U d'"
    using assms(1) fresh False by (auto simp: d' wf_db_def wf_users_def live_user_def email_key_def list_ex_iff)
  with assms(1) up show ?thesis
    by (auto simp: wf_db_def wf_sessions_def wf_tokens_def wf_roles_def wf_attempts_def wf_vaults_def d')
qed


text \<open>The other statements write one table each and leave the accounts alone.\<close>

lemma sessions_update_wf:
  assumes "wf_db U d" and "\<And>s. s_id (f s) = s_id s" and "\<And>s. s_user (f s) = s_user s"
    and "distinct (map s_token (update_where p f (sessions d)))"
  shows "wf_db U (d\<lparr>sessions := update_where p f (sessions d)\<rparr>)"
proof -
  have "map s_id (update_where p f (sessions d)) = map s_id (sessions d)"
    and "map s_user (update_where p f (sessions d)) = map s_user (sessions d)"
    by (rule map_update_where; simp add: assms)+
  moreover from this(2) have "s_user ` set (update_where p f (sessions d)) = s_user ` set (sessions d)"
    by (metis set_map)
  then have "\<forall>s \<in> set (update_where p f (sessions d)). has_user d (s_user s)"
    using assms(1) by (metis (no_types, lifting) image_iff wf_db_def wf_sessions_def)
  ultimately show ?thesis
    using assms(1,4) by (simp add: wf_db_def wf_defs has_user_def)
qed

lemma sessions_update_same_token_wf:
  assumes "wf_db U d" and "\<And>s. s_id (f s) = s_id s" and "\<And>s. s_user (f s) = s_user s"
    and "\<And>s. s_token (f s) = s_token s"
  shows "wf_db U (d\<lparr>sessions := update_where p f (sessions d)\<rparr>)"
proof (rule sessions_update_wf)
  have "map s_token (update_where p f (sessions d)) = map s_token (sessions d)"
    by (rule map_update_where) (simp add: assms)
  then show "distinct (map s_token (update_where p f (sessions d)))"
    using assms(1) by (simp add: wf_db_def wf_sessions_def)
qed (simp_all add: assms)

text \<open>A key given to the row of one id stays a key when no other row has it.\<close>

lemma distinct_set_key:
  assumes "distinct (map k t)" and "distinct (map i t)"
    and "\<And>r. r \<in> set t \<Longrightarrow> p r \<Longrightarrow> i r = x \<and> k (f r) = y"
    and "\<And>r. r \<in> set t \<Longrightarrow> k r = y \<Longrightarrow> i r = x"
  shows "distinct (map k (update_where p f t))"
  using assms
proof (induction t)
  case (Cons r t)
  have IH: "distinct (map k (update_where p f t))"
    by (rule Cons.IH) (use Cons.prems in auto)
  have "k q \<noteq> (if p r then k (f r) else k r)" if q: "q \<in> set (update_where p f t)" for q
  proof -
    obtain r' where r': "r' \<in> set t" "q = (if p r' then f r' else r')"
      using q unfolding set_update_where by blast
    then have "k r' \<in> k ` set t" and "i r' \<in> i ` set t"
      by auto
    with Cons.prems(1,2) have "k r' \<noteq> k r" and "i r' \<noteq> i r"
      by auto
    with r' Cons.prems(3) [of r] Cons.prems(3) [of r'] Cons.prems(4) [of r] Cons.prems(4) [of r']
    show ?thesis by (cases "p r"; cases "p r'") auto
  qed
  with IH show ?case by (cases "p r") fastforce+
qed simp

lemma rotate_wf:
  assumes "wf_db U d" and "rotate_sql h idle sid now uid d = Inr (v, d')"
  shows "wf_db U d'"
proof -
  let ?p = "\<lambda>s. s_id s = sid \<and> live_session now s"
  let ?f = "\<lambda>s. touch now idle (s\<lparr>s_token := h\<rparr>)"
  show ?thesis
  proof (cases "filter ?p (sessions d) = []")
    case True
    then have "update_where ?p ?f (sessions d) = sessions d"
      by (intro update_where_none) (auto simp: filter_empty_conv)
    with assms True show ?thesis by (simp add: rotate_sql_def)
  next
    case False
    with assms(2) have fresh: "\<And>s. s \<in> set (sessions d) \<Longrightarrow> s_token s = h \<Longrightarrow> s_id s = sid"
      and d': "d' = d\<lparr>sessions := update_where ?p ?f (sessions d)\<rparr>"
      by (auto simp: rotate_sql_def list_ex_iff Let_def split: if_splits)
    show ?thesis unfolding d'
    proof (rule sessions_update_wf)
      show "distinct (map s_token (update_where ?p ?f (sessions d)))"
        by (rule distinct_set_key [where i = s_id and x = sid and y = h])
          (use assms(1) fresh in \<open>auto simp: wf_db_def wf_sessions_def\<close>)
    qed (simp_all add: assms(1))
  qed
qed

lemma tokens_wf:
  assumes "wf_db U d" and "insert_token_sql h u p ttl now uid d = Inr (v, d')"
  shows "wf_db U d'"
proof -
  have known: "has_user d u" and u: "\<And>i. has_user (d\<lparr>tokens := ts\<rparr>) i = has_user d i" for ts
    using assms(2) by (auto simp: insert_token_sql_def has_user_def split: if_splits)
  define g where "g t = t\<lparr>t_user := u, t_purpose := p, t_expires := now + ttl, t_consumed := None\<rparr>" for t :: token_row
  have "map t_hash (update_where (\<lambda>t. t_hash t = h) g (tokens d)) = map t_hash (tokens d)"
    by (rule map_update_where) (simp add: g_def)
  moreover have "\<forall>t \<in> set (update_where (\<lambda>t. t_hash t = h) g (tokens d)). has_user d (t_user t)"
    using assms(1) known by (auto simp: set_update_where wf_db_def wf_tokens_def g_def)
  moreover have "d' = d\<lparr>tokens := update_where (\<lambda>t. t_hash t = h) g (tokens d)\<rparr>"
    if "h \<in> t_hash ` set (tokens d)"
    using assms(2) that by (auto simp: insert_token_sql_def g_def [abs_def] list_ex_iff split: if_splits)
  moreover have "d' = d\<lparr>tokens := tokens d @ [\<lparr>t_hash = h, t_user = u, t_purpose = p, t_expires = now + ttl,
                           t_consumed = None, t_created = now\<rparr>]\<rparr>"
    if "h \<notin> t_hash ` set (tokens d)"
    using assms(2) that by (auto simp: insert_token_sql_def list_ex_iff split: if_splits)
  ultimately have "wf_tokens d'"
    using assms(1) known by (cases "h \<in> t_hash ` set (tokens d)") (auto simp: wf_db_def wf_tokens_def u)
  moreover have "\<exists>ts. d' = d\<lparr>tokens := ts\<rparr>"
    using assms(2) by (auto simp: insert_token_sql_def split: if_splits)
  ultimately show ?thesis
    using assms(1) by (auto simp: wf_db_def wf_defs has_user_def)
qed

lemma consume_wf:
  assumes "wf_db U d" and "consume_token_sql h p now uid d = Inr (v, d')"
  shows "wf_db U d'"
proof -
  let ?ts = "update_where (redeemable h p now) (t_consumed_update (\<lambda>_. Some now)) (tokens d)"
  have "map t_hash ?ts = map t_hash (tokens d)"
    by (rule map_update_where) simp
  moreover have "\<forall>t \<in> set ?ts. has_user d (t_user t)"
    using assms(1) by (auto simp: set_update_where wf_db_def wf_tokens_def)
  ultimately show ?thesis
    using assms by (auto simp: consume_token_sql_def wf_db_def wf_defs has_user_def)
qed


lemma bump_attempt_wf:
  assumes "wf_attempts d" and "\<not> at_max scope key (attempts d)"
  shows "wf_attempts (d\<lparr>attempts := bump_attempt now scope key (attempts d)\<rparr>)"
proof -
  let ?f = "\<lambda>a. a\<lparr>a_failures := a_failures a + 1, a_last := now\<rparr>"
  have "map (\<lambda>a. (a_scope a, a_key a)) (update_where (\<lambda>a. a_scope a = scope \<and> a_key a = key) ?f (attempts d))
      = map (\<lambda>a. (a_scope a, a_key a)) (attempts d)"
    by (rule map_update_where) simp
  moreover have "a_failures a < int4_max"
    if "a \<in> set (attempts d)" "a_scope a = scope" "a_key a = key" for a
    using assms(2) that by (auto simp: at_max_def list_ex_iff)
  ultimately show ?thesis
    using assms(1)
    by (fastforce simp: bump_attempt_def wf_attempts_def set_update_where list_ex_iff int4_max_def)
qed

lemma at_max_bump_other:
  "(scope', key') \<noteq> (scope, key) \<Longrightarrow>
     at_max scope' key' (bump_attempt now scope key t) = at_max scope' key' t"
  by (auto simp: at_max_def bump_attempt_def list_ex_iff set_update_where)

lemma record_both_wf:
  assumes "wf_attempts d" and "record_both_sql e ip now uid d = Inr (v, d')"
  shows "wf_attempts d'"
proof -
  let ?d1 = "d\<lparr>attempts := bump_attempt now ''user'' e (attempts d)\<rparr>"
  have free: "\<not> at_max ''user'' e (attempts d)" "\<not> at_max ''ip'' ip (attempts d)"
    and d': "d' = ?d1\<lparr>attempts := bump_attempt now ''ip'' ip (attempts ?d1)\<rparr>"
    using assms(2) by (auto simp: record_both_sql_def split: if_splits)
  have "wf_attempts ?d1"
    using assms(1) free(1) by (rule bump_attempt_wf)
  moreover have "\<not> at_max ''ip'' ip (attempts ?d1)"
    using free(2) by (simp add: at_max_bump_other)
  ultimately show ?thesis unfolding d' by (rule bump_attempt_wf)
qed

lemma put_vault_wf:
  assumes "wf_vaults d" and "put_vault_sql k s m i w r u n now uid d = Inr (v, d')"
  shows "wf_vaults d'"
proof -
  have keys: "map v_user (update_where p (overwrite_vault new) vs) = map v_user vs" for p new vs
    by (rule map_update_where) (simp add: overwrite_vault_def)
  have rows: "\<forall>v \<in> set (update_where p (overwrite_vault new) (vaults d)).
      has_user d (v_user v) \<and> v_parallelism v = 1 \<and> 1 \<le> v_version v" for p new
    using assms(1) by (fastforce simp: set_update_where overwrite_vault_def wf_vaults_def)
  show ?thesis
    using assms keys rows
    by (auto simp: put_vault_sql_def wf_vaults_def put_row_def Let_def has_user_iff
        split: if_splits option.splits dest!: find_SomeD find_NoneD) blast+
qed

lemma roles_wf:
  assumes "wf_roles d"
  shows "ensure_role_sql n x now uid d = Inr (v, d') \<Longrightarrow> wf_roles d'"
    and "grant_role_sql u r now uid d = Inr (v, d') \<Longrightarrow> wf_roles d'"
    and "revoke_role_sql u r now uid d = Inr (v, d') \<Longrightarrow> wf_roles d'"
proof -
  let ?rs = "update_where (\<lambda>r. fst r = n) (\<lambda>r. (fst r, x)) (roles d)"
  have "map fst ?rs = map fst (roles d)"
    by (rule map_update_where) simp
  then have names: "map fst ?rs = map fst (roles d)" and "fst ` set ?rs = fst ` set (roles d)"
    by (simp, metis set_map)
  with assms show "ensure_role_sql n x now uid d = Inr (v, d') \<Longrightarrow> wf_roles d'"
    by (auto simp: ensure_role_sql_def wf_roles_def has_user_def list_ex_iff split: if_splits)
  show "grant_role_sql u r now uid d = Inr (v, d') \<Longrightarrow> wf_roles d'"
    and "revoke_role_sql u r now uid d = Inr (v, d') \<Longrightarrow> wf_roles d'"
    using assms by (force simp: grant_role_sql_def revoke_role_sql_def wf_roles_def has_user_def
        list_ex_iff split: if_splits)+
qed

text \<open>One table written, the others and the accounts as they were.\<close>

lemma one_table_wf:
  assumes "wf_db U d"
  shows "wf_sessions (d\<lparr>sessions := ss\<rparr>) \<Longrightarrow> wf_db U (d\<lparr>sessions := ss\<rparr>)"
    and "wf_attempts (d\<lparr>attempts := ats\<rparr>) \<Longrightarrow> wf_db U (d\<lparr>attempts := ats\<rparr>)"
    and "wf_vaults (d\<lparr>vaults := vs\<rparr>) \<Longrightarrow> wf_db U (d\<lparr>vaults := vs\<rparr>)"
    and "wf_roles (d\<lparr>roles := rs\<rparr>) \<Longrightarrow> wf_db U (d\<lparr>roles := rs\<rparr>)"
    and "wf_roles (d\<lparr>user_roles := urs\<rparr>) \<Longrightarrow> wf_db U (d\<lparr>user_roles := urs\<rparr>)"
  using assms by (simp_all add: wf_db_def wf_defs has_user_def)

lemma apply_op_wf:
  assumes "wf_db U d" and "apply_op U x now uid d = Some d'"
  shows "wf_db U d'"
proof -
  have parts: "wf_users U d" "wf_sessions d" "wf_tokens d" "wf_roles d" "wf_attempts d" "wf_vaults d"
    using assms(1) by (simp_all add: wf_db_def)
  show ?thesis
  proof (cases x)
    case (Issue h u i a ua ip)
    with assms parts(2) show ?thesis
      by (auto simp: issue_sql_def wf_sessions_def has_user_def list_ex_iff split: if_splits
          intro!: one_table_wf(1))
  next
    case (Rotate h i s)
    with assms show ?thesis by (auto simp: tables_of_Some intro: rotate_wf)
  next
    case (Insert_account e h)
    with assms show ?thesis by (auto simp: tables_of_Some intro: insert_account_wf)
  next
    case (Record_both e ip)
    with assms parts(5) show ?thesis
      by (auto simp: tables_of_Some record_both_sql_def split: if_splits
          intro!: one_table_wf(2) intro: record_both_wf [unfolded record_both_sql_def])
  next
    case (Record_user e)
    with assms parts(5) show ?thesis
      by (auto simp: record_user_sql_def split: if_splits intro!: one_table_wf(2) bump_attempt_wf)
  next
    case (Reset_attempts e ip)
    with assms parts(5) show ?thesis
      by (auto simp: reset_attempts_sql_def wf_attempts_def distinct_map_filter intro!: one_table_wf(2))
  next
    case (Insert_token h u p ttl)
    with assms show ?thesis by (auto simp: tables_of_Some intro: tokens_wf)
  next
    case (Consume h p)
    with assms show ?thesis by (auto simp: tables_of_Some intro: consume_wf)
  next
    case (Ensure_role n y)
    with assms roles_wf(1) [OF parts(4), of n y now uid] show ?thesis
      by (auto simp: tables_of_Some ensure_role_sql_def intro!: one_table_wf(4))
  next
    case (Grant_role u r)
    with assms roles_wf(2) [OF parts(4), of u r now uid] show ?thesis
      by (auto simp: tables_of_Some grant_role_sql_def split: if_splits intro!: one_table_wf(5))
  next
    case (Revoke_role u r)
    with assms roles_wf(3) [OF parts(4), of u r now uid] show ?thesis
      by (auto simp: tables_of_Some revoke_role_sql_def intro!: one_table_wf(5))
  next
    case (Put_vault k s m i w r u n)
    with assms put_vault_wf [OF parts(6), of k s m i w r u n now uid] show ?thesis
      by (auto simp: tables_of_Some put_vault_sql_def Let_def split: if_splits option.splits
          intro!: one_table_wf(3))
  next
    case (Delete_vault u)
    with assms parts(6) show ?thesis
      by (auto simp: delete_vault_sql_def wf_vaults_def has_user_def distinct_map_filter
          intro!: one_table_wf(3))
  next
    case (Outside us)
    with assms show ?thesis
      by (auto simp: outside_sql_def split: if_splits intro: users_update_wf)
  qed (use assms in \<open>auto simp: lookup_sql_def record_mfa_sql_def revoke_sql_def revoke_all_sql_def
      update_password_sql_def set_password_sql_def mark_verified_sql_def
      intro!: sessions_update_same_token_wf users_update_where_wf\<close>)
qed

theorem schedule_wf: "schedule U t d xs t' d' \<Longrightarrow> wf_db U d \<Longrightarrow> wf_db U d'"
  by (erule schedule_invariant [where ok = "\<lambda>x. True" and I = "\<lambda>t. wf_db U"])
    (auto simp: list_all_iff intro: apply_op_wf)

section \<open>Runs of handlers are schedules\<close>

text \<open>
  \<open>via ok\<close>: whatever a program did to the tables, it did by statements \<open>ok\<close> admits, at
  the times the database clock showed. The clock of one run does not go backwards.
\<close>

definition via :: "(op \<Rightarrow> bool) \<Rightarrow> env \<Rightarrow> world \<Rightarrow> world \<Rightarrow> bool" where
  "via ok E w w' \<longleftrightarrow> step w \<le> step w' \<and>
     (mono (db_clock E) \<longrightarrow>
        (\<exists>xs. list_all ok xs \<and>
           schedule (unicode E) (db_clock E (step w)) (db w) xs (db_clock E (step w')) (db w')))"

lemma via_trans: "via ok E w w' \<Longrightarrow> via ok E w' w'' \<Longrightarrow> via ok E w w''"
  unfolding via_def by (auto intro: schedule_append) (metis list_all_append schedule_append)

lemma via_wait: "step w \<le> step w' \<Longrightarrow> db w' = db w \<Longrightarrow> via ok E w w'"
  unfolding via_def by (auto simp: monoD intro!: exI [of _ "[]"] schedule.wait)

interpretation via: guarantee "via ok" for ok
  by unfold_locales (auto intro: via_wait via_trans)

lemma via_exec:
  assumes "\<And>now uid d r d'. st now uid d = Inr (r, d') \<Longrightarrow> apply_op (unicode E) x now uid d = Some d'"
    and "ok x"
  shows "keeps (via ok) E (exec st)"
proof (rule keepsI)
  fix w r w'
  assume run: "exec st E w = (r, w')"
  show "via ok E w w'"
    using run
  proof (cases rule: exec_db)
    case kept
    then show ?thesis
      using exec_frame [OF run] by (intro via_wait) simp_all
  next
    case (applied v)
    have "schedule (unicode E) (db_clock E (step w)) (db w) [x] (db_clock E (step w')) (db w')"
      if "mono (db_clock E)"
      by (rule schedule.act [OF order_refl assms(1) [OF applied]])
        (use that exec_frame [OF run] in \<open>auto simp: monoD intro: schedule.wait\<close>)
    then show ?thesis
      using assms(2) exec_frame [OF run] unfolding via_def by (intro conjI impI exI [of _ "[x]"]) auto
  qed
qed

lemma via_effects [guar]:
  "keeps (via ok) E (log_printf l)" "keeps (via ok) E (emit hook e)" "keeps (via ok) E (send_mail to msg)"
  "keeps (via ok) E (rand_read n)" "keeps (via ok) E (add_cookie c)"
  "keeps (via ok) E count_hash" "keeps (via ok) E (acquire_slot limit)"
  "keeps (via ok) E release_slot"
  by (auto simp: keeps_def log_printf_def emit_def send_mail_def rand_read_def add_cookie_def count_hash_def
      acquire_slot_def release_slot_def intro!: via_wait)

text \<open>A select changes nothing.\<close>

lemma via_select:
  assumes "\<And>now uid d r d'. st now uid d = Inr (r, d') \<Longrightarrow> d' = d"
  shows "keeps (via ok) E (exec st)"
proof (rule keepsI)
  fix w r w'
  assume run: "exec st E w = (r, w')"
  then have "db w' = db w"
    by (cases rule: exec_db) (use assms in auto)
  then show "via ok E w w'"
    using exec_frame [OF run] by (intro via_wait) simp_all
qed

text \<open>One rule per statement: a program that runs it is a schedule that has its operation.\<close>

lemma via_selects [guar]:
  "keeps (via ok) E (exec (list_sql u))"
  "keeps (via ok) E (exec (login_select_sql U e))" "keeps (via ok) E (exec (hash_by_id_sql i))"
  "keeps (via ok) E (exec (user_id_by_email_sql U e))" "keeps (via ok) E (exec (email_by_id_sql i))"
  "keeps (via ok) E (exec (attempts_sql e ip))" "keeps (via ok) E (exec (roles_for_user_sql u))"
  "keeps (via ok) E (exec (params_by_email_sql U e))" "keeps (via ok) E (exec (vault_by_user_sql u))"
  by (rule via_select; simp add: list_sql_def login_select_sql_def hash_by_id_sql_def
      user_id_by_email_sql_def email_by_id_sql_def attempts_sql_def roles_for_user_sql_def
      params_by_email_sql_def vault_by_user_sql_def)+

lemma via_session [guar]:
  "ok (Issue h u i a ua ip) \<Longrightarrow> keeps (via ok) E (exec (issue_sql h u i a ua ip))"
  "ok (Lookup h i) \<Longrightarrow> keeps (via ok) E (exec (lookup_sql h i))"
  "ok (Rotate h i s) \<Longrightarrow> keeps (via ok) E (exec (rotate_sql h i s))"
  "ok (Record_mfa s u) \<Longrightarrow> keeps (via ok) E (exec (record_mfa_sql s u))"
  "ok (Revoke s) \<Longrightarrow> keeps (via ok) E (exec (revoke_sql s))"
  "ok (Revoke_all u) \<Longrightarrow> keeps (via ok) E (exec (revoke_all_sql u))"
  by (erule via_exec [rotated]; simp)+

lemma via_authn [guar]:
  "ok (Update_password n i p) \<Longrightarrow> keeps (via ok) E (exec (update_password_sql n i p))"
  "ok (Insert_account e (Some h)) \<Longrightarrow> keeps (via ok) E (exec (insert_user_sql (unicode E) e h))"
  "ok (Insert_account e None) \<Longrightarrow> keeps (via ok) E (exec (insert_invitee_sql (unicode E) e))"
  "ok (Set_password h i) \<Longrightarrow> keeps (via ok) E (exec (set_password_sql h i))"
  "ok (Mark_verified i) \<Longrightarrow> keeps (via ok) E (exec (mark_verified_sql i))"
  "ok (Record_both e ip) \<Longrightarrow> keeps (via ok) E (exec (record_both_sql e ip))"
  "ok (Record_user e) \<Longrightarrow> keeps (via ok) E (exec (record_user_sql e))"
  "ok (Reset_attempts e ip) \<Longrightarrow> keeps (via ok) E (exec (reset_attempts_sql e ip))"
  "ok (Insert_token t u p ttl) \<Longrightarrow> keeps (via ok) E (exec (insert_token_sql t u p ttl))"
  "ok (Consume t p) \<Longrightarrow> keeps (via ok) E (exec (consume_token_sql t p))"
  by (erule via_exec [rotated]; simp add: insert_user_sql_def insert_invitee_sql_def)+

lemma via_other [guar]:
  "ok (Ensure_role n x) \<Longrightarrow> keeps (via ok) E (exec (ensure_role_sql n x))"
  "ok (Grant_role u r) \<Longrightarrow> keeps (via ok) E (exec (grant_role_sql u r))"
  "ok (Revoke_role u r) \<Longrightarrow> keeps (via ok) E (exec (revoke_role_sql u r))"
  "ok (Put_vault k s m i w rc u ver) \<Longrightarrow> keeps (via ok) E (exec (put_vault_sql k s m i w rc u ver))"
  "ok (Delete_vault u) \<Longrightarrow> keeps (via ok) E (exec (delete_vault_sql u))"
  by (erule via_exec [rotated]; simp)+

text \<open>A guarantee of a schedule of any admitted statements becomes a guarantee of the program.\<close>

lemma via_run:
  assumes "keeps (via ok) E m" and "m E w = (r, w')" and "mono (db_clock E)"
  obtains xs where "list_all ok xs"
    and "schedule (unicode E) (db_clock E (step w)) (db w) xs (db_clock E (step w')) (db w')"
  using keepsD [OF assms(1,2)] assms(3) by (auto simp: via_def)

lemma via_wf:
  assumes "keeps (via ok) E m" and "m E w = (r, w')" and "mono (db_clock E)" and "wf_db (unicode E) (db w)"
  shows "wf_db (unicode E) (db w')"
  using keepsD [OF assms(1,2)] assms(3,4) schedule_wf by (auto simp: via_def)

end
