(* ===== verification/Principal.thy ===== *)
theory Principal
  imports Schedule
begin

text \<open>
  Who the caller is: \<open>authz/principal.go\<close>, the ownership predicate of \<open>authz/scope.go\<close>, the
  role table of \<open>authz/roles.go\<close>. A Go context is the record \<open>ctx\<close> of the values kal keeps
  in one: the principal, the request attribution, the bypass role, the cookie jar (whose
  cookies are in the world; here only whether there is one).
\<close>

section \<open>The request context\<close>

text \<open>A zero \<open>MFAAt\<close> is \<open>None\<close>.\<close>

record principal =
  p_user :: string
  p_session :: string
  p_roles :: "string list"
  p_auth_at :: int
  p_mfa_at :: "int option"
  p_email :: string
  p_verified :: bool

record meta =
  mt_user_agent :: string
  mt_ip :: string

definition no_meta :: meta where
  "no_meta = \<lparr>mt_user_agent = [], mt_ip = []\<rparr>"

record ctx =
  cx_principal :: "principal option"
  cx_meta :: "meta option"
  cx_bypass :: "string option"
  cx_jar :: bool

definition background :: ctx where
  "background = \<lparr>cx_principal = None, cx_meta = None, cx_bypass = None, cx_jar = False\<rparr>"

definition with_principal :: "ctx \<Rightarrow> principal option \<Rightarrow> ctx" where
  "with_principal c p = (case p of None \<Rightarrow> c | Some q \<Rightarrow> c\<lparr>cx_principal := Some q\<rparr>)"

definition from_ctx :: "ctx \<Rightarrow> principal option" where
  "from_ctx c = cx_principal c"

definition require :: "ctx \<Rightarrow> goerr + principal" where
  "require c = (case from_ctx c of
     None \<Rightarrow> Inl (KalErr CodeUnauthenticated ''authentication required'' None)
   | Some p \<Rightarrow> Inr p)"

definition with_meta :: "ctx \<Rightarrow> meta \<Rightarrow> ctx" where
  "with_meta c m = c\<lparr>cx_meta := Some m\<rparr>"

definition meta_from_context :: "ctx \<Rightarrow> meta" where
  "meta_from_context c = (case cx_meta c of None \<Rightarrow> no_meta | Some m \<Rightarrow> m)"

lemma from_with_principal [simp]:
  "from_ctx (with_principal c (Some p)) = Some p" "with_principal c None = c"
  by (simp_all add: from_ctx_def with_principal_def)

lemma require_Inr [simp]: "require c = Inr p \<longleftrightarrow> from_ctx c = Some p"
  by (auto simp: require_def split: option.splits)

lemma require_Inr_sym [simp]: "Inr p = require c \<longleftrightarrow> from_ctx c = Some p"
  by (metis require_Inr)

lemma require_Inl: "require c = Inl e \<longleftrightarrow>
    from_ctx c = None \<and> e = KalErr CodeUnauthenticated ''authentication required'' None"
  by (auto simp: require_def split: option.splits)

section \<open>Roles held\<close>

definition has_role :: "unicode_tables \<Rightarrow> string list \<Rightarrow> string \<Rightarrow> bool" where
  "has_role U held want = list_ex (\<lambda>r. equal_fold U r want) held"

definition HasRole :: "unicode_tables \<Rightarrow> ctx \<Rightarrow> string \<Rightarrow> bool" where
  "HasRole U c role = (case from_ctx c of None \<Rightarrow> False | Some p \<Rightarrow> has_role U (p_roles p) role)"

definition with_bypass_role :: "ctx \<Rightarrow> string \<Rightarrow> ctx" where
  "with_bypass_role c role = (if role = [] then c else c\<lparr>cx_bypass := Some role\<rparr>)"

definition bypass_from :: "ctx \<Rightarrow> string option" where
  "bypass_from c = cx_bypass c"

lemma has_role_ascii:
  assumes "list_all is_ascii held" and "is_ascii want"
  shows "has_role U held want \<longleftrightarrow> to_lower U want \<in> to_lower U ` set held"
  using assms by (auto simp: has_role_def list_all_iff list_ex_iff equal_fold_ascii image_iff) metis+

section \<open>The ownership predicate\<close>

text \<open>
  go-pg's query builder is outside the repository: \<open>query_api\<close> is the three of its methods
  kal calls, on a type of queries of its own. \<open>where_eq\<close> is \<open>Where("? = ?", pg.Ident(column),
  value)\<close>; \<open>where_group\<close> is \<open>WhereGroup\<close>.
\<close>

record 'q query_api =
  where_false :: "'q \<Rightarrow> 'q"
  where_eq :: "string \<Rightarrow> string \<Rightarrow> 'q \<Rightarrow> 'q"
  where_group :: "('q \<Rightarrow> 'q) \<Rightarrow> 'q \<Rightarrow> 'q"

definition scope :: "unicode_tables \<Rightarrow> 'q query_api \<Rightarrow> ctx \<Rightarrow> string \<Rightarrow> 'q \<Rightarrow> 'q" where
  "scope U Q c column =
     (case from_ctx c of
        None \<Rightarrow> where_false Q
      | Some p \<Rightarrow>
          if p_user p = [] then where_false Q
          else (case bypass_from c of
                  Some role \<Rightarrow> if has_role U (p_roles p) role then id else where_eq Q column (p_user p)
                | None \<Rightarrow> where_eq Q column (p_user p)))"

text \<open>\<open>scoped.go\<close>: the predicate, then the caller's options in parentheses.\<close>

definition scoped ::
  "unicode_tables \<Rightarrow> 'q query_api \<Rightarrow> ctx \<Rightarrow> string \<Rightarrow> ('q \<Rightarrow> 'q) list \<Rightarrow> 'q \<Rightarrow> 'q" where
  "scoped U Q c column opts q =
     (let q' = scope U Q c column q in
      if opts = [] then q' else where_group Q (fold (\<lambda>opt. opt) opts) q')"

text \<open>
  The documented behaviour kal relies on, for a reading \<open>sat\<close> of which rows a query selects:
  the first condition of a query is the whole of it, and a group narrows what it is added to.
\<close>

definition honours_where :: "'q query_api \<Rightarrow> 'q \<Rightarrow> ('q \<Rightarrow> 'row \<Rightarrow> bool) \<Rightarrow> (string \<Rightarrow> 'row \<Rightarrow> string) \<Rightarrow> bool" where
  "honours_where Q q0 sat col \<longleftrightarrow>
     (\<forall>r. \<not> sat (where_false Q q0) r)
   \<and> (\<forall>c v r. sat (where_eq Q c v q0) r \<longleftrightarrow> col c r = v)
   \<and> (\<forall>f q r. sat (where_group Q f q) r \<longrightarrow> sat q r)"

lemma scoped_within_scope:
  assumes "honours_where Q q0 sat col" and "sat (scoped U Q c column opts q) r"
  shows "sat (scope U Q c column q) r"
  using assms by (auto simp: scoped_def honours_where_def Let_def split: if_splits)

text \<open>Who the bypass role lets through: a caller with a user id who holds it.\<close>

definition bypasses :: "unicode_tables \<Rightarrow> ctx \<Rightarrow> bool" where
  "bypasses U c \<longleftrightarrow> (case (from_ctx c, bypass_from c) of
     (Some p, Some role) \<Rightarrow> p_user p \<noteq> [] \<and> has_role U (p_roles p) role | _ \<Rightarrow> False)"

lemma scope_owner:
  assumes "honours_where Q q0 sat col" and "sat (scope U Q c column q0) r" and "\<not> bypasses U c"
  shows "\<exists>p. from_ctx c = Some p \<and> p_user p \<noteq> [] \<and> col column r = p_user p"
proof -
  have "\<not> sat (where_false Q q0) r" and "sat (where_eq Q c v q0) r \<longleftrightarrow> col c r = v" for c v
    using assms(1) by (simp_all add: honours_where_def)
  with assms(2,3) show ?thesis
    by (auto simp: scope_def bypasses_def split: option.splits if_splits)
qed

section \<open>The role table\<close>

text \<open>
  \<open>NewRoles\<close> and its siblings accept a schema name of one shape and quote it with go-pg's
  ident writer, the parameter \<open>append_ident\<close>; the result is the prefix of the table names.
\<close>

definition schema_prefix :: "(string \<Rightarrow> string) \<Rightarrow> string \<Rightarrow> string option" where
  "schema_prefix append_ident schema =
     (if schema = [] then Some []
      else if ident_ok schema then Some (append_ident schema @ ''.'') else None)"

definition schema_error :: goerr where
  "schema_error = KalErr CodeInvalidInput ''table schema must match ^[a-z_][a-z0-9_]*$'' None"

definition new_roles :: "(string \<Rightarrow> string) \<Rightarrow> string \<Rightarrow> goerr + string" where
  "new_roles append_ident schema =
     (case schema_prefix append_ident schema of None \<Rightarrow> Inl schema_error | Some p \<Rightarrow> Inr p)"

definition ensure_role :: "string \<Rightarrow> string \<Rightarrow> unit prog" where
  "ensure_role name descr = exec (ensure_role_sql name descr)"

definition grant_role :: "string \<Rightarrow> string \<Rightarrow> unit prog" where
  "grant_role user role = exec (grant_role_sql user role)"

definition revoke_role :: "string \<Rightarrow> string \<Rightarrow> unit prog" where
  "revoke_role user role = exec (revoke_role_sql user role)"

definition roles_for_user :: "string \<Rightarrow> string list prog" where
  "roles_for_user user = exec (roles_for_user_sql user)"

section \<open>Properties\<close>

text \<open>The scoped query options cannot widen: whatever options the resolver adds, a query on
  which go-pg honours its documented conditions selects no row of another owner, for any
  caller that does not hold the bypass role; an anonymous caller, or one with no user id, gets
  no row at all.\<close>

theorem scoped_only_own_rows:
  assumes "honours_where Q q0 sat col" and "\<not> bypasses U c"
    and "sat (scoped U Q c column opts q0) r"
  shows "\<exists>p. from_ctx c = Some p \<and> p_user p \<noteq> [] \<and> col column r = p_user p"
  using scope_owner [OF assms(1) scoped_within_scope [OF assms(1,3)] assms(2)] .

text \<open>A query builder with the documented behaviour: a query is its condition on a row.\<close>

definition predicate_query :: "((string \<Rightarrow> string) \<Rightarrow> bool) query_api" where
  "predicate_query = \<lparr>where_false = (\<lambda>q r. False), where_eq = (\<lambda>c v q r. q r \<and> r c = v),
     where_group = (\<lambda>f q r. q r \<and> f (\<lambda>_. True) r)\<rparr>"

definition selects :: "((string \<Rightarrow> string) \<Rightarrow> bool) \<Rightarrow> (string \<Rightarrow> string) \<Rightarrow> bool" where
  "selects q r = q r"

definition cell_of :: "string \<Rightarrow> (string \<Rightarrow> string) \<Rightarrow> string" where
  "cell_of c r = r c"

definition every_row :: "(string \<Rightarrow> string) \<Rightarrow> bool" where
  "every_row r = True"

definition or_any :: "((string \<Rightarrow> string) \<Rightarrow> bool) \<Rightarrow> (string \<Rightarrow> string) \<Rightarrow> bool" where
  "or_any q r = (q r \<or> True)"

definition owned_row :: "string \<Rightarrow> string" where
  "owned_row c = ''u1''"

definition owner_ctx :: ctx where
  "owner_ctx = background\<lparr>cx_principal := Some \<lparr>p_user = ''u1'', p_session = [], p_roles = [],
     p_auth_at = 0, p_mfa_at = None, p_email = [], p_verified = True\<rparr>\<rparr>"

theorem scoped_only_own_rows_witness:
  "\<exists>p. from_ctx owner_ctx = Some p \<and> p_user p \<noteq> [] \<and> cell_of ''owner_id'' owned_row = p_user p"
proof -
  have api: "honours_where predicate_query every_row selects cell_of"
    by (simp add: honours_where_def predicate_query_def selects_def cell_of_def every_row_def)
  have caller: "\<not> bypasses undefined owner_ctx"
    by (simp add: bypasses_def owner_ctx_def background_def from_ctx_def bypass_from_def)
  have row: "selects (scoped undefined predicate_query owner_ctx ''owner_id'' [or_any] every_row) owned_row"
    by (simp add: scoped_def scope_def owner_ctx_def background_def from_ctx_def bypass_from_def
        predicate_query_def selects_def every_row_def or_any_def owned_row_def)
  show ?thesis
    by (rule scoped_only_own_rows [where Q = predicate_query and ?q0.0 = every_row and sat = selects
          and col = cell_of and U = undefined and c = owner_ctx and column = "''owner_id''"
          and opts = "[or_any]" and r = owned_row, OF api caller row])
qed

end
