(* ===== verification/Base64.thy ===== *)
theory Base64
  imports Go_Strings
begin

text \<open>
  Go's \<open>encoding/base64\<close> without padding, in the two alphabets kal uses (RawStdEncoding for
  the PHC strings of authn, RawURLEncoding for tokens and auth secrets), and the law every
  encoder of the development satisfies, stated once as a locale.
\<close>

section \<open>Codecs\<close>

text \<open>
  An encoder and a decoder for the values of a domain: decoding what was encoded gives the
  value back. So the encoder is injective on the domain, and what it writes identifies the
  value it was written for.
\<close>

locale codec =
  fixes dom_ok :: "'a \<Rightarrow> bool" and enc :: "'a \<Rightarrow> 'b" and dec :: "'b \<Rightarrow> 'a option"
  assumes dec_enc: "dom_ok x \<Longrightarrow> dec (enc x) = Some x"
begin

lemma enc_inject: "dom_ok x \<Longrightarrow> dom_ok y \<Longrightarrow> enc x = enc y \<longleftrightarrow> x = y"
  by (metis dec_enc option.inject)

lemma enc_inj_on: "inj_on enc {x. dom_ok x}"
  by (auto simp: inj_on_def enc_inject)

lemma dec_range: "dom_ok x \<Longrightarrow> dec (enc x) \<noteq> None"
  by (simp add: dec_enc)

end

section \<open>Digits\<close>

text \<open>The two alphabets differ in the characters of the last two digits.\<close>

record alphabet =
  c62 :: char
  c63 :: char

definition std_alphabet :: alphabet where
  "std_alphabet = \<lparr>c62 = CHR ''+'', c63 = CHR ''/''\<rparr>"

definition url_alphabet :: alphabet where
  "url_alphabet = \<lparr>c62 = CHR ''-'', c63 = CHR ''_''\<rparr>"

definition enc_digit :: "alphabet \<Rightarrow> nat \<Rightarrow> char" where
  "enc_digit A v =
     (if v < 26 then char_of (65 + v)
      else if v < 52 then char_of (97 + (v - 26))
      else if v < 62 then char_of (48 + (v - 52))
      else if v = 62 then c62 A else c63 A)"

definition dec_digit :: "alphabet \<Rightarrow> char \<Rightarrow> nat option" where
  "dec_digit A c =
     (let b = code c in
      if 65 \<le> b \<and> b \<le> 90 then Some (b - 65)
      else if 97 \<le> b \<and> b \<le> 122 then Some (b - 97 + 26)
      else if 48 \<le> b \<and> b \<le> 57 then Some (b - 48 + 52)
      else if c = c62 A then Some 62
      else if c = c63 A then Some 63
      else None)"

definition alphabet_ok :: "alphabet \<Rightarrow> bool" where
  "alphabet_ok A \<longleftrightarrow> c62 A \<noteq> c63 A \<and>
     (\<forall>c \<in> {c62 A, c63 A}. \<not> (65 \<le> code c \<and> code c \<le> 90) \<and> \<not> (97 \<le> code c \<and> code c \<le> 122)
        \<and> \<not> (48 \<le> code c \<and> code c \<le> 57) \<and> 32 < code c \<and> c \<noteq> CHR ''$'' \<and> c \<noteq> CHR '','')"

lemma alphabet_ok_std [simp]: "alphabet_ok std_alphabet"
  by (simp add: alphabet_ok_def std_alphabet_def)

lemma alphabet_ok_url [simp]: "alphabet_ok url_alphabet"
  by (simp add: alphabet_ok_def url_alphabet_def)

lemma code_enc_digit:
  "v < 26 \<Longrightarrow> code (enc_digit A v) = 65 + v"
  "26 \<le> v \<Longrightarrow> v < 52 \<Longrightarrow> code (enc_digit A v) = 97 + (v - 26)"
  "52 \<le> v \<Longrightarrow> v < 62 \<Longrightarrow> code (enc_digit A v) = 48 + (v - 52)"
  by (simp_all add: enc_digit_def)

lemma enc_digit_last: "enc_digit A 62 = c62 A" "enc_digit A 63 = c63 A"
  by (simp_all add: enc_digit_def)

lemma digit_ranges:
  assumes "v < (64 :: nat)"
  obtains (upper) "v < 26" | (lower) "26 \<le> v" "v < 52" | (num) "52 \<le> v" "v < 62"
    | (d62) "v = 62" | (d63) "v = 63"
  using assms by linarith

lemma num_digit:
  assumes "52 \<le> v" and "v < 62"
  shows "48 \<le> code (enc_digit A v)" and "code (enc_digit A v) \<le> 57"
    and "code (enc_digit A v) - 48 + 52 = v"
proof -
  have "code (enc_digit A v) = 48 + (v - 52)"
    using assms by (rule code_enc_digit(3))
  with assms show "48 \<le> code (enc_digit A v)" and "code (enc_digit A v) \<le> 57"
    and "code (enc_digit A v) - 48 + 52 = v"
    by linarith+
qed

lemma dec_enc_digit [simp]:
  assumes "alphabet_ok A" and "v < 64"
  shows "dec_digit A (enc_digit A v) = Some v"
  using assms(2)
proof (cases v rule: digit_ranges)
  case num
  from num_digit [OF num, of A] show ?thesis by (simp add: dec_digit_def Let_def)
qed (use assms(1) in \<open>auto simp: dec_digit_def code_enc_digit enc_digit_last alphabet_ok_def Let_def\<close>)

lemma dec_digit_less: "dec_digit A c = Some v \<Longrightarrow> v < 64"
  by (auto simp: dec_digit_def Let_def split: if_splits)

lemma enc_digit_char:
  assumes "alphabet_ok A" and "v < 64"
  shows "32 < code (enc_digit A v)" and "enc_digit A v \<noteq> CHR ''$''"
proof -
  have "32 < code (enc_digit A v) \<and> (code (enc_digit A v) \<noteq> 36 \<or> enc_digit A v \<noteq> CHR ''$'')"
    using assms(2)
  proof (cases v rule: digit_ranges)
    case num
    from num_digit [OF num, of A] show ?thesis by simp
  qed (use assms(1) in \<open>simp_all add: code_enc_digit enc_digit_last alphabet_ok_def\<close>)
  then show "32 < code (enc_digit A v)" and "enc_digit A v \<noteq> CHR ''$''"
    by auto
qed

section \<open>Encoding\<close>

definition byte_nat :: "nat \<Rightarrow> byte" where
  "byte_nat n = word_of_nat n"

fun enc_groups :: "byte list \<Rightarrow> nat list" where
  "enc_groups [] = []"
| "enc_groups [a] = [unat a div 4, (unat a mod 4) * 16]"
| "enc_groups [a, b] =
     [unat a div 4, (unat a mod 4) * 16 + unat b div 16, (unat b mod 16) * 4]"
| "enc_groups (a # b # c # r) =
     (unat a div 4) # ((unat a mod 4) * 16 + unat b div 16)
       # ((unat b mod 16) * 4 + unat c div 64) # (unat c mod 64) # enc_groups r"

definition b64_encode :: "alphabet \<Rightarrow> byte list \<Rightarrow> string" where
  "b64_encode A bs = map (enc_digit A) (enc_groups bs)"

section \<open>Decoding\<close>

text \<open>
  The decoder drops every carriage return and newline, wherever it stands, and fails on any
  other character outside the alphabet. A last group of one digit is an error. A last group
  of two or three digits leaves 4 or 2 bits over, which only the strict decoder requires to
  be 0.
\<close>

fun dec_groups :: "bool \<Rightarrow> nat list \<Rightarrow> byte list option" where
  "dec_groups strict [] = Some []"
| "dec_groups strict [v0] = None"
| "dec_groups strict [v0, v1] =
     (if strict \<and> v1 mod 16 \<noteq> 0 then None else Some [byte_nat (v0 * 4 + v1 div 16)])"
| "dec_groups strict [v0, v1, v2] =
     (if strict \<and> v2 mod 4 \<noteq> 0 then None
      else Some [byte_nat (v0 * 4 + v1 div 16), byte_nat ((v1 mod 16) * 16 + v2 div 4)])"
| "dec_groups strict (v0 # v1 # v2 # v3 # r) =
     map_option (\<lambda>bs. byte_nat (v0 * 4 + v1 div 16) # byte_nat ((v1 mod 16) * 16 + v2 div 4)
                        # byte_nat ((v2 mod 4) * 64 + v3) # bs)
       (dec_groups strict r)"

fun digits_of :: "alphabet \<Rightarrow> string \<Rightarrow> nat list option" where
  "digits_of A [] = Some []"
| "digits_of A (c # s) =
     (case dec_digit A c of None \<Rightarrow> None | Some v \<Rightarrow> map_option ((#) v) (digits_of A s))"

definition skipped :: "char \<Rightarrow> bool" where
  "skipped c \<longleftrightarrow> c = CHR 0x0D \<or> c = CHR 0x0A"

definition b64_decode :: "alphabet \<Rightarrow> bool \<Rightarrow> string \<Rightarrow> byte list option" where
  "b64_decode A strict s =
     Option.bind (digits_of A (filter (\<lambda>c. \<not> skipped c) s)) (dec_groups strict)"

section \<open>Round trip\<close>

lemma byte_nat_unat [simp]: "byte_nat (unat b) = b"
  by (simp add: byte_nat_def)

lemma unat_byte_less [simp]: "unat (b :: byte) < 256"
  using unsigned_less [of b] by simp

lemma unat_byte_nat: "n < 256 \<Longrightarrow> unat (byte_nat n) = n"
  by (simp add: byte_nat_def unat_of_nat)

lemma enc_groups_less: "v \<in> set (enc_groups bs) \<Longrightarrow> v < 64"
proof (induction bs rule: enc_groups.induct)
  case (2 a)
  then show ?case using unat_byte_less [of a] by (auto simp del: unat_byte_less)
next
  case (3 a b)
  then show ?case
    using unat_byte_less [of a] unat_byte_less [of b] by (auto simp del: unat_byte_less)
next
  case (4 a b c r)
  then show ?case
    using unat_byte_less [of a] unat_byte_less [of b] unat_byte_less [of c]
    by (auto simp del: unat_byte_less)
qed simp

lemma join_hi: "(a div 4) * 4 + ((a mod 4) * 16 + b div 16) div 16 = a" if "b < 256" for a b :: nat
  using that by (simp add: div_mult_mod_eq)

lemma join_mid:
  "(((a mod 4) * 16 + b div 16) mod 16) * 16 + ((b mod 16) * 4 + c div 64) div 4 = b"
  if "b < 256" "c < 256" for a b c :: nat
proof -
  have "b div 16 < 16" "c div 64 < 4" using that by auto
  then show ?thesis by (simp add: mod_add_eq [symmetric] div_mult_mod_eq)
qed

lemma join_lo: "(((b mod 16) * 4 + c div 64) mod 4) * 64 + c mod 64 = c" if "c < 256" for b c :: nat
proof -
  have "c div 64 < 4" using that by auto
  then show ?thesis by (simp add: mod_add_eq [symmetric] div_mult_mod_eq)
qed

lemma dec_enc_groups: "dec_groups strict (enc_groups bs) = Some bs"
proof (induction bs rule: enc_groups.induct)
  case (2 a)
  show ?case using join_hi [of 0 "unat a"] by simp
next
  case (3 a b)
  show ?case
    using join_hi [of "unat b" "unat a"] join_mid [of "unat b" 0 "unat a"] by simp
next
  case (4 a b c r)
  then show ?case
    using join_hi [of "unat b" "unat a"] join_mid [of "unat b" "unat c" "unat a"]
      join_lo [of "unat c" "unat b"]
    by simp
qed simp

lemma digits_of_enc:
  "alphabet_ok A \<Longrightarrow> (\<And>v. v \<in> set vs \<Longrightarrow> v < 64) \<Longrightarrow> digits_of A (map (enc_digit A) vs) = Some vs"
  by (induction vs) auto

lemma enc_not_skipped:
  assumes "alphabet_ok A" and "c \<in> set (b64_encode A bs)"
  shows "\<not> skipped c" and "c \<noteq> CHR ''$''"
proof -
  from assms(2) obtain v where "c = enc_digit A v" and "v < 64"
    using enc_groups_less by (auto simp: b64_encode_def)
  with enc_digit_char [OF assms(1)] have "32 < code c" and "c \<noteq> CHR ''$''"
    by auto
  then show "\<not> skipped c" and "c \<noteq> CHR ''$''"
    by (auto simp: skipped_def)
qed

lemma url64_ascii: "is_ascii (b64_encode url_alphabet bs)"
proof -
  have "code (enc_digit url_alphabet v) < 128" if "v < 64" for v
    using that
  proof (cases v rule: digit_ranges)
    case num
    from num_digit(2) [OF num, of url_alphabet] show ?thesis by simp
  qed (simp_all add: code_enc_digit enc_digit_last url_alphabet_def)
  then show ?thesis
    using enc_groups_less by (auto simp: b64_encode_def is_ascii_def list_all_iff ascii_char_def)
qed

lemma b64_roundtrip: "alphabet_ok A \<Longrightarrow> b64_decode A strict (b64_encode A bs) = Some bs"
proof -
  assume ok: "alphabet_ok A"
  then have "filter (\<lambda>c. \<not> skipped c) (b64_encode A bs) = b64_encode A bs"
    using enc_not_skipped(1) by (simp add: filter_id_conv)
  moreover have "digits_of A (b64_encode A bs) = Some (enc_groups bs)"
    unfolding b64_encode_def using ok enc_groups_less by (rule digits_of_enc)
  ultimately show ?thesis
    by (simp add: b64_decode_def dec_enc_groups)
qed

interpretation std64: codec "\<lambda>_. True" "b64_encode std_alphabet" "b64_decode std_alphabet False"
  by unfold_locales (simp add: b64_roundtrip)

interpretation url64: codec "\<lambda>_. True" "b64_encode url_alphabet" "b64_decode url_alphabet True"
  by unfold_locales (simp add: b64_roundtrip)

section \<open>Lengths\<close>

lemma length_enc_groups: "length (enc_groups bs) = (4 * length bs + 2) div 3"
  by (induction bs rule: enc_groups.induct) auto

lemma length_b64_encode: "length (b64_encode A bs) = (4 * length bs + 2) div 3"
  by (simp add: b64_encode_def length_enc_groups)

lemma length_dec_groups:
  "dec_groups strict vs = Some bs \<Longrightarrow> length bs = 3 * length vs div 4"
proof (induction strict vs arbitrary: bs rule: dec_groups.induct)
  case (5 strict v0 v1 v2 v3 r)
  then show ?case by auto
qed (auto split: if_splits)

lemma length_digits_of: "digits_of A s = Some vs \<Longrightarrow> length vs = length s"
  by (induction s arbitrary: vs) (auto split: option.splits)

text \<open>The strict decoder, on input without skipped characters, accepts only what the encoder writes.\<close>

lemma join_byte: "v0 < 64 \<Longrightarrow> v1 < 64 \<Longrightarrow> unat (byte_nat (v0 * 4 + v1 div 16)) = v0 * 4 + v1 div 16"
  "v1 < 64 \<Longrightarrow> v2 < 64 \<Longrightarrow>
     unat (byte_nat ((v1 mod 16) * 16 + v2 div 4)) = (v1 mod 16) * 16 + v2 div 4"
  "v2 < 64 \<Longrightarrow> v3 < 64 \<Longrightarrow> unat (byte_nat ((v2 mod 4) * 64 + v3)) = (v2 mod 4) * 64 + v3"
  by (rule unat_byte_nat; linarith)+

lemma enc_dec_groups:
  "dec_groups True vs = Some bs \<Longrightarrow> (\<And>v. v \<in> set vs \<Longrightarrow> v < 64) \<Longrightarrow> enc_groups bs = vs"
proof (induction True vs arbitrary: bs rule: dec_groups.induct)
  case (3 v0 v1)
  then have "v0 < 64" and "v1 < 64" and "v1 mod 16 = 0" and "bs = [byte_nat (v0 * 4 + v1 div 16)]"
    by (auto split: if_splits)
  then show ?case by (auto simp: join_byte mod_0_imp_dvd)
next
  case (4 v0 v1 v2)
  then have "v0 < 64" and "v1 < 64" and "v2 < 64" and "v2 mod 4 = 0"
    and "bs = [byte_nat (v0 * 4 + v1 div 16), byte_nat ((v1 mod 16) * 16 + v2 div 4)]"
    by (auto split: if_splits)
  then show ?case by (simp add: join_byte) presburger
next
  case (5 v0 v1 v2 v3 r)
  then obtain bs' where "dec_groups True r = Some bs'" and "enc_groups bs' = r"
    and "bs = byte_nat (v0 * 4 + v1 div 16) # byte_nat ((v1 mod 16) * 16 + v2 div 4)
                # byte_nat ((v2 mod 4) * 64 + v3) # bs'"
    by auto
  moreover have "v0 < 64" and "v1 < 64" and "v2 < 64" and "v3 < 64" using 5 by auto
  ultimately show ?case by (simp add: join_byte)
qed auto

lemma enc_dec_digit: "dec_digit A c = Some v \<Longrightarrow> enc_digit A v = c"
  by (auto simp: dec_digit_def enc_digit_def Let_def split: if_splits)

lemma digits_of_inverse:
  "digits_of A s = Some vs \<Longrightarrow> map (enc_digit A) vs = s \<and> (\<forall>v \<in> set vs. v < 64)"
  by (induction s arbitrary: vs) (auto split: option.splits dest: enc_dec_digit dec_digit_less)

lemma b64_strict_canonical:
  assumes "b64_decode A True s = Some bs" and "\<forall>c \<in> set s. \<not> skipped c"
  shows "s = b64_encode A bs"
proof -
  have "filter (\<lambda>c. \<not> skipped c) s = s"
    using assms(2) by (intro filter_True) blast
  with assms(1) obtain vs where vs: "digits_of A s = Some vs" "dec_groups True vs = Some bs"
    by (auto simp: b64_decode_def bind_eq_Some_conv)
  with digits_of_inverse [OF vs(1)] enc_dec_groups [OF vs(2)] show ?thesis
    by (simp add: b64_encode_def)
qed

end
