(* ===== verification/Samples.thy ===== *)
theory Samples
  imports World
begin

text \<open>
  A concrete environment, account and world, on which the properties of the other theories
  are instantiated. The sample Argon2 keeps its documented contract and nothing more.
\<close>

definition sample_tables :: unicode_tables where
  "sample_tables = \<lparr>uni_lower = (\<lambda>s. s), uni_fold = (=), uni_pg_lower = (\<lambda>s. s), uni_quote = (\<lambda>s. s)\<rparr>"

definition sample_argon2 :: "byte list \<Rightarrow> byte list \<Rightarrow> nat \<Rightarrow> nat \<Rightarrow> nat \<Rightarrow> nat \<Rightarrow> byte list option" where
  "sample_argon2 pw salt t m p n = (if t = 0 \<or> p = 0 then None else Some (take n (pw @ replicate n 0)))"

definition sample_env :: env where
  "sample_env = \<lparr>unicode = sample_tables, db_clock = (\<lambda>n. 1000 + int n), proc_clock = (\<lambda>n. 1000 + int n),
     db_fails = (\<lambda>_. False), db_applied = (\<lambda>_. False), new_uuid = (\<lambda>n. ''new'' @ replicate n CHR ''i''), rand_fails = (\<lambda>_. False),
     rand_byte = (\<lambda>n i. word_of_nat (n + i)), slot_times_out = (\<lambda>_. False), mail_fails = (\<lambda>_. False),
     mail_lines = (\<lambda>to msg. []),
     argon2 = sample_argon2, bcrypt = (\<lambda>h p. h = ''$2'' @ p)\<rparr>"

definition sample_user :: user_row where
  "sample_user = \<lparr>u_id = ''u1'', u_email = ''a@x.io'', u_hash = Some ''$2pass'', u_verified = True,
     u_created = 0, u_updated = 0, u_deleted = None\<rparr>"

definition sample_db :: database where
  "sample_db = empty_db\<lparr>users := [sample_user]\<rparr>"

definition world_of :: "database \<Rightarrow> world" where
  "world_of d = \<lparr>step = 0, db = d, outbox = [], trail = [], log_lines = [], jar = [], in_flight = 0, hash_runs = 0,
     slot_log = []\<rparr>"

lemma sample_env_simps [simp]:
  "unicode sample_env = sample_tables" "db_clock sample_env n = 1000 + int n"
  "proc_clock sample_env n = 1000 + int n" "db_fails sample_env n = False"
  "new_uuid sample_env n = ''new'' @ replicate n CHR ''i''" "rand_fails sample_env n = False"
  "rand_byte sample_env n i = word_of_nat (n + i)" "slot_times_out sample_env n = False"
  "mail_fails sample_env n = False" "argon2 sample_env = sample_argon2"
  "bcrypt sample_env h p = (h = ''$2'' @ p)" "mail_lines sample_env to msg = []"
  by (simp_all add: sample_env_def)

lemma sample_clock_mono: "mono (db_clock sample_env)"
  by (simp add: mono_def)

lemma world_of_simps [simp]:
  "step (world_of d) = 0" "db (world_of d) = d" "outbox (world_of d) = []" "trail (world_of d) = []"
  "log_lines (world_of d) = []" "jar (world_of d) = []" "in_flight (world_of d) = 0" "hash_runs (world_of d) = 0"
  "slot_log (world_of d) = []"
  by (simp_all add: world_of_def)

lemma sample_user_simps [simp]:
  "u_id sample_user = ''u1''" "u_email sample_user = ''a@x.io''" "u_hash sample_user = Some ''$2pass''"
  "u_verified sample_user" "u_deleted sample_user = None" "live_user sample_user"
  by (simp_all add: sample_user_def live_user_def)

lemma sample_db_simps [simp]:
  "users sample_db = [sample_user]" "sessions sample_db = []" "tokens sample_db = []"
  "roles sample_db = []" "user_roles sample_db = []" "attempts sample_db = []" "vaults sample_db = []"
  by (simp_all add: sample_db_def empty_db_def)

lemma sample_wf: "wf_db U sample_db"
  by (simp add: wf_db_def wf_defs)

lemma sample_address [simp]: "pg_lower U ''a@x.io'' = ''a@x.io''"
  by (simp add: pg_lower_def is_ascii_def ascii_char_def lower_char_def)

end
