(* ===== verification/Jwt.thy ===== *)
theory Jwt
  imports Principal Sha256 Base64 Samples
begin

text \<open>
  The bearer tokens of \<open>session/jwt.go\<close>: keys and their thumbprints, minting from a live
  principal, verification with its one flat error, the published key set. golang-jwt is
  outside the repository: its signing and parsing are the fields of \<open>jwt_library\<close>, and
  \<open>honours_jwt\<close> states what its documentation promises. Ed25519 private keys are their 64
  bytes, the public half last. Times are microseconds; a claim's number is whole seconds.
\<close>

section \<open>Keys\<close>

definition MaxTokenTTL :: int where "MaxTokenTTL = 5 * 60 * 1000000"
definition private_key_size :: nat where "private_key_size = 64"

definition public_of :: "byte list \<Rightarrow> byte list" where
  "public_of k = drop 32 k"

definition thumbprint :: "byte list \<Rightarrow> string" where
  "thumbprint pub = b64_encode url_alphabet (sha256 pub)"

record jwt =
  jw_issuer :: string
  jw_keys :: "byte list list"
  jw_kids :: "string list"

definition no_issuer :: goerr where
  "no_issuer = Text (''session: JWT issuer is required '' @ em_dash
     @ '' a verifier that does not check iss accepts tokens from any issuer it trusts'')"

definition new_jwt :: "string \<Rightarrow> byte list list \<Rightarrow> goerr + jwt" where
  "new_jwt issuer keys =
     (if issuer = [] then Inl no_issuer
      else if keys = [] then Inl (Text ''session: at least one Ed25519 key is required'')
      else case find (\<lambda>k. length k \<noteq> private_key_size) keys of
        Some k \<Rightarrow> Inl (Text (''session: Ed25519 private key must be '' @ itoa private_key_size
                    @ '' bytes, got '' @ itoa (length k)))
      | None \<Rightarrow> Inr \<lparr>jw_issuer = issuer, jw_keys = keys, jw_kids = map (\<lambda>k. thumbprint (public_of k)) keys\<rparr>)"

section \<open>Claims and the library\<close>

datatype claim = ClaimText string | ClaimTexts "string list" | ClaimNumber int | ClaimOther

type_synonym claims = "string \<rightharpoonup> claim"

text \<open>What the key function is given: the method the header names, header and claims, unverified.\<close>

record parsed_token =
  tk_alg :: string
  tk_header :: claims
  tk_claims :: claims

record parse_options =
  po_methods :: "string list"
  po_issuer :: string
  po_audience :: string
  po_require_exp :: bool

type_synonym keyfunc = "parsed_token \<Rightarrow> goerr + byte list list"

text \<open>
  \<open>jl_sign\<close> is SignedString on a header and claims, \<open>jl_parse\<close> ParseWithClaims at a time,
  \<open>jl_exp\<close> MapClaims.GetExpirationTime.
\<close>

record jwt_library =
  jl_sign :: "claims \<Rightarrow> claims \<Rightarrow> byte list \<Rightarrow> goerr + string"
  jl_parse :: "parse_options \<Rightarrow> keyfunc \<Rightarrow> int \<Rightarrow> string \<Rightarrow> goerr + claims"
  jl_exp :: "claims \<Rightarrow> goerr + int option"

definition at_clock :: "(int \<Rightarrow> 'a prog) \<Rightarrow> 'a prog" where
  "at_clock f = (\<lambda>E w. f (proc_clock E (step w)) E w)"

definition unix_seconds :: "int \<Rightarrow> int" where
  "unix_seconds t = t div 1000000"

section \<open>Minting\<close>

definition no_audience :: goerr where
  "no_audience = invalid_input (''an audience is required '' @ em_dash
     @ '' a token nobody checks the audience of authenticates against every service that trusts the issuer'')"

definition capped_ttl :: "int \<Rightarrow> int" where
  "capped_ttl ttl = (if ttl \<le> 0 \<or> MaxTokenTTL < ttl then MaxTokenTTL else ttl)"

definition mint_header :: "jwt \<Rightarrow> claims" where
  "mint_header J = [''typ'' \<mapsto> ClaimText ''JWT'', ''alg'' \<mapsto> ClaimText ''EdDSA'',
     ''kid'' \<mapsto> ClaimText (jw_kids J ! 0)]"

definition mint_claims :: "jwt \<Rightarrow> principal \<Rightarrow> string \<Rightarrow> int \<Rightarrow> int \<Rightarrow> claims" where
  "mint_claims J p audience now ttl = [''iss'' \<mapsto> ClaimText (jw_issuer J),
     ''sub'' \<mapsto> ClaimText (p_user p), ''aud'' \<mapsto> ClaimText audience,
     ''sid'' \<mapsto> ClaimText (p_session p), ''iat'' \<mapsto> ClaimNumber (unix_seconds now),
     ''exp'' \<mapsto> ClaimNumber (unix_seconds (now + ttl))]"

definition jwt_token :: "jwt_library \<Rightarrow> jwt \<Rightarrow> ctx \<Rightarrow> int \<Rightarrow> string \<Rightarrow> string prog" where
  "jwt_token L J c ttl audience = tryM (lift (require c)) (\<lambda>p.
     if audience = [] then fail no_audience
     else at_clock (\<lambda>now. lift (jl_sign L (mint_header J)
            (mint_claims J p audience now (capped_ttl ttl)) (jw_keys J ! 0))))"

section \<open>Verifying\<close>

definition invalid_token :: "goerr \<Rightarrow> goerr" where
  "invalid_token cause = KalErr CodeUnauthenticated ''invalid token'' (Some cause)"

definition expired_token :: "goerr \<Rightarrow> goerr" where
  "expired_token cause = KalErr CodeUnauthenticated ''token has expired'' (Some cause)"

text \<open>
  The keys that may verify a token: the one its kid names, else every one. The names of
  golang-jwt's methods are ASCII, so \<open>%q\<close> needs no Unicode table.
\<close>

definition jwt_keyfunc :: "jwt \<Rightarrow> keyfunc" where
  "jwt_keyfunc J tok =
     (if tk_alg tok \<noteq> ''EdDSA'' then Inl (Text (''session: unexpected signing method ''
             @ [CHR 0x22] @ concat (map quote_char (tk_alg tok)) @ [CHR 0x22]))
      else case (case tk_header tok ''kid'' of
                   Some (ClaimText kid) \<Rightarrow> find (\<lambda>(k, key). k = kid) (zip (jw_kids J) (jw_keys J))
                 | _ \<Rightarrow> None) of
        Some (k, key) \<Rightarrow> Inr [public_of key]
      | None \<Rightarrow> Inr (map public_of (jw_keys J)))"

definition verify_fault :: "goerr \<Rightarrow> goerr" where
  "verify_fault e =
     (if is_fault TokenSignatureInvalid e \<or> is_fault TokenMalformed e \<or> is_fault TokenUnverifiable e
      then invalid_token e
      else if is_fault TokenExpired e \<or> is_fault TokenNotValidYet e then expired_token e
      else invalid_token e)"

record verified_claims =
  vc_user :: string
  vc_session :: string
  vc_audience :: string
  vc_expires :: int

definition text_claim :: "claims \<Rightarrow> string \<Rightarrow> string" where
  "text_claim cl k = (case cl k of Some (ClaimText s) \<Rightarrow> s | _ \<Rightarrow> [])"

definition jwt_options :: "jwt \<Rightarrow> string \<Rightarrow> parse_options" where
  "jwt_options J audience = \<lparr>po_methods = [''EdDSA''], po_issuer = jw_issuer J,
     po_audience = audience, po_require_exp = True\<rparr>"

definition jwt_verify :: "jwt_library \<Rightarrow> jwt \<Rightarrow> string \<Rightarrow> string \<Rightarrow> verified_claims prog" where
  "jwt_verify L J token audience =
     (if audience = [] then fail (invalid_input ''an audience is required to verify against'')
      else at_clock (\<lambda>now.
        case jl_parse L (jwt_options J audience) (jwt_keyfunc J) now token of
          Inl e \<Rightarrow> fail (verify_fault e)
        | Inr cl \<Rightarrow>
            if text_claim cl ''sub'' = [] then fail (invalid_token (Text ''no sub claim''))
            else (case jl_exp L cl of
                Inr (Some t) \<Rightarrow> ret \<lparr>vc_user = text_claim cl ''sub'', vc_session = text_claim cl ''sid'',
                                  vc_audience = audience, vc_expires = t\<rparr>
              | _ \<Rightarrow> fail (invalid_token (Text ''no exp claim'')))))"

section \<open>The published key set\<close>

record jwk =
  jk_kty :: string
  jk_crv :: string
  jk_x :: string
  jk_use :: string
  jk_alg :: string
  jk_kid :: string

definition jwks_keys :: "jwt \<Rightarrow> jwk list" where
  "jwks_keys J = map (\<lambda>(kid, key). \<lparr>jk_kty = ''OKP'', jk_crv = ''Ed25519'',
     jk_x = b64_encode url_alphabet (public_of key), jk_use = ''sig'', jk_alg = ''EdDSA'', jk_kid = kid\<rparr>)
     (zip (jw_kids J) (jw_keys J))"

text \<open>No value of the document needs an escape: its strings are fixed words and base64url.\<close>

definition json_field :: "string \<Rightarrow> string \<Rightarrow> string" where
  "json_field k v = [CHR 0x22] @ k @ [CHR 0x22, CHR '':'', CHR 0x22] @ v @ [CHR 0x22]"

definition json_jwk :: "jwk \<Rightarrow> string" where
  "json_jwk k = ''{'' @ join '','' [json_field ''kty'' (jk_kty k), json_field ''crv'' (jk_crv k),
     json_field ''x'' (jk_x k), json_field ''use'' (jk_use k), json_field ''alg'' (jk_alg k),
     json_field ''kid'' (jk_kid k)] @ ''}''"

record http_reply =
  hr_headers :: "(string \<times> string) list"
  hr_body :: string

definition jwks :: "jwt \<Rightarrow> http_reply" where
  "jwks J = \<lparr>hr_headers = [(''Content-Type'', ''application/json''), (''Cache-Control'', ''public, max-age=300'')],
     hr_body = [CHR ''{'', CHR 0x22] @ ''keys'' @ [CHR 0x22] @ '':['' @ join '','' (map json_jwk (jwks_keys J)) @ '']}''\<rparr>"

section \<open>What golang-jwt promises\<close>

text \<open>
  The claims checks of golang-jwt's validator: the issuer if one is expected, the audience (a
  string or a list), an expiry in the future, required or not, and a not-before that has
  passed if there is one. A zero date is an absent one.
\<close>

definition claims_valid :: "parse_options \<Rightarrow> int \<Rightarrow> claims \<Rightarrow> bool" where
  "claims_valid opts now cl \<longleftrightarrow>
     (po_issuer opts = [] \<or> cl ''iss'' = Some (ClaimText (po_issuer opts)))
   \<and> (case cl ''aud'' of Some (ClaimText a) \<Rightarrow> a = po_audience opts
        | Some (ClaimTexts as) \<Rightarrow> po_audience opts \<in> set as | _ \<Rightarrow> False)
   \<and> (case cl ''exp'' of Some (ClaimNumber t) \<Rightarrow> if t = 0 then \<not> po_require_exp opts else now < t * 1000000
        | None \<Rightarrow> \<not> po_require_exp opts | _ \<Rightarrow> False)
   \<and> (case cl ''nbf'' of Some (ClaimNumber t) \<Rightarrow> t = 0 \<or> t * 1000000 \<le> now | None \<Rightarrow> True | _ \<Rightarrow> False)"

text \<open>
  What comes back from JSON as it went in: a whole number below 2 to the 53, which is read as a
  float64, and a text in UTF-8, since \<open>encoding/json\<close> writes a replacement character for
  every byte that is not.
\<close>

definition json_keeps :: "claim \<Rightarrow> bool" where
  "json_keeps c = (case c of ClaimText s \<Rightarrow> valid_utf8 s | ClaimTexts ss \<Rightarrow> list_all valid_utf8 ss
     | ClaimNumber t \<Rightarrow> abs t < 2 ^ 53 | ClaimOther \<Rightarrow> False)"

definition survives_json :: "claims \<Rightarrow> bool" where
  "survives_json cl \<longleftrightarrow> (\<forall>k c. cl k = Some c \<longrightarrow> valid_utf8 k \<and> json_keeps c)"

text \<open>
  \<open>reads s\<close> is what the compact token \<open>s\<close> says before anything is verified, \<open>verifies pub s\<close>
  that its signature checks under a public key. A token is accepted only when the method it
  names is allowed, the key function gave a key the signature checks under, and its claims are
  valid; an EdDSA token signed on a header and claims that survive JSON is accepted wherever
  the key function offers the public half of its key and the claims are valid. All of it is
  for a parser that expects an audience.
\<close>

definition parse_sound ::
  "jwt_library \<Rightarrow> (string \<Rightarrow> parsed_token option) \<Rightarrow> (byte list \<Rightarrow> string \<Rightarrow> bool) \<Rightarrow> bool" where
  "parse_sound L reads verifies \<longleftrightarrow> (\<forall>opts kf now s cl. po_audience opts \<noteq> [] \<longrightarrow>
     jl_parse L opts kf now s = Inr cl \<longrightarrow>
     (\<exists>tok pubs. reads s = Some tok \<and> tk_claims tok = cl \<and> tk_alg tok \<in> set (po_methods opts)
        \<and> kf tok = Inr pubs \<and> (\<exists>pub \<in> set pubs. verifies pub s)) \<and> claims_valid opts now cl)"

definition signed_accepted :: "jwt_library \<Rightarrow> bool" where
  "signed_accepted L \<longleftrightarrow> (\<forall>hdr cl key s opts kf now pubs. po_audience opts \<noteq> [] \<longrightarrow>
     jl_sign L hdr cl key = Inr s \<longrightarrow> survives_json hdr \<longrightarrow> survives_json cl \<longrightarrow>
     hdr ''alg'' = Some (ClaimText ''EdDSA'') \<longrightarrow> ''EdDSA'' \<in> set (po_methods opts) \<longrightarrow>
     kf \<lparr>tk_alg = ''EdDSA'', tk_header = hdr, tk_claims = cl\<rparr> = Inr pubs \<longrightarrow> public_of key \<in> set pubs \<longrightarrow>
     claims_valid opts now cl \<longrightarrow> jl_parse L opts kf now s = Inr cl)"

definition expiry_read :: "jwt_library \<Rightarrow> bool" where
  "expiry_read L \<longleftrightarrow> (\<forall>cl t. cl ''exp'' = Some (ClaimNumber t) \<longrightarrow> t \<noteq> 0 \<longrightarrow> jl_exp L cl = Inr (Some t))"

definition honours_jwt ::
  "jwt_library \<Rightarrow> (string \<Rightarrow> parsed_token option) \<Rightarrow> (byte list \<Rightarrow> string \<Rightarrow> bool) \<Rightarrow> bool" where
  "honours_jwt L reads verifies \<longleftrightarrow> parse_sound L reads verifies \<and> signed_accepted L \<and> expiry_read L"

section \<open>Lemmas\<close>

lemma new_jwt_Inr:
  "new_jwt issuer keys = Inr J \<longleftrightarrow> issuer \<noteq> [] \<and> keys \<noteq> [] \<and> (\<forall>k \<in> set keys. length k = 64)
     \<and> J = \<lparr>jw_issuer = issuer, jw_keys = keys, jw_kids = map (\<lambda>k. thumbprint (public_of k)) keys\<rparr>"
  by (auto simp: new_jwt_def private_key_size_def find_None_iff split: option.splits dest: find_SomeD)

lemma capped_ttl_bounds: "0 < capped_ttl ttl" "capped_ttl ttl \<le> MaxTokenTTL"
  by (auto simp: capped_ttl_def MaxTokenTTL_def)

lemma jwt_token_Inr:
  assumes "jwt_token L J c ttl audience E w = (Inr s, w')"
  obtains p where "from_ctx c = Some p" and "audience \<noteq> []"
    and "jl_sign L (mint_header J) (mint_claims J p audience (proc_clock E (step w)) (capped_ttl ttl))
           (jw_keys J ! 0) = Inr s"
  using assms by (auto simp: jwt_token_def at_clock_def elim!: tryM_Inr split: if_splits)

text \<open>Whatever kid a token names, its key is among those tried, unless two thumbprints collide.\<close>

lemma keyfunc_offers:
  assumes J: "new_jwt issuer keys = Inr J" and "key \<in> set keys" and "tk_alg tok = ''EdDSA''"
    and kid: "tk_header tok ''kid'' = Some (ClaimText (thumbprint (public_of key)))"
    and apart: "\<And>k. k \<in> set keys \<Longrightarrow> thumbprint (public_of k) = thumbprint (public_of key) \<Longrightarrow> public_of k = public_of key"
  shows "jwt_keyfunc J tok = Inr [public_of key]"
proof -
  let ?hit = "\<lambda>(k, key'). k = thumbprint (public_of key)"
  have z: "zip (jw_kids J) (jw_keys J) = map (\<lambda>k. (thumbprint (public_of k), k)) keys"
    using J by (auto simp: new_jwt_Inr zip_map1 zip_same_conv_map)
  have "find ?hit (map (\<lambda>k. (thumbprint (public_of k), k)) keys) \<noteq> None"
    using assms(2) by (auto simp: find_None_iff)
  then obtain q where q: "find ?hit (map (\<lambda>k. (thumbprint (public_of k), k)) keys) = Some q"
    by blast
  with find_SomeD [OF q] apart have "public_of (snd q) = public_of key"
    by auto
  with q assms(3) kid z show ?thesis
    by (cases q) (simp add: jwt_keyfunc_def)
qed

lemma keyfunc_only_own:
  assumes "jwt_keyfunc J tok = Inr pubs"
  shows "tk_alg tok = ''EdDSA''" and "set pubs \<subseteq> public_of ` set (jw_keys J)"
proof -
  show "tk_alg tok = ''EdDSA''"
    using assms by (auto simp: jwt_keyfunc_def split: if_splits)
  show "set pubs \<subseteq> public_of ` set (jw_keys J)"
    using assms
    by (auto simp: jwt_keyfunc_def split: if_splits option.splits claim.splits
        dest!: find_SomeD dest: set_zip_rightD)
qed

lemma unix_seconds_mono: "t \<le> t' \<Longrightarrow> unix_seconds t \<le> unix_seconds t'"
  by (simp add: unix_seconds_def zdiv_mono1)

lemma mint_claims_valid:
  assumes "at < unix_seconds (now + ttl) * 1000000" and "unix_seconds (now + ttl) \<noteq> 0"
  shows "claims_valid (jwt_options J audience) at (mint_claims J p audience now ttl)"
  using assms by (simp add: claims_valid_def mint_claims_def jwt_options_def)

lemma survives_json_upd:
  "survives_json (cl(k \<mapsto> c))" if "survives_json cl" and "valid_utf8 k" and "json_keeps c"
  using that by (simp add: survives_json_def)

lemma survives_json_Nil: "survives_json (\<lambda>k. None)"
  by (simp add: survives_json_def)

lemma utf8_names [simp]:
  "valid_utf8 ''typ''" "valid_utf8 ''alg''" "valid_utf8 ''kid''" "valid_utf8 ''JWT''" "valid_utf8 ''EdDSA''"
  "valid_utf8 ''iss''" "valid_utf8 ''sub''" "valid_utf8 ''aud''" "valid_utf8 ''sid''" "valid_utf8 ''iat''"
  "valid_utf8 ''exp''"
  by (rule ascii_valid_utf8, simp add: is_ascii_def ascii_char_def)+

lemma mint_claims_survive:
  assumes "0 \<le> now" and "now < 2 ^ 53 - 2 ^ 30" and "0 < ttl" and "ttl \<le> MaxTokenTTL"
    and "valid_utf8 (jw_issuer J)" and "valid_utf8 audience" and "valid_utf8 (p_user p)" and "valid_utf8 (p_session p)"
  shows "survives_json (mint_claims J p audience now ttl)"
proof -
  have "0 \<le> unix_seconds now" "0 \<le> unix_seconds (now + ttl)"
    using assms(1,3) by (simp_all add: unix_seconds_def)
  moreover have "unix_seconds now < 2 ^ 53" "unix_seconds (now + ttl) < 2 ^ 53"
    using assms(1-4) by (simp_all add: unix_seconds_def MaxTokenTTL_def)
  ultimately show ?thesis
    unfolding mint_claims_def using assms(5-8)
    by (intro survives_json_upd survives_json_Nil) (simp_all add: json_keeps_def)
qed

lemma mint_header_survives:
  assumes "new_jwt issuer keys = Inr J"
  shows "survives_json (mint_header J)"
proof -
  have "is_ascii (jw_kids J ! 0)"
    using assms by (auto simp: new_jwt_Inr nth_map thumbprint_def url64_ascii)
  then show ?thesis
    unfolding mint_header_def
    by (intro survives_json_upd survives_json_Nil) (simp_all add: json_keeps_def ascii_valid_utf8)
qed

lemma honours_accepts:
  assumes "honours_jwt L reads verifies" and "jl_sign L hdr cl key = Inr s" and "survives_json hdr"
    and "survives_json cl" and "audience \<noteq> []" and "hdr ''alg'' = Some (ClaimText ''EdDSA'')"
    and "jwt_keyfunc J \<lparr>tk_alg = ''EdDSA'', tk_header = hdr, tk_claims = cl\<rparr> = Inr [public_of key]"
    and "claims_valid (jwt_options J audience) now cl"
  shows "jl_parse L (jwt_options J audience) (jwt_keyfunc J) now s = Inr cl"
proof -
  have "''EdDSA'' \<in> set (po_methods (jwt_options J audience))" and "po_audience (jwt_options J audience) \<noteq> []"
    using assms(5) by (simp_all add: jwt_options_def)
  with assms show ?thesis
    unfolding honours_jwt_def signed_accepted_def by (metis list.set_intros(1))
qed

section \<open>A library with the documented behaviour\<close>

text \<open>
  It signs one token, that of one caller for one audience at one time, and accepts it where
  the documentation says so.
\<close>

definition sample_key :: "byte list" where "sample_key = replicate 64 1"

definition sample_jwt :: jwt where
  "sample_jwt = \<lparr>jw_issuer = ''iss'', jw_keys = [sample_key], jw_kids = [thumbprint (public_of sample_key)]\<rparr>"

definition sample_caller :: principal where
  "sample_caller = \<lparr>p_user = ''u1'', p_session = ''s1'', p_roles = [], p_auth_at = 0, p_mfa_at = None,
     p_email = [], p_verified = True\<rparr>"

definition sample_claims :: claims where
  "sample_claims = mint_claims sample_jwt sample_caller ''svc'' 2000000 MaxTokenTTL"

definition sample_token :: parsed_token where
  "sample_token = \<lparr>tk_alg = ''EdDSA'', tk_header = mint_header sample_jwt, tk_claims = sample_claims\<rparr>"

definition sample_verifies :: "byte list \<Rightarrow> string \<Rightarrow> bool" where
  "sample_verifies pub s \<longleftrightarrow> pub = public_of sample_key \<and> s = ''t''"

definition sample_reads :: "string \<Rightarrow> parsed_token option" where
  "sample_reads s = (if s = ''t'' then Some sample_token else None)"

definition offers_key :: "keyfunc \<Rightarrow> bool" where
  "offers_key kf = (case kf sample_token of Inl e \<Rightarrow> False | Inr pubs \<Rightarrow> public_of sample_key \<in> set pubs)"

definition sample_library :: jwt_library where
  "sample_library = \<lparr>
     jl_sign = (\<lambda>hdr cl key. if hdr = tk_header sample_token \<and> cl = sample_claims \<and> key = sample_key
                  then Inr ''t'' else Inl (Text ''unsupported'')),
     jl_parse = (\<lambda>opts kf now s. if s \<noteq> ''t'' then Inl (JwtFault [TokenMalformed] ''token is malformed'')
                  else if ''EdDSA'' \<notin> set (po_methods opts) \<or> \<not> offers_key kf
                  then Inl (JwtFault [TokenSignatureInvalid] ''token signature is invalid'')
                  else if \<not> claims_valid opts now sample_claims
                  then Inl (JwtFault [TokenExpired, OtherFault] ''token has invalid claims'')
                  else Inr sample_claims),
     jl_exp = (\<lambda>cl. case cl ''exp'' of Some (ClaimNumber t) \<Rightarrow> Inr (if t = 0 then None else Some t)
                 | None \<Rightarrow> Inr None | _ \<Rightarrow> Inl (Text ''invalid type for claim''))\<rparr>"

lemma sample_jwt_built: "new_jwt ''iss'' [sample_key] = Inr sample_jwt"
  by (simp add: new_jwt_Inr sample_jwt_def sample_key_def)

lemma sample_parse_sound: "parse_sound sample_library sample_reads sample_verifies"
  unfolding parse_sound_def
proof (intro allI impI)
  fix opts kf now s cl
  assume "jl_parse sample_library opts kf now s = Inr cl"
  then have "s = ''t''" and "''EdDSA'' \<in> set (po_methods opts)" and "offers_key kf"
    and "claims_valid opts now cl" and "cl = sample_claims"
    by (simp_all add: sample_library_def split: if_splits)
  moreover from \<open>offers_key kf\<close> obtain pubs where "kf sample_token = Inr pubs" "public_of sample_key \<in> set pubs"
    by (auto simp: offers_key_def split: sum.splits)
  moreover have "tk_alg sample_token = ''EdDSA''" and "tk_claims sample_token = sample_claims"
    by (simp_all add: sample_token_def)
  moreover have "sample_reads ''t'' = Some sample_token"
    by (simp add: sample_reads_def)
  ultimately show "(\<exists>tok pubs. sample_reads s = Some tok \<and> tk_claims tok = cl \<and> tk_alg tok \<in> set (po_methods opts)
      \<and> kf tok = Inr pubs \<and> (\<exists>pub \<in> set pubs. sample_verifies pub s)) \<and> claims_valid opts now cl"
    by (metis sample_verifies_def)
qed

lemma sample_signed_accepted: "signed_accepted sample_library"
  unfolding signed_accepted_def
proof (intro allI impI)
  fix hdr cl :: claims and key s opts now pubs and kf :: keyfunc
  assume sig: "jl_sign sample_library hdr cl key = Inr s"
    and rest: "''EdDSA'' \<in> set (po_methods opts)"
      "kf \<lparr>tk_alg = ''EdDSA'', tk_header = hdr, tk_claims = cl\<rparr> = Inr pubs"
      "public_of key \<in> set pubs" "claims_valid opts now cl"
  from sig have "hdr = mint_header sample_jwt" "cl = sample_claims" "key = sample_key" "s = ''t''"
    by (simp_all add: sample_library_def sample_token_def split: if_splits)
  with rest show "jl_parse sample_library opts kf now s = Inr cl"
    by (simp add: sample_library_def offers_key_def sample_token_def)
qed

lemma sample_library_honest: "honours_jwt sample_library sample_reads sample_verifies"
  by (simp add: honours_jwt_def sample_parse_sound sample_signed_accepted)
    (simp add: expiry_read_def sample_library_def)

definition sample_jwt_ctx :: ctx where
  "sample_jwt_ctx = background\<lparr>cx_principal := Some sample_caller\<rparr>"

definition sample_jwt_env :: env where
  "sample_jwt_env = sample_env\<lparr>proc_clock := (\<lambda>n. 2000000 + int n)\<rparr>"

lemma sample_jwt_clock [simp]: "proc_clock sample_jwt_env n = 2000000 + int n"
  by (simp add: sample_jwt_env_def)

lemma sample_jwt_run:
  "jwt_token sample_library sample_jwt sample_jwt_ctx 0 ''svc'' sample_jwt_env (world_of empty_db)
     = (Inr ''t'', world_of empty_db)"
  by (simp add: jwt_token_def require_def from_ctx_def sample_jwt_ctx_def background_def at_clock_def
      sample_library_def sample_token_def sample_claims_def capped_ttl_def
      sample_jwt_def sample_key_def)

lemma sample_verify_run:
  "jwt_verify sample_library sample_jwt ''t'' ''svc'' sample_jwt_env (world_of empty_db)
     = (Inr \<lparr>vc_user = ''u1'', vc_session = ''s1'', vc_audience = ''svc'', vc_expires = 302\<rparr>, world_of empty_db)"
  by (simp add: jwt_verify_def at_clock_def sample_library_def offers_key_def sample_token_def jwt_keyfunc_def
      mint_header_def sample_jwt_def jwt_options_def claims_valid_def sample_claims_def mint_claims_def
      unix_seconds_def MaxTokenTTL_def text_claim_def sample_caller_def ret_def)

text \<open>
  The cause kept in the one error is golang-jwt's joined one, and Unwrap shows it: a token
  that is expired and was minted for another audience reads as expired, and \<open>errors.Is\<close>
  on what Verify returns still finds the library's sentinel.
\<close>

lemma joined_fault_unwraps:
  "verify_fault (JwtFault [TokenExpired, OtherFault] t) = expired_token (JwtFault [TokenExpired, OtherFault] t)"
  "is_fault TokenExpired (verify_fault (JwtFault [TokenExpired, OtherFault] t))"
  by (simp_all add: verify_fault_def expired_token_def)

text \<open>Every active key is published, in order, under the kid a token minted with it names.\<close>

lemma jwks_publishes_keys:
  assumes "new_jwt issuer keys = Inr J"
  shows "map (\<lambda>k. (b64_decode url_alphabet True (jk_x k), jk_kid k)) (jwks_keys J)
    = map (\<lambda>key. (Some (public_of key), thumbprint (public_of key))) keys"
proof -
  have "zip (jw_kids J) (jw_keys J) = map (\<lambda>k. (thumbprint (public_of k), k)) keys"
    using assms by (auto simp: new_jwt_Inr zip_map1 zip_same_conv_map)
  then show ?thesis
    by (simp add: jwks_keys_def comp_def b64_roundtrip)
qed

section \<open>Properties\<close>

text \<open>C25 A minted token is worth five minutes and survives a rotation: what Token signs for a
  caller, Verify accepts under any key set of the same issuer that still holds the signing
  key, whichever position it has there, until the expiry, and returns that caller, session and
  audience. The expiry is at most 300 seconds after the minting second, whatever lifetime was
  asked for. Issuer, audience and the two ids are texts that JSON can carry.\<close>

theorem jwt_survives_rotation:
  assumes "honours_jwt L reads verifies" and J: "new_jwt issuer keys = Inr J" and J': "new_jwt issuer keys' = Inr J'"
    and minted: "jwt_token L J c ttl audience E w = (Inr s, w')"
    and held: "hd keys \<in> set keys'"
    and apart: "\<And>k. k \<in> set keys' \<Longrightarrow> thumbprint (public_of k) = thumbprint (public_of (hd keys))
                  \<Longrightarrow> public_of k = public_of (hd keys)"
    and clock: "1000000 \<le> proc_clock E (step w)" "proc_clock E (step w) < 2 ^ 53 - 2 ^ 30"
    and caller: "from_ctx c = Some p" "p_user p \<noteq> []"
    and utf8: "valid_utf8 issuer" "valid_utf8 audience" "valid_utf8 (p_user p)" "valid_utf8 (p_session p)"
    and expiry: "ex = unix_seconds (proc_clock E (step w) + capped_ttl ttl)"
    and live: "proc_clock F (step v) < ex * 1000000"
  shows "jwt_verify L J' s audience F v
      = (Inr \<lparr>vc_user = p_user p, vc_session = p_session p, vc_audience = audience, vc_expires = ex\<rparr>, v)
    \<and> ex \<le> unix_seconds (proc_clock E (step w)) + 300"
proof -
  let ?now = "proc_clock E (step w)"
  let ?cl = "mint_claims J p audience ?now (capped_ttl ttl)"
  note ttl = capped_ttl_bounds [of ttl]
  have first: "jw_keys J ! 0 = hd keys" "jw_kids J ! 0 = thumbprint (public_of (hd keys))"
    and iss: "jw_issuer J = issuer" "jw_issuer J' = issuer"
    using J J' by (auto simp: new_jwt_Inr hd_conv_nth)
  from minted caller(1) first have aud: "audience \<noteq> []" and sig: "jl_sign L (mint_header J) ?cl (hd keys) = Inr s"
    by (auto elim!: jwt_token_Inr)
  have pos: "ex \<noteq> 0"
    using clock(1) ttl(1) by (auto simp: expiry unix_seconds_def)
  have kept: "survives_json ?cl"
    by (rule mint_claims_survive) (use clock ttl utf8 iss in simp_all)
  have valid: "claims_valid (jwt_options J audience) (proc_clock F (step v)) ?cl"
    by (rule mint_claims_valid) (use live pos in \<open>simp_all add: expiry\<close>)
  have opts: "jwt_options J audience = jwt_options J' audience"
    by (simp add: jwt_options_def iss)
  have "jwt_keyfunc J' \<lparr>tk_alg = ''EdDSA'', tk_header = mint_header J, tk_claims = ?cl\<rparr> = Inr [public_of (hd keys)]"
    by (rule keyfunc_offers [OF J' held _ _ apart]) (simp_all add: mint_header_def first)
  then have "jl_parse L (jwt_options J' audience) (jwt_keyfunc J') (proc_clock F (step v)) s = Inr ?cl"
    using valid aud
    by (intro honours_accepts [OF assms(1) sig mint_header_survives [OF J] kept]) (simp_all add: mint_header_def opts)
  moreover have "jl_exp L ?cl = Inr (Some ex)"
    using assms(1) pos by (simp add: honours_jwt_def expiry_read_def mint_claims_def expiry)
  ultimately have "jwt_verify L J' s audience F v
      = (Inr \<lparr>vc_user = p_user p, vc_session = p_session p, vc_audience = audience, vc_expires = ex\<rparr>, v)"
    using aud caller(2) by (simp add: jwt_verify_def at_clock_def text_claim_def mint_claims_def ret_def)
  moreover have "ex \<le> unix_seconds (?now + MaxTokenTTL)"
    unfolding expiry by (rule unix_seconds_mono) (use ttl(2) in simp)
  ultimately show ?thesis
    by (simp add: unix_seconds_def MaxTokenTTL_def)
qed

theorem jwt_survives_rotation_witness:
  "jwt_verify sample_library sample_jwt ''t'' ''svc'' sample_jwt_env (world_of empty_db)
     = (Inr \<lparr>vc_user = ''u1'', vc_session = ''s1'', vc_audience = ''svc'', vc_expires = 302\<rparr>, world_of empty_db)
   \<and> (302 :: int) \<le> unix_seconds (proc_clock sample_jwt_env (step (world_of empty_db))) + 300"
  using jwt_survives_rotation [OF sample_library_honest sample_jwt_built sample_jwt_built sample_jwt_run,
      where p = sample_caller and ex = 302 and F = sample_jwt_env and v = "world_of empty_db"]
  by (simp add: sample_jwt_ctx_def background_def from_ctx_def sample_caller_def unix_seconds_def
      capped_ttl_def MaxTokenTTL_def ascii_valid_utf8 is_ascii_def ascii_char_def)

text \<open>C26 Verify is sound: an accepted token names EdDSA, its signature checks under the public
  half of one of the keys New was given, and it says of itself what Verify returns: its \<open>iss\<close>
  is our issuer, its \<open>aud\<close> is the audience asked for or a list with it, its \<open>exp\<close> is the
  expiry returned and lies in the future, its \<open>nbf\<close>, if any, has passed, its \<open>sub\<close>, which is
  not empty, is the user and its \<open>sid\<close> the session.\<close>

theorem jwt_verify_sound:
  assumes "honours_jwt L reads verifies" and J: "new_jwt issuer keys = Inr J"
    and run: "jwt_verify L J s audience E w = (Inr vc, w')"
  shows "(\<exists>key \<in> set keys. verifies (public_of key) s)
    \<and> audience \<noteq> [] \<and> vc_audience vc = audience
    \<and> (\<exists>tok cl. reads s = Some tok \<and> tk_alg tok = ''EdDSA'' \<and> tk_claims tok = cl
         \<and> cl ''iss'' = Some (ClaimText issuer)
         \<and> (cl ''aud'' = Some (ClaimText audience) \<or> (\<exists>as. cl ''aud'' = Some (ClaimTexts as) \<and> audience \<in> set as))
         \<and> cl ''exp'' = Some (ClaimNumber (vc_expires vc)) \<and> proc_clock E (step w) < vc_expires vc * 1000000
         \<and> (\<forall>t. cl ''nbf'' = Some (ClaimNumber t) \<longrightarrow> t = 0 \<or> t * 1000000 \<le> proc_clock E (step w))
         \<and> cl ''sub'' = Some (ClaimText (vc_user vc)) \<and> vc_user vc \<noteq> []
         \<and> vc_session vc = (case cl ''sid'' of Some (ClaimText sid) \<Rightarrow> sid | _ \<Rightarrow> []))"
proof -
  let ?opts = "jwt_options J audience" and ?now = "proc_clock E (step w)"
  have built: "jw_issuer J = issuer" "issuer \<noteq> []" "jw_keys J = keys"
    using J by (auto simp: new_jwt_Inr)
  from run obtain cl t where aud: "audience \<noteq> []"
    and parsed: "jl_parse L ?opts (jwt_keyfunc J) ?now s = Inr cl" and sub: "text_claim cl ''sub'' \<noteq> []"
    and ex: "jl_exp L cl = Inr (Some t)"
    and vc: "vc = \<lparr>vc_user = text_claim cl ''sub'', vc_session = text_claim cl ''sid'',
               vc_audience = audience, vc_expires = t\<rparr>"
    by (auto simp: jwt_verify_def at_clock_def ret_def split: if_splits sum.splits option.splits)
  have "parse_sound L reads verifies" and reading: "expiry_read L"
    using assms(1) by (simp_all add: honours_jwt_def)
  moreover have "po_audience ?opts \<noteq> []"
    using aud by (simp add: jwt_options_def)
  ultimately obtain tok pubs pub where tok: "reads s = Some tok" "tk_claims tok = cl"
    and kf: "jwt_keyfunc J tok = Inr pubs" and "pub \<in> set pubs" "verifies pub s"
    and valid: "claims_valid ?opts ?now cl"
    using parsed unfolding parse_sound_def by blast
  then have signed: "\<exists>key \<in> set keys. verifies (public_of key) s"
    using keyfunc_only_own(2) [OF kf] built(3) by blast
  have iss: "cl ''iss'' = Some (ClaimText issuer)"
    using valid built by (simp add: claims_valid_def jwt_options_def)
  have for_us: "cl ''aud'' = Some (ClaimText audience) \<or> (\<exists>as. cl ''aud'' = Some (ClaimTexts as) \<and> audience \<in> set as)"
    using valid by (auto simp: claims_valid_def jwt_options_def split: option.splits claim.splits)
  have expiry: "cl ''exp'' = Some (ClaimNumber t)" "?now < t * 1000000"
    using valid reading ex
    by (auto simp: claims_valid_def expiry_read_def jwt_options_def split: option.splits claim.splits if_splits)
  have nbf: "\<forall>t. cl ''nbf'' = Some (ClaimNumber t) \<longrightarrow> t = 0 \<or> t * 1000000 \<le> ?now"
    using valid by (auto simp: claims_valid_def)
  obtain u where who: "cl ''sub'' = Some (ClaimText u)" "u \<noteq> []" "text_claim cl ''sub'' = u"
    using sub by (auto simp: text_claim_def split: option.splits claim.splits)
  show ?thesis
    using aud signed tok keyfunc_only_own(1) [OF kf] iss for_us expiry nbf who
    by (intro conjI exI [of _ tok] exI [of _ cl]) (simp_all add: vc text_claim_def)
qed

theorem jwt_verify_sound_witness:
  "jwt_verify sample_library sample_jwt ''t'' ''svc'' sample_jwt_env (world_of empty_db)
     = (Inr \<lparr>vc_user = ''u1'', vc_session = ''s1'', vc_audience = ''svc'', vc_expires = 302\<rparr>, world_of empty_db)
   \<and> sample_verifies (public_of sample_key) ''t''
   \<and> (\<exists>tok. sample_reads ''t'' = Some tok \<and> tk_claims tok ''iss'' = Some (ClaimText ''iss''))"
proof -
  note sound = jwt_verify_sound [OF sample_library_honest sample_jwt_built sample_verify_run]
  have "sample_verifies (public_of sample_key) ''t''"
    using conjunct1 [OF sound] by simp
  moreover have "\<exists>tok. sample_reads ''t'' = Some tok \<and> tk_claims tok ''iss'' = Some (ClaimText ''iss'')"
    using sound by (elim conjE exE) (intro exI conjI, assumption, simp only:)
  ultimately show ?thesis
    using sample_verify_run by (intro conjI)
qed

text \<open>One answer for every bad token: Verify fails with UNAUTHENTICATED and one of two
  messages, and says that a token has expired only if no signature, format or key fault is
  among the joined errors - a forgery that is also expired reads as invalid.\<close>

theorem jwt_one_answer:
  assumes "jwt_verify L J s audience E w = (Inl e, w')"
  shows "w' = w \<and>
    (if audience = [] then has_code CodeInvalidInput e
     else has_code CodeUnauthenticated e \<and>
       (case as_kal e of Some (c, m) \<Rightarrow> m = ''invalid token''
          \<or> m = ''token has expired'' \<and> \<not> is_fault TokenSignatureInvalid e
             \<and> \<not> is_fault TokenMalformed e \<and> \<not> is_fault TokenUnverifiable e
        | None \<Rightarrow> False))"
  using assms
  by (auto simp: jwt_verify_def at_clock_def fail_def ret_def invalid_input_def verify_fault_def
      invalid_token_def expired_token_def split: if_splits sum.splits option.splits)

theorem jwt_one_answer_witness:
  "has_code CodeUnauthenticated (invalid_token (JwtFault [TokenMalformed] ''token is malformed''))"
  using jwt_one_answer [of sample_library sample_jwt "''x''" "''svc''" sample_env "world_of empty_db"
      "invalid_token (JwtFault [TokenMalformed] ''token is malformed'')" "world_of empty_db"]
  by (simp add: jwt_verify_def at_clock_def fail_def sample_library_def verify_fault_def)

end
