(* ===== verification/Password.thy ===== *)
theory Password
  imports Schedule Base64 Samples
begin

text \<open>
  \<open>authn/password.go\<close>: the Argon2id hasher with its bounded concurrency, the PHC encoding of
  a stored hash, and the password policy. Argon2 and bcrypt themselves are fields of the
  environment.
\<close>

section \<open>Parameters\<close>

record hash_params =
  hp_memory :: "32 word"
  hp_time :: "32 word"
  hp_parallelism :: "8 word"
  hp_salt_len :: "32 word"
  hp_key_len :: "32 word"

definition params_defaults :: "hash_params \<Rightarrow> hash_params" where
  "params_defaults p =
     \<lparr>hp_memory = (if hp_memory p = 0 then 19456 else hp_memory p),
      hp_time = (if hp_time p = 0 then 2 else hp_time p),
      hp_parallelism = (if hp_parallelism p = 0 then 1 else hp_parallelism p),
      hp_salt_len = (if hp_salt_len p = 0 then 16 else hp_salt_len p),
      hp_key_len = (if hp_key_len p = 0 then 32 else hp_key_len p)\<rparr>"

record hasher =
  h_params :: hash_params
  h_limit :: nat
  h_dummy :: string

definition weaker :: "hash_params \<Rightarrow> hash_params \<Rightarrow> bool" where
  "weaker stored configured \<longleftrightarrow> hp_memory stored < hp_memory configured
     \<or> hp_time stored < hp_time configured \<or> hp_key_len stored < hp_key_len configured"

section \<open>The PHC string\<close>

definition argon2_version :: nat where
  "argon2_version = 19"

definition params_text :: "hash_params \<Rightarrow> string" where
  "params_text p = ''m='' @ itoa (unat (hp_memory p)) @ '',t='' @ itoa (unat (hp_time p))
     @ '',p='' @ itoa (unat (hp_parallelism p))"

definition encode_phc :: "hash_params \<Rightarrow> byte list \<Rightarrow> byte list \<Rightarrow> string" where
  "encode_phc p salt key =
     ''$argon2id$v='' @ itoa argon2_version @ ''$'' @ params_text p
     @ ''$'' @ b64_encode std_alphabet salt @ ''$'' @ b64_encode std_alphabet key"

text \<open>\<open>Sscanf\<close> against \<open>v=%d\<close> and against \<open>m=%d,t=%d,p=%d\<close>.\<close>

definition scan_version :: "string \<Rightarrow> int option" where
  "scan_version s = Option.bind (scan_lit ''v='' s) (\<lambda>r. map_option fst (scan_int r))"

definition scan_params :: "string \<Rightarrow> (nat \<times> nat \<times> nat) option" where
  "scan_params s =
     Option.bind (scan_lit ''m='' s) (\<lambda>r. Option.bind (scan_uint 32 r) (\<lambda>(m, r).
     Option.bind (scan_lit '',t='' r) (\<lambda>r. Option.bind (scan_uint 32 r) (\<lambda>(t, r).
     Option.bind (scan_lit '',p='' r) (\<lambda>r. Option.bind (scan_uint 8 r) (\<lambda>(p, r).
     Some (m, t, p)))))))"

definition parse_phc ::
  "unicode_tables \<Rightarrow> string \<Rightarrow> goerr + (hash_params \<times> byte list \<times> byte list)" where
  "parse_phc U s =
     (let parts = split_on CHR ''$'' s in
      if length parts \<noteq> 6 \<or> parts ! 0 \<noteq> [] \<or> parts ! 1 \<noteq> ''argon2id''
      then Inl (Text ''authn: not an argon2id PHC string'')
      else if scan_version (parts ! 2) \<noteq> Some (int argon2_version)
      then Inl (Text (''authn: unsupported argon2 version '' @ go_quote U (parts ! 2)))
      else case scan_params (parts ! 3) of
        None \<Rightarrow> Inl (Text (''authn: malformed argon2 parameters '' @ go_quote U (parts ! 3)))
      | Some (m, t, p) \<Rightarrow>
          (case b64_decode std_alphabet False (parts ! 4) of
             None \<Rightarrow> Inl (Text ''authn: malformed salt encoding'')
           | Some salt \<Rightarrow>
               (case b64_decode std_alphabet False (parts ! 5) of
                  None \<Rightarrow> Inl (Text ''authn: malformed key encoding'')
                | Some key \<Rightarrow>
                    if length salt < 8 \<or> 64 < length salt \<or> length key < 16 \<or> 128 < length key
                    then Inl (Text ''authn: implausible salt or key length'')
                    else Inr (\<lparr>hp_memory = word_of_nat m, hp_time = word_of_nat t,
                               hp_parallelism = word_of_nat p, hp_salt_len = word_of_nat (length salt),
                               hp_key_len = word_of_nat (length key)\<rparr>, salt, key))))"

section \<open>Hashing within the bound\<close>

text \<open>The acquire, the work, and the deferred release, which runs on every way out.\<close>

definition acquire :: "hasher \<Rightarrow> unit prog" where
  "acquire H = bindM (acquire_slot (h_limit H)) (\<lambda>r. case r of
     Inl e \<Rightarrow> fail (KalErr CodeRateLimited ''please try again shortly'' (Some e))
   | Inr u \<Rightarrow> ret u)"

definition within_bound :: "hasher \<Rightarrow> 'a prog \<Rightarrow> 'a prog" where
  "within_bound H m = tryM (acquire H) (\<lambda>_. bindM m (\<lambda>r. bindM release_slot (\<lambda>_. lift r)))"

definition id_key :: "byte list \<Rightarrow> byte list \<Rightarrow> hash_params \<Rightarrow> byte list prog" where
  "id_key password salt p = bindM count_hash (\<lambda>_. with_env (\<lambda>E.
     case argon2 E password salt (unat (hp_time p)) (unat (hp_memory p)) (unat (hp_parallelism p))
            (unat (hp_key_len p)) of
       None \<Rightarrow> fail (GoPanic ''argon2'')
     | Some key \<Rightarrow> ret key))"

definition hash_bytes :: "hash_params \<Rightarrow> byte list \<Rightarrow> string prog" where
  "hash_bytes p password = tryM (rand_read (unat (hp_salt_len p))) (\<lambda>salt.
     tryM (id_key password salt p) (\<lambda>key. ret (encode_phc p salt key)))"

definition hash_password :: "hasher \<Rightarrow> string \<Rightarrow> string prog" where
  "hash_password H password = within_bound H (hash_bytes (h_params H) (bytes_of password))"

definition new_hasher :: "int \<Rightarrow> hash_params \<Rightarrow> int \<Rightarrow> hasher prog" where
  "new_hasher gomaxprocs p max_concurrent =
     (let limit = (if max_concurrent \<le> 0 then gomaxprocs else max_concurrent);
          q = params_defaults p in
      tryM (rand_read 32) (\<lambda>secret. tryM (hash_bytes q secret) (\<lambda>dummy.
        ret \<lparr>h_params = q, h_limit = nat limit, h_dummy = dummy\<rparr>)))"

definition verify_stored :: "hasher \<Rightarrow> string \<Rightarrow> string \<Rightarrow> (bool \<times> bool) prog" where
  "verify_stored H password encoded =
     (if has_prefix encoded ''$2''
      then bindM count_hash (\<lambda>_. with_env (\<lambda>E.
             let match = bcrypt E encoded password in ret (match, match)))
      else with_env (\<lambda>E. tryM (lift (parse_phc (unicode E) encoded)) (\<lambda>(stored, salt, key).
             tryM (id_key (bytes_of password) salt stored) (\<lambda>derived.
               if derived \<noteq> key then ret (False, False)
               else ret (True, weaker stored (h_params H))))))"

definition verify :: "hasher \<Rightarrow> string \<Rightarrow> string \<Rightarrow> (bool \<times> bool) prog" where
  "verify H password encoded = within_bound H (verify_stored H password encoded)"

definition verify_dummy :: "hasher \<Rightarrow> string \<Rightarrow> unit prog" where
  "verify_dummy H password = tryM (verify H password (h_dummy H)) (\<lambda>_. ret ())"

section \<open>Policy\<close>

definition MinPasswordLen :: nat where "MinPasswordLen = 8"
definition MaxPasswordLen :: nat where "MaxPasswordLen = 1024"

definition validate_password :: "string \<Rightarrow> goerr option" where
  "validate_password password =
     (if rune_count password < MinPasswordLen
      then Some (invalid_input (''password must be at least '' @ itoa MinPasswordLen @ '' characters''))
      else if MaxPasswordLen < length password
      then Some (invalid_input (''password must be at most '' @ itoa MaxPasswordLen @ '' bytes''))
      else None)"

lemma parse_phc_error: "parse_phc U s = Inl e \<Longrightarrow> as_kal e = None"
  by (auto simp: parse_phc_def Let_def split: if_splits option.splits prod.splits)

section \<open>The encoding round trip\<close>

definition phc_ok :: "hash_params \<times> byte list \<times> byte list \<Rightarrow> bool" where
  "phc_ok x = (case x of (p, salt, key) \<Rightarrow>
     8 \<le> length salt \<and> length salt \<le> 64 \<and> 16 \<le> length key \<and> length key \<le> 128
     \<and> unat (hp_salt_len p) = length salt \<and> unat (hp_key_len p) = length key)"

lemma dollar_free_itoa: "CHR ''$'' \<notin> set (itoa n)"
  using itoa_digits [of n] by (auto simp: list_all_iff is_digit_def)

lemma dollar_free_params: "CHR ''$'' \<notin> set (params_text p)"
  by (simp add: params_text_def dollar_free_itoa)

lemma dollar_free_b64: "CHR ''$'' \<notin> set (b64_encode std_alphabet bs)"
  using enc_not_skipped(2) [OF alphabet_ok_std] by blast

lemma split_phc:
  "split_on CHR ''$'' (encode_phc p salt key) =
     [[], ''argon2id'', ''v='' @ itoa argon2_version, params_text p,
      b64_encode std_alphabet salt, b64_encode std_alphabet key]"
proof -
  let ?v = "''v='' @ itoa argon2_version"
  have v: "CHR ''$'' \<notin> set ?v"
    by (simp add: dollar_free_itoa)
  have a: "CHR ''$'' \<notin> set ''argon2id''" and e: "CHR ''$'' \<notin> set []"
    by simp_all
  have "encode_phc p salt key = [] @ CHR ''$'' # ''argon2id'' @ CHR ''$'' # ?v @ CHR ''$'' # params_text p
      @ CHR ''$'' # b64_encode std_alphabet salt @ CHR ''$'' # b64_encode std_alphabet key"
    by (simp add: encode_phc_def)
  then show ?thesis
    by (simp only: split_on_append [OF e] split_on_append [OF a] split_on_append [OF v]
        split_on_append [OF dollar_free_params] split_on_append [OF dollar_free_b64]
        split_on_none [OF dollar_free_b64])
qed

text \<open>What follows a number in a part is not looked at.\<close>

definition trailing :: "string \<Rightarrow> bool" where
  "trailing x \<longleftrightarrow> x = [] \<or> \<not> is_digit (hd x)"

lemma scan_version_ok: "trailing x \<Longrightarrow> scan_version (''v='' @ itoa argon2_version @ x) = Some (int argon2_version)"
  using scan_int_itoa [of argon2_version x] scan_lit_append [of "''v=''" "itoa argon2_version @ x"]
  by (simp add: scan_version_def argon2_version_def trailing_def)

lemma scan_params_ok:
  assumes "trailing x"
  shows "scan_params (params_text p @ x)
    = Some (unat (hp_memory p), unat (hp_time p), unat (hp_parallelism p))"
proof -
  have b: "unat (hp_memory p) < 2 ^ 32" "unat (hp_time p) < 2 ^ 32" "unat (hp_parallelism p) < 2 ^ 8"
    using unsigned_less [of "hp_memory p"] unsigned_less [of "hp_time p"] unsigned_less [of "hp_parallelism p"]
    by simp_all
  have m: "scan_uint 32 (itoa (unat (hp_memory p)) @ '',t='' @ r) = Some (unat (hp_memory p), '',t='' @ r)" for r
    by (rule scan_uint_itoa) (use b in \<open>simp_all add: is_digit_def\<close>)
  have t: "scan_uint 32 (itoa (unat (hp_time p)) @ '',p='' @ r) = Some (unat (hp_time p), '',p='' @ r)" for r
    by (rule scan_uint_itoa) (use b in \<open>simp_all add: is_digit_def\<close>)
  have q: "scan_uint 8 (itoa (unat (hp_parallelism p)) @ x) = Some (unat (hp_parallelism p), x)"
    using scan_uint_itoa [of "unat (hp_parallelism p)" 8 x] b assms by (simp add: trailing_def)
  have pt: "params_text p @ x = ''m='' @ itoa (unat (hp_memory p)) @ '',t='' @ itoa (unat (hp_time p))
     @ '',p='' @ itoa (unat (hp_parallelism p)) @ x"
    by (simp add: params_text_def)
  show ?thesis
    unfolding scan_params_def pt
    by (simp only: scan_lit_append m t q Option.bind.bind_lunit case_prod_conv)
qed

lemmas scan_exact = scan_version_ok [of "[]", simplified trailing_def, simplified]
  scan_params_ok [of "[]", simplified trailing_def, simplified]

theorem phc_roundtrip:
  assumes "phc_ok (p, salt, key)"
  shows "parse_phc U (encode_phc p salt key) = Inr (p, salt, key)"
proof -
  have "word_of_nat (unat (hp_salt_len p)) = hp_salt_len p"
    and "word_of_nat (unat (hp_key_len p)) = hp_key_len p"
    by simp_all
  with assms have sizes: "word_of_nat (length salt) = hp_salt_len p"
    "word_of_nat (length key) = hp_key_len p"
    by (simp_all add: phc_ok_def)
  show ?thesis
    unfolding parse_phc_def split_phc Let_def
    using assms by (simp add: scan_exact b64_roundtrip phc_ok_def sizes)
qed

text \<open>
  The parser takes more than the encoder writes: anything but a digit may follow the version
  and the parameters, and the parameters may be 0, which Argon2 refuses with a panic.
\<close>

lemma parse_phc_lenient:
  assumes "phc_ok (p, salt, key)" and "trailing x" and "trailing y" and "CHR ''$'' \<notin> set x" and "CHR ''$'' \<notin> set y"
  shows "parse_phc U (''$argon2id$v='' @ itoa argon2_version @ x @ ''$'' @ params_text p @ y
     @ ''$'' @ b64_encode std_alphabet salt @ ''$'' @ b64_encode std_alphabet key) = Inr (p, salt, key)"
proof -
  let ?v = "''v='' @ itoa argon2_version @ x" and ?p = "params_text p @ y"
  have v: "CHR ''$'' \<notin> set ?v" and q: "CHR ''$'' \<notin> set ?p"
    using assms(4,5) by (simp_all add: dollar_free_itoa dollar_free_params)
  have a: "CHR ''$'' \<notin> set ''argon2id''" and e: "CHR ''$'' \<notin> set []"
    by simp_all
  have "''$argon2id$v='' @ itoa argon2_version @ x @ ''$'' @ params_text p @ y
     @ ''$'' @ b64_encode std_alphabet salt @ ''$'' @ b64_encode std_alphabet key
    = [] @ CHR ''$'' # ''argon2id'' @ CHR ''$'' # ?v @ CHR ''$'' # ?p
      @ CHR ''$'' # b64_encode std_alphabet salt @ CHR ''$'' # b64_encode std_alphabet key"
    by simp
  then have parts: "split_on CHR ''$'' (''$argon2id$v='' @ itoa argon2_version @ x @ ''$'' @ params_text p @ y
     @ ''$'' @ b64_encode std_alphabet salt @ ''$'' @ b64_encode std_alphabet key)
    = [[], ''argon2id'', ?v, ?p, b64_encode std_alphabet salt, b64_encode std_alphabet key]"
    by (simp only: split_on_append [OF e] split_on_append [OF a] split_on_append [OF v]
        split_on_append [OF q] split_on_append [OF dollar_free_b64] split_on_none [OF dollar_free_b64])
  have "word_of_nat (unat (hp_salt_len p)) = hp_salt_len p" "word_of_nat (unat (hp_key_len p)) = hp_key_len p"
    by simp_all
  with assms(1) have "word_of_nat (length salt) = hp_salt_len p" "word_of_nat (length key) = hp_key_len p"
    by (simp_all add: phc_ok_def)
  then show ?thesis
    unfolding parse_phc_def parts Let_def
    using assms(1) scan_version_ok [OF assms(2)] scan_params_ok [OF assms(3), of p]
    by (simp add: b64_roundtrip phc_ok_def)
qed

interpretation phc: codec phc_ok "\<lambda>(p, salt, key). encode_phc p salt key"
    "\<lambda>s. case parse_phc U s of Inl e \<Rightarrow> None | Inr x \<Rightarrow> Some x" for U
  by unfold_locales (auto simp: phc_roundtrip)

section \<open>Slots, statements and hash counts\<close>

lemma within_bound_slots:
  assumes "keeps same_slots E m"
  shows "keeps same_slots E (within_bound H m)"
proof (rule keepsI)
  fix w r w'
  assume "within_bound H m E w = (r, w')"
  then show "same_slots E w w'"
    using keepsD [OF assms]
    by (fastforce simp: within_bound_def acquire_def tryM_def bindM_def acquire_slot_def release_slot_def
        lift_def ret_def fail_def same_slots_def split: if_splits prod.splits sum.splits)
qed

lemma slots_hashing [guar]:
  "keeps same_slots E (hash_password H pw)" "keeps same_slots E (verify H pw enc)"
  "keeps same_slots E (verify_dummy H pw)"
  unfolding hash_password_def verify_def verify_dummy_def hash_bytes_def verify_stored_def id_key_def Let_def
  by (intro within_bound_slots slots.keeps_rules guar)+

context guarantee begin

lemma keeps_within_bound:
  assumes "keeps R E (acquire_slot (h_limit H))" and "keeps R E release_slot" and "keeps R E m"
  shows "keeps R E (within_bound H m)"
  unfolding within_bound_def acquire_def using assms by (intro keeps_rules)

lemma keeps_verify:
  assumes "keeps R E (acquire_slot (h_limit H))" and "keeps R E release_slot" and "keeps R E count_hash"
  shows "keeps R E (verify H pw enc)" "keeps R E (verify_dummy H pw)"
  unfolding verify_def verify_dummy_def verify_stored_def id_key_def Let_def
  by (intro keeps_within_bound keeps_rules assms)+

lemma keeps_hash:
  assumes "keeps R E (acquire_slot (h_limit H))" and "keeps R E release_slot" and "keeps R E count_hash"
    and "\<And>n. keeps R E (rand_read n)"
  shows "keeps R E (hash_password H pw)"
  unfolding hash_password_def hash_bytes_def id_key_def using assms
  by (intro keeps_within_bound keeps_rules)

end

lemma hashing_effects [guar]:
  "keeps (via ok) E (hash_password H pw)" "keeps (via ok) E (verify H pw enc)"
  "keeps (via ok) E (verify_dummy H pw)"
  "keeps log_grows E (hash_password H pw)" "keeps log_grows E (verify H pw enc)"
  "keeps log_grows E (verify_dummy H pw)"
  "keeps same_jar E (hash_password H pw)" "keeps same_jar E (verify H pw enc)"
  "keeps same_jar E (verify_dummy H pw)"
  "keeps same_db E (hash_password H pw)" "keeps same_db E (verify H pw enc)"
  "keeps same_db E (verify_dummy H pw)"
  by (intro via.keeps_hash via.keeps_verify logs.keeps_hash logs.keeps_verify jars.keeps_hash
      jars.keeps_verify tables.keeps_hash tables.keeps_verify guar)+

section \<open>What a verification finds\<close>

text \<open>The specification: a stored hash matches a password, whichever encoding it is in.\<close>

definition matches :: "env \<Rightarrow> string \<Rightarrow> string \<Rightarrow> bool" where
  "matches E pw enc \<longleftrightarrow>
     (if has_prefix enc ''$2'' then bcrypt E enc pw
      else (case parse_phc (unicode E) enc of
              Inl e \<Rightarrow> False
            | Inr (p, salt, key) \<Rightarrow>
                argon2 E (bytes_of pw) salt (unat (hp_time p)) (unat (hp_memory p))
                  (unat (hp_parallelism p)) (unat (hp_key_len p)) = Some key))"

text \<open>The one trace a verification leaves.\<close>

definition hashed_once :: "nat \<Rightarrow> world \<Rightarrow> world" where
  "hashed_once n w = w\<lparr>step := step w + n, hash_runs := Suc (hash_runs w),
     slot_log := slot_log w @ [Slot_taken, Hash_computed, Slot_given]\<rparr>"

text \<open>The trace of the derivation alone, its slot held by the caller.\<close>

definition derived_once :: "nat \<Rightarrow> world \<Rightarrow> world" where
  "derived_once n w = w\<lparr>step := step w + n, hash_runs := Suc (hash_runs w), slot_log := slot_log w @ [Hash_computed]\<rparr>"

lemma hashed_once_derived: "gave_slot (derived_once n (took_slot w)) = hashed_once (Suc n) w"
  by (simp add: hashed_once_def derived_once_def gave_slot_def took_slot_def tick_def)

lemma hashed_once_simps [simp]:
  "db (hashed_once n w) = db w" "outbox (hashed_once n w) = outbox w" "trail (hashed_once n w) = trail w"
  "jar (hashed_once n w) = jar w" "in_flight (hashed_once n w) = in_flight w"
  "step (hashed_once n w) = step w + n" "hash_runs (hashed_once n w) = Suc (hash_runs w)"
  by (simp_all add: hashed_once_def)

lemma within_bound_Inr:
  assumes "within_bound H m E w = (Inr v, w')"
  obtains w1 where "in_flight w < h_limit H"
    and "m E (took_slot w) = (Inr v, w1)"
    and "w' = gave_slot w1"
  using assms
  by (auto simp: within_bound_def acquire_def tryM_def bindM_def acquire_slot_def release_slot_def
      lift_def ret_def fail_def split: if_splits prod.splits sum.splits)

lemma verify_Inr:
  assumes "verify H pw enc E w = (Inr (ok, rehash), w')"
  shows "ok = matches E pw enc" and "w' = hashed_once 1 w"
  using assms unfolding verify_def
  by (auto simp: verify_stored_def id_key_def tryM_def bindM_def with_env_def count_hash_def lift_def
      ret_def fail_def matches_def hashed_once_def tick_def Let_def elim!: within_bound_Inr
      split: if_splits prod.splits sum.splits option.splits)

lemma verify_dummy_Inr: "verify_dummy H pw E w = (Inr u, w') \<Longrightarrow> w' = hashed_once 1 w"
  unfolding verify_dummy_def by (elim tryM_Inr) (auto simp: ret_def dest: verify_Inr(2))

text \<open>
  Argon2's contract as documented: it panics without a pass or without a lane, and otherwise
  returns a key of the length asked for.
\<close>

definition argon2_ok :: "env \<Rightarrow> bool" where
  "argon2_ok E \<longleftrightarrow> (\<forall>pw salt t m p n. case argon2 E pw salt t m p n of
     None \<Rightarrow> t = 0 \<or> p = 0 | Some k \<Rightarrow> 0 < t \<and> 0 < p \<and> length k = n)"

lemma argon2_ok_length: "argon2_ok E \<Longrightarrow> argon2 E pw salt t m p n = Some k \<Longrightarrow> length k = n"
  by (auto simp: argon2_ok_def split: option.splits)

lemma argon2_ok_total:
  assumes "argon2_ok E" and "argon2 E pw salt t m p n = Some k"
  shows "argon2 E pw' salt t m p n \<noteq> None"
proof
  assume "argon2 E pw' salt t m p n = None"
  moreover have "case argon2 E q salt t m p n of None \<Rightarrow> t = 0 \<or> p = 0
      | Some k \<Rightarrow> 0 < t \<and> 0 < p \<and> length k = n" for q
    using assms(1) unfolding argon2_ok_def by blast
  from this [of pw] this [of pw'] assms(2) calculation show False by auto
qed

definition envelope :: "hash_params \<Rightarrow> bool" where
  "envelope p \<longleftrightarrow> 8 \<le> unat (hp_salt_len p) \<and> unat (hp_salt_len p) \<le> 64
     \<and> 16 \<le> unat (hp_key_len p) \<and> unat (hp_key_len p) \<le> 128"

lemma hash_bytes_Inr:
  assumes "hash_bytes p pw E w = (Inr enc, w')"
  obtains salt key where "length salt = unat (hp_salt_len p)" and "enc = encode_phc p salt key"
    and "argon2 E pw salt (unat (hp_time p)) (unat (hp_memory p)) (unat (hp_parallelism p))
           (unat (hp_key_len p)) = Some key"
    and "w' = derived_once 1 w"
proof -
  let ?salt = "map (rand_byte E (step w)) [0..<unat (hp_salt_len p)]"
  let ?key = "argon2 E pw ?salt (unat (hp_time p)) (unat (hp_memory p)) (unat (hp_parallelism p))
                (unat (hp_key_len p))"
  from assms obtain key where key: "?key = Some key"
    by (auto simp: hash_bytes_def id_key_def tryM_def bindM_def rand_read_def with_env_def
        count_hash_def ret_def fail_def split: if_splits option.splits)
  show thesis
    by (rule that [of ?salt key])
      (use assms key in \<open>auto simp: hash_bytes_def id_key_def tryM_def bindM_def rand_read_def
        with_env_def count_hash_def ret_def fail_def derived_once_def tick_def split: if_splits\<close>)
qed

lemma not_bcrypt: "\<not> has_prefix (encode_phc p salt key) ''$2''"
  by (simp add: encode_phc_def)

text \<open>
  A password matches its own hash, and another one matches it exactly when Argon2 derives the
  same key from it.
\<close>

lemma hash_password_matches:
  assumes "hash_password H pw E w = (Inr enc, w')" and "argon2_ok E" and "envelope (h_params H)"
  shows "matches E pw enc" and "w' = hashed_once 2 w"
    and "\<exists>salt. length salt = unat (hp_salt_len (h_params H)) \<and>
      (\<forall>q. matches E q enc \<longleftrightarrow> argon2 E (bytes_of q) salt (unat (hp_time (h_params H)))
             (unat (hp_memory (h_params H))) (unat (hp_parallelism (h_params H)))
             (unat (hp_key_len (h_params H)))
         = argon2 E (bytes_of pw) salt (unat (hp_time (h_params H)))
             (unat (hp_memory (h_params H))) (unat (hp_parallelism (h_params H)))
             (unat (hp_key_len (h_params H))))"
proof -
  let ?p = "h_params H"
  obtain w1 where run: "hash_bytes ?p (bytes_of pw) E (took_slot w) = (Inr enc, w1)"
    and w': "w' = gave_slot w1"
    using assms(1) unfolding hash_password_def by (rule within_bound_Inr)
  from run obtain salt key where salt: "length salt = unat (hp_salt_len ?p)"
    and enc: "enc = encode_phc ?p salt key"
    and key: "argon2 E (bytes_of pw) salt (unat (hp_time ?p)) (unat (hp_memory ?p))
                (unat (hp_parallelism ?p)) (unat (hp_key_len ?p)) = Some key"
    and w1: "w1 = derived_once 1 (took_slot w)"
    by (rule hash_bytes_Inr)
  have "phc_ok (?p, salt, key)"
    using salt argon2_ok_length [OF assms(2) key] assms(3) by (simp add: phc_ok_def envelope_def)
  then have all: "matches E q enc \<longleftrightarrow> argon2 E (bytes_of q) salt (unat (hp_time ?p)) (unat (hp_memory ?p))
                (unat (hp_parallelism ?p)) (unat (hp_key_len ?p)) = Some key" for q
    unfolding matches_def enc by (simp add: not_bcrypt phc_roundtrip)
  with key show "matches E pw enc" by simp
  show "w' = hashed_once 2 w"
    by (simp add: w' w1 hashed_once_derived numeral_2_eq_2)
  from all key salt show "\<exists>salt. length salt = unat (hp_salt_len (h_params H)) \<and>
      (\<forall>q. matches E q enc \<longleftrightarrow> argon2 E (bytes_of q) salt (unat (hp_time (h_params H)))
             (unat (hp_memory (h_params H))) (unat (hp_parallelism (h_params H)))
             (unat (hp_key_len (h_params H)))
         = argon2 E (bytes_of pw) salt (unat (hp_time (h_params H)))
             (unat (hp_memory (h_params H))) (unat (hp_parallelism (h_params H)))
             (unat (hp_key_len (h_params H))))"
    by (intro exI [of _ salt]) simp
qed

text \<open>The whole behaviour of a verification against a hash of the encoder's form.\<close>

definition busy :: "hasher \<Rightarrow> env \<Rightarrow> world \<Rightarrow> bool" where
  "busy H E w \<longleftrightarrow> h_limit H \<le> in_flight w \<or> slot_times_out E (step w)"

definition try_again :: goerr where
  "try_again = KalErr CodeRateLimited ''please try again shortly'' (Some SlotTimeout)"

lemma within_bound_eq:
  "within_bound H m E w =
     (if busy H E w then (Inl try_again, turned_away w)
      else case m E (took_slot w) of
             (r, w1) \<Rightarrow> (r, gave_slot w1))"
  by (auto simp: within_bound_def acquire_def tryM_def bindM_def acquire_slot_def release_slot_def
      lift_def ret_def fail_def busy_def try_again_def split: prod.splits)

lemma verify_encoded:
  assumes "phc_ok (p, salt, key)"
  shows "verify H pw (encode_phc p salt key) E w =
     (if busy H E w then (Inl try_again, turned_away w)
      else case argon2 E (bytes_of pw) salt (unat (hp_time p)) (unat (hp_memory p))
                  (unat (hp_parallelism p)) (unat (hp_key_len p)) of
             None \<Rightarrow> (Inl (GoPanic ''argon2''), hashed_once 1 w)
           | Some k \<Rightarrow> (Inr (k = key, k = key \<and> weaker p (h_params H)), hashed_once 1 w))"
  unfolding verify_def within_bound_eq
  by (simp add: verify_stored_def not_bcrypt phc_roundtrip [OF assms] prog_defs id_key_def count_hash_def
      hashed_once_def tick_def split: option.split)

lemma hash_password_Inr:
  assumes "hash_password H pw E w = (Inr enc, w')"
  obtains salt key where "length salt = unat (hp_salt_len (h_params H))"
    and "enc = encode_phc (h_params H) salt key"
    and "argon2 E (bytes_of pw) salt (unat (hp_time (h_params H))) (unat (hp_memory (h_params H)))
           (unat (hp_parallelism (h_params H))) (unat (hp_key_len (h_params H))) = Some key"
    and "w' = hashed_once 2 w"
proof -
  obtain w1 where run: "hash_bytes (h_params H) (bytes_of pw) E (took_slot w) = (Inr enc, w1)"
    and w': "w' = gave_slot w1"
    using assms unfolding hash_password_def by (rule within_bound_Inr)
  from run show thesis
    by (rule hash_bytes_Inr) (use that w' hashed_once_derived [of 1 w] in \<open>simp add: numeral_2_eq_2\<close>)
qed

lemma weaker_irrefl [simp]: "\<not> weaker p p"
  by (simp add: weaker_def)

lemma parse_outside:
  assumes "\<not> (8 \<le> length salt \<and> length salt \<le> 64 \<and> 16 \<le> length key \<and> length key \<le> 128)"
  shows "parse_phc U (encode_phc p salt key) = Inl (Text ''authn: implausible salt or key length'')"
  unfolding parse_phc_def split_phc Let_def using assms
  by (auto simp: scan_exact b64_roundtrip)

lemma verify_outside:
  assumes "\<not> (8 \<le> length salt \<and> length salt \<le> 64 \<and> 16 \<le> length key \<and> length key \<le> 128)"
  shows "\<exists>e. fst (verify H pw (encode_phc p salt key) E w) = Inl e"
  unfolding verify_def within_bound_eq
  by (simp add: verify_stored_def not_bcrypt parse_outside [OF assms] prog_defs)

section \<open>Properties\<close>

text \<open>Every stored hash parses back to what was encoded: the parameters, the salt and the
  key of a PHC string are exactly those it was written from, for every 32-bit memory and time,
  every 8-bit parallelism and every salt and key of a length the parser accepts.\<close>

theorem stored_hash_parses:
  assumes "8 \<le> length salt" and "length salt \<le> 64" and "16 \<le> length key" and "length key \<le> 128"
  shows "parse_phc U (encode_phc \<lparr>hp_memory = m, hp_time = t, hp_parallelism = p,
      hp_salt_len = word_of_nat (length salt), hp_key_len = word_of_nat (length key)\<rparr> salt key) =
    Inr (\<lparr>hp_memory = m, hp_time = t, hp_parallelism = p, hp_salt_len = word_of_nat (length salt),
      hp_key_len = word_of_nat (length key)\<rparr>, salt, key)"
proof -
  have "unat (word_of_nat (length salt) :: 32 word) = length salt"
    and "unat (word_of_nat (length key) :: 32 word) = length key"
    using assms by (simp_all add: unat_of_nat take_bit_nat_eq_self)
  with assms show ?thesis
    by (intro phc_roundtrip) (simp add: phc_ok_def)
qed

theorem stored_hash_parses_witness:
  "\<exists>q. parse_phc sample_tables (encode_phc \<lparr>hp_memory = 19456, hp_time = 2, hp_parallelism = 1,
     hp_salt_len = 16, hp_key_len = 32\<rparr> (replicate 16 7) (replicate 32 9)) = Inr (q, replicate 16 7, replicate 32 9)"
  using stored_hash_parses [of "replicate 16 7" "replicate 32 9" sample_tables 19456 2 1] by simp

text \<open>C32 A hash verifies the password it was made from and tells others apart exactly as far as
  Argon2 does: after \<open>Hash\<close> with a configuration inside the parser's envelope, and whenever a
  hashing slot is free, \<open>Verify\<close> returns true for every candidate whose derived key under the
  stored salt is the same and false for every other, and asks for no re-hash.\<close>

theorem hash_then_verify:
  assumes "hash_password H pw E w = (Inr enc, w')" and "argon2_ok E" and "envelope (h_params H)"
  shows "\<exists>derive. derive (bytes_of pw) \<noteq> None \<and>
    (\<forall>candidate v. verify H candidate enc E v =
       (if busy H E v then (Inl try_again, turned_away v)
        else (Inr (derive (bytes_of candidate) = derive (bytes_of pw), False), hashed_once 1 v))) \<and>
    (\<exists>salt. length salt = unat (hp_salt_len (h_params H)) \<and>
       derive = (\<lambda>bs. argon2 E bs salt (unat (hp_time (h_params H))) (unat (hp_memory (h_params H)))
         (unat (hp_parallelism (h_params H))) (unat (hp_key_len (h_params H)))))"
proof -
  let ?p = "h_params H"
  obtain salt key where salt: "length salt = unat (hp_salt_len ?p)" and enc: "enc = encode_phc ?p salt key"
    and key: "argon2 E (bytes_of pw) salt (unat (hp_time ?p)) (unat (hp_memory ?p))
                (unat (hp_parallelism ?p)) (unat (hp_key_len ?p)) = Some key"
    using assms(1) by (rule hash_password_Inr) auto
  let ?d = "\<lambda>bs. argon2 E bs salt (unat (hp_time ?p)) (unat (hp_memory ?p)) (unat (hp_parallelism ?p))
              (unat (hp_key_len ?p))"
  have ok: "phc_ok (?p, salt, key)"
    using salt argon2_ok_length [OF assms(2) key] assms(3) by (simp add: phc_ok_def envelope_def)
  have total: "?d bs \<noteq> None" for bs
    using argon2_ok_total [OF assms(2) key] by blast
  have "verify H candidate enc E v = (if busy H E v then (Inl try_again, turned_away v)
      else (Inr (?d (bytes_of candidate) = ?d (bytes_of pw), False), hashed_once 1 v))" for candidate v
    unfolding enc verify_encoded [OF ok]
    using total [of "bytes_of candidate"] key by (auto split: option.split)
  with total salt show ?thesis
    by (intro exI [of _ ?d]) blast
qed

text \<open>A salt or key length outside 8..64 and 16..128 makes a hasher that cannot verify
  anything: \<open>NewHasher\<close> accepts it and \<open>Hash\<close> works, but every later \<open>Verify\<close> of such a hash, and
  every dummy verification, is an error whatever the password.\<close>

theorem hasher_outside_envelope:
  assumes "new_hasher gomaxprocs p limit E w = (Inr H, w1)" and "argon2_ok E"
    and "\<not> envelope (params_defaults p)" and "hash_password H pw E w2 = (Inr enc, w3)"
  shows "(\<exists>e. fst (verify H candidate enc E v) = Inl e) \<and> (\<exists>e. fst (verify_dummy H candidate E v) = Inl e)"
proof
  obtain secret wa wb where dummy: "hash_bytes (params_defaults p) secret E wa = (Inr (h_dummy H), wb)"
    and H: "h_params H = params_defaults p"
    using assms(1) unfolding new_hasher_def Let_def by (elim tryM_Inr) (auto simp: ret_def)
  note long = assms(3) [unfolded envelope_def] argon2_ok_length [OF assms(2)]
  from assms(4) show "\<exists>e. fst (verify H candidate enc E v) = Inl e"
    by (rule hash_password_Inr) (use long H in \<open>auto intro!: verify_outside\<close>)
  from dummy have "\<exists>e. fst (verify H candidate (h_dummy H) E v) = Inl e"
    by (rule hash_bytes_Inr) (use long in \<open>auto intro!: verify_outside\<close>)
  then show "\<exists>e. fst (verify_dummy H candidate E v) = Inl e"
    by (auto simp: verify_dummy_def tryM_def bindM_def fail_def split: prod.splits sum.splits)
qed

text \<open>A hasher with the default parameters, and the run of one hash.\<close>

definition sample_hasher :: "32 word \<Rightarrow> hasher" where
  "sample_hasher salt_len = \<lparr>h_params = params_defaults \<lparr>hp_memory = 0, hp_time = 0, hp_parallelism = 0,
     hp_salt_len = salt_len, hp_key_len = 0\<rparr>, h_limit = 4, h_dummy = ''dummy''\<rparr>"

lemma sample_hasher_simps [simp]:
  "h_limit (sample_hasher n) = 4" "hp_time (h_params (sample_hasher n)) = 2"
  "hp_parallelism (h_params (sample_hasher n)) = 1"
  by (simp_all add: sample_hasher_def params_defaults_def)

lemma sample_argon2_ok: "argon2_ok sample_env"
  by (auto simp: argon2_ok_def sample_argon2_def min_def)

lemma sample_hash_run: "\<exists>enc w'. hash_password H pw sample_env (world_of d) = (Inr enc, w')"
  if "0 < h_limit H" "0 < unat (hp_time (h_params H))" "0 < unat (hp_parallelism (h_params H))"
  using that
  by (simp add: hash_password_def within_bound_eq busy_def hash_bytes_def id_key_def rand_read_def prog_defs
      count_hash_def sample_argon2_def del: upt_Suc upt_rec_numeral sample_env_simps(7))

theorem hash_then_verify_witness:
  "\<exists>enc w'. hash_password (sample_hasher 0) ''secret pw'' sample_env (world_of empty_db) = (Inr enc, w')
     \<and> fst (verify (sample_hasher 0) ''secret pw'' enc sample_env (world_of empty_db)) = Inr (True, False)"
proof -
  obtain enc w' where run: "hash_password (sample_hasher 0) ''secret pw'' sample_env (world_of empty_db) = (Inr enc, w')"
    using sample_hash_run [of "sample_hasher 0" "''secret pw''" empty_db] by auto
  have "envelope (h_params (sample_hasher 0))"
    by (simp add: envelope_def sample_hasher_def params_defaults_def)
  from hash_then_verify [OF run sample_argon2_ok this] run show ?thesis
    by (auto simp: busy_def sample_hasher_def)
qed

theorem hasher_outside_envelope_witness:
  "\<exists>H w1 enc w3. new_hasher 4 \<lparr>hp_memory = 0, hp_time = 0, hp_parallelism = 0, hp_salt_len = 4,
        hp_key_len = 0\<rparr> 0 sample_env (world_of empty_db) = (Inr H, w1)
     \<and> hash_password H ''secret pw'' sample_env (world_of empty_db) = (Inr enc, w3)
     \<and> (\<exists>e. fst (verify H ''secret pw'' enc sample_env (world_of empty_db)) = Inl e)"
proof -
  let ?p = "\<lparr>hp_memory = 0, hp_time = 0, hp_parallelism = 0, hp_salt_len = 4, hp_key_len = 0\<rparr>"
  obtain H w1 where H: "new_hasher 4 ?p 0 sample_env (world_of empty_db) = (Inr H, w1)"
    and par: "h_params H = params_defaults ?p" "h_limit H = 4"
    by (simp add: new_hasher_def Let_def rand_read_def hash_bytes_def id_key_def prog_defs count_hash_def
        sample_argon2_def params_defaults_def del: upt_Suc upt_rec_numeral sample_env_simps(7))
  obtain enc w3 where run: "hash_password H ''secret pw'' sample_env (world_of empty_db) = (Inr enc, w3)"
    using sample_hash_run [of H "''secret pw''" empty_db] par by (auto simp: params_defaults_def)
  have "\<not> envelope (params_defaults ?p)"
    by (simp add: envelope_def params_defaults_def)
  from hasher_outside_envelope [OF H sample_argon2_ok this run] H run show ?thesis by blast
qed

end
