(* ===== verification/Backoff.thy ===== *)
theory Backoff
  imports Authn_Sql
begin

text \<open>
  The reject-until windows of \<open>authn/backoff.go\<close>, in microseconds, and the scan over the
  counters that \<open>checkBackoff\<close> does with them.
\<close>

definition userFreeFailures :: int where "userFreeFailures = 1"
definition ipFreeFailures :: int where "ipFreeFailures = 10"
definition suspiciousFailures :: int where "suspiciousFailures = 3"
definition maxDelay :: int where "maxDelay = 30 * 1000000"

definition delay_for :: "string \<Rightarrow> int \<Rightarrow> int" where
  "delay_for scope failures =
     (let free = (if scope = ''ip'' then ipFreeFailures else userFreeFailures);
          over = failures - free in
      if over \<le> 0 then 0
      else if 5 < over then maxDelay
      else let d = 1000000 * 2 ^ nat (over - 1) in if maxDelay < d then maxDelay else d)"

text \<open>
  The rows in the order the database returns them: the user failures seen, and the first
  counter whose window is still open.
\<close>

fun scan_counters :: "int \<Rightarrow> (string \<times> int \<times> int) list \<Rightarrow> int \<times> (string \<times> int) option" where
  "scan_counters seen [] = (seen, None)"
| "scan_counters seen ((scope, failures, age) # rows) =
     (let seen' = (if scope = ''user'' then failures else seen);
          wait = delay_for scope failures in
      if 0 < wait \<and> age < wait then (seen', Some (scope, failures))
      else scan_counters seen' rows)"

lemmas backoff_consts = userFreeFailures_def ipFreeFailures_def suspiciousFailures_def maxDelay_def

lemma delay_small: "over \<in> {1..5} \<Longrightarrow> (1000000 :: int) * 2 ^ nat (over - 1) \<le> maxDelay"
proof -
  assume "over \<in> {1..5}"
  then have "(2 :: int) ^ nat (over - 1) \<le> 2 ^ 4"
    by (intro power_increasing) auto
  then show ?thesis by (simp add: maxDelay_def)
qed

text \<open>Nothing within the free allowance, then a second doubled each time, never past the cap.\<close>

lemma delay_for_curve:
  assumes "free = (if scope = ''ip'' then 10 else 1)"
  shows "delay_for scope failures =
    (if failures \<le> free then 0 else min (30 * 1000000) (1000000 * 2 ^ nat (failures - free - 1)))"
proof (cases "failures \<le> free + 5")
  case True
  then show ?thesis
    using delay_small [of "failures - free"] assms
    by (auto simp: delay_for_def backoff_consts Let_def min_def)
next
  case False
  then have "(2 :: int) ^ 5 \<le> 2 ^ nat (failures - free - 1)"
    by (intro power_increasing) auto
  with False assms show ?thesis
    by (auto simp: delay_for_def backoff_consts Let_def min_def)
qed

lemma delay_for_mono:
  assumes "m \<le> n"
  shows "delay_for scope m \<le> delay_for scope n"
proof -
  define free :: int where "free = (if scope = ''ip'' then 10 else 1)"
  have "(2 :: int) ^ nat (m - free - 1) \<le> 2 ^ nat (n - free - 1)"
    using assms by (intro power_increasing) auto
  then show ?thesis
    using assms unfolding delay_for_curve [OF free_def] by (auto simp: min_def simp del: power_increasing_iff)
qed

lemma scan_counters_open:
  "snd (scan_counters seen rows) \<noteq> None \<longleftrightarrow>
     (\<exists>(scope, failures, age) \<in> set rows. age < delay_for scope failures \<and> 0 < delay_for scope failures)"
  by (induction seen rows rule: scan_counters.induct) (auto simp: Let_def split: if_splits)

text \<open>The reject-until window: nothing within the free allowance (one failure per address, ten
  per IP), then one second doubled by each further failure, capped at thirty seconds, however
  large the counter grows.\<close>

theorem backoff_curve:
  "delay_for scope failures =
     (let free = (if scope = ''ip'' then 10 else 1) in
      if failures \<le> free then 0 else min (30 * 1000000) (1000000 * 2 ^ nat (failures - free - 1)))"
  by (simp add: Let_def delay_for_curve [OF HOL.refl])

end
