(* ===== verification/Histories.thy ===== *)
theory Histories
  imports Schedule
begin

text \<open>
  What the rows of each table may become under any schedule: sessions keep their identity
  and deadline and never come back to life, an emailed token is redeemed once, failure
  counts fall only by a reset, a vault keeps its salt and counts its versions.
\<close>

text \<open>A relation every admitted statement keeps between a row then and some row now.\<close>

lemma schedule_row:
  assumes "schedule U t d xs t' d'" and "r \<in> set (tab d)" and "list_all ok xs" and "P r r"
    and "\<And>x now uid d d' q. ok x \<Longrightarrow> apply_op U x now uid d = Some d' \<Longrightarrow> q \<in> set (tab d) \<Longrightarrow> P r q
           \<Longrightarrow> \<exists>q' \<in> set (tab d'). P r q'"
  shows "\<exists>r' \<in> set (tab d'). P r r'"
  by (rule schedule_invariant [OF assms(1), where ok = ok and I = "\<lambda>_ d. \<exists>r' \<in> set (tab d). P r r'"])
    (use assms in blast)+

section \<open>Sessions\<close>

text \<open>How one statement may change one session row.\<close>

definition session_step :: "op \<Rightarrow> int \<Rightarrow> session_row \<Rightarrow> session_row \<Rightarrow> bool" where
  "session_step x now s s' \<longleftrightarrow> same_session s s' \<and> no_resurrection now s s'
     \<and> (s_mfa s' = s_mfa s \<or> x = Record_mfa (s_id s) (s_user s) \<and> live_session now s)
     \<and> (s_token s' = s_token s \<or> (\<exists>h i. x = Rotate h i (s_id s) \<and> s_token s' = h))
     \<and> (s_revoked s' = s_revoked s \<or> x = Revoke (s_id s) \<or> x = Revoke_all (s_user s))"

lemma session_step_refl: "session_step x now s s"
  by (simp add: session_step_def)

lemma update_where_step:
  assumes "s \<in> set t" and "\<And>s. s \<in> set t \<Longrightarrow> p s \<Longrightarrow> session_step x now s (f s)"
  shows "\<exists>s' \<in> set (update_where p f t). session_step x now s s'"
proof -
  have "(if p s then f s else s) \<in> set (update_where p f t)"
    using assms(1) by (auto simp: set_update_where)
  then show ?thesis
    using assms session_step_refl by (metis (full_types))
qed

lemma apply_op_session:
  assumes "apply_op U x now uid d = Some d'" and "s \<in> set (sessions d)"
  shows "\<exists>s' \<in> set (sessions d'). session_step x now s s'"
proof -
  note step_simps = session_step_def same_session_def no_resurrection_def
  note upd = update_where_step [OF assms(2)]
  show ?thesis
  proof (cases x)
    case (Issue h u i a ua ip)
    with assms show ?thesis
      by (auto simp: issue_sql_def intro!: bexI [where x = s] session_step_refl split: if_splits)
  next
    case (Lookup h i)
    have "\<exists>s' \<in> set (update_where (\<lambda>s. s_token s = h \<and> live_session now s \<and> s_last_seen s < now - seconds 60)
               (touch now i) (sessions d)). session_step x now s s'"
      by (rule upd) (simp add: step_simps)
    with assms(1) Lookup show ?thesis by (auto simp: lookup_sql_def)
  next
    case (Rotate h i sid)
    have "\<exists>s' \<in> set (update_where (\<lambda>s. s_id s = sid \<and> live_session now s)
               (\<lambda>s. touch now i (s\<lparr>s_token := h\<rparr>)) (sessions d)). session_step x now s s'"
      by (rule upd) (simp add: step_simps Rotate)
    with assms(1) Rotate show ?thesis by (auto simp: rotate_sql_def Let_def split: if_splits)
  next
    case (Record_mfa sid u)
    have "\<exists>s' \<in> set (update_where (\<lambda>s. s_id s = sid \<and> s_user s = u \<and> live_session now s)
               (s_mfa_update (\<lambda>_. Some now)) (sessions d)). session_step x now s s'"
      by (rule upd) (simp add: step_simps Record_mfa)
    with assms(1) Record_mfa show ?thesis by (auto simp: record_mfa_sql_def)
  next
    case (Revoke sid)
    have "\<exists>s' \<in> set (update_where (\<lambda>s. s_id s = sid \<and> s_revoked s = None)
               (s_revoked_update (\<lambda>_. Some now)) (sessions d)). session_step x now s s'"
      by (rule upd) (simp add: step_simps Revoke)
    with assms(1) Revoke show ?thesis by (auto simp: revoke_sql_def)
  next
    case (Revoke_all u)
    have "\<exists>s' \<in> set (update_where (\<lambda>s. s_user s = u \<and> s_revoked s = None)
               (s_revoked_update (\<lambda>_. Some now)) (sessions d)). session_step x now s s'"
      by (rule upd) (simp add: step_simps Revoke_all)
    with assms(1) Revoke_all show ?thesis by (auto simp: revoke_all_sql_def)
  qed (use assms in \<open>auto simp: other_writes
      intro!: bexI [where x = s] session_step_refl split: if_splits option.splits\<close>)
qed

lemma session_step_dead:
  assumes "session_step x now s s'" and "\<not> live_session now s"
  shows "\<not> live_session now s'" and "s_token s' = s_token s" and "s_mfa s' = s_mfa s"
  using assms by (auto simp: session_step_def no_resurrection_def same_session_def live_session_def)

lemma live_session_earlier: "live_session t' s \<Longrightarrow> t \<le> t' \<Longrightarrow> live_session t s"
  by (simp add: live_session_def)

text \<open>Along a schedule a session row keeps id, owner, creation time and absolute deadline.\<close>

lemma schedule_session:
  assumes "schedule U t d xs t' d'" and "s \<in> set (sessions d)"
  shows "\<exists>s' \<in> set (sessions d'). same_session s s'"
proof (rule schedule_row [where tab = sessions and ok = "\<lambda>_. True", OF assms])
  fix x now uid d d' q
  assume "apply_op U x now uid d = Some d'" and "q \<in> set (sessions d)" and "same_session s q"
  then show "\<exists>q' \<in> set (sessions d'). same_session s q'"
    by (meson apply_op_session same_session_trans session_step_def)
qed (simp_all add: list_all_iff)

text \<open>A dead session stays dead, and its row keeps the token it died with.\<close>

lemma schedule_dead:
  assumes "schedule U t d xs t' d'" and "s \<in> set (sessions d)" and "\<not> live_session t s"
  shows "\<exists>s' \<in> set (sessions d'). s_token s' = s_token s \<and> s_id s' = s_id s \<and> \<not> live_session t' s'"
proof (rule schedule_invariant [OF assms(1), where ok = "\<lambda>_. True" and
      I = "\<lambda>t d. \<exists>s' \<in> set (sessions d). s_token s' = s_token s \<and> s_id s' = s_id s \<and> \<not> live_session t s'"])
  fix x now uid d d'
  assume "\<exists>s' \<in> set (sessions d). s_token s' = s_token s \<and> s_id s' = s_id s \<and> \<not> live_session now s'"
    and "apply_op U x now uid d = Some d'"
  then obtain s1 s' where "s_token s1 = s_token s" "s_id s1 = s_id s" "\<not> live_session now s1"
    "s' \<in> set (sessions d')" "session_step x now s1 s'"
    by (meson apply_op_session)
  then show "\<exists>s' \<in> set (sessions d'). s_token s' = s_token s \<and> s_id s' = s_id s \<and> \<not> live_session now s'"
    using session_step_dead by (metis same_session_def session_step_def)
qed (use assms in \<open>auto simp: list_all_iff dest: live_session_earlier\<close>)

text \<open>The token of a dead session resolves to nobody: its hash is taken by the dead row.\<close>

lemma dead_token_lookup:
  assumes "wf_sessions d" and "s \<in> set (sessions d)" and "\<not> live_session now s"
  shows "lookup_rows (s_token s) now d = []"
  using assms by (auto simp: lookup_rows_empty wf_sessions_def dest: distinct_key_eq [where k = s_token])

text \<open>A token hash nobody holds appears only by an issue or a rotation that mints it.\<close>

fun mints :: "byte list \<Rightarrow> op \<Rightarrow> bool" where
  "mints h (Issue h' u i a ua ip) \<longleftrightarrow> h' = h"
| "mints h (Rotate h' i s) \<longleftrightarrow> h' = h"
| "mints h _ \<longleftrightarrow> False"

lemma apply_op_unheld:
  assumes "apply_op U x now uid d = Some d'" and "\<not> mints h x" and "h \<notin> s_token ` set (sessions d)"
  shows "h \<notin> s_token ` set (sessions d')"
proof (cases x)
  case (Issue h' u i a ua ip)
  with assms show ?thesis by (auto simp: issue_sql_def split: if_splits)
next
  case (Rotate h' i sid)
  with assms show ?thesis by (auto simp: rotate_sql_def Let_def set_update_where split: if_splits)
qed (use assms in \<open>auto simp: lookup_sql_def record_mfa_sql_def revoke_sql_def revoke_all_sql_def
      set_update_where other_writes
      split: if_splits option.splits\<close>)

lemma schedule_unheld:
  assumes "schedule U t d xs t' d'" and "list_all (\<lambda>x. \<not> mints h x) xs"
    and "h \<notin> s_token ` set (sessions d)"
  shows "h \<notin> s_token ` set (sessions d')"
  by (rule schedule_invariant [OF assms(1), where ok = "\<lambda>x. \<not> mints h x" and
        I = "\<lambda>_ d. h \<notin> s_token ` set (sessions d)"])
    (use assms in \<open>auto dest: apply_op_unheld\<close>)

lemma unheld_lookup: "h \<notin> s_token ` set (sessions d) \<Longrightarrow> lookup_rows h now d = []"
  by (auto simp: lookup_rows_empty)

text \<open>Only a recorded factor on both ids moves mfa_at.\<close>

lemma schedule_mfa:
  assumes "schedule U t d xs t' d'" and "s \<in> set (sessions d)"
    and "list_all (\<lambda>x. x \<noteq> Record_mfa (s_id s) (s_user s)) xs"
  shows "\<exists>s' \<in> set (sessions d'). same_session s s' \<and> s_mfa s' = s_mfa s"
proof (rule schedule_row [where tab = sessions and ok = "\<lambda>x. x \<noteq> Record_mfa (s_id s) (s_user s)", OF assms(1,2)])
  fix x now uid d d' q
  assume x: "x \<noteq> Record_mfa (s_id s) (s_user s)" and q: "same_session s q \<and> s_mfa q = s_mfa s"
    and "apply_op U x now uid d = Some d'" and "q \<in> set (sessions d)"
  then obtain s' where s': "s' \<in> set (sessions d')" "session_step x now q s'"
    by (meson apply_op_session)
  then have "same_session s s' \<and> s_mfa s' = s_mfa s"
    using x q by (auto simp: session_step_def same_session_def)
  with s'(1) show "\<exists>s' \<in> set (sessions d'). same_session s s' \<and> s_mfa s' = s_mfa s"
    by blast
qed (use assms(3) in simp_all)

section \<open>Emailed tokens\<close>

text \<open>No row redeems this hash for this purpose, now or later.\<close>

definition spent :: "byte list \<Rightarrow> string \<Rightarrow> int \<Rightarrow> database \<Rightarrow> bool" where
  "spent h p now d \<longleftrightarrow> list_all (\<lambda>t. \<not> redeemable h p now t) (tokens d)"

fun reissues :: "byte list \<Rightarrow> op \<Rightarrow> bool" where
  "reissues h (Insert_token h' u p ttl) \<longleftrightarrow> h' = h"
| "reissues h _ \<longleftrightarrow> False"

lemma spent_later: "spent h p now d \<Longrightarrow> now \<le> later \<Longrightarrow> spent h p later d"
  by (auto simp: spent_def list_all_iff redeemable_def)

lemma apply_op_spent:
  assumes "apply_op U x now uid d = Some d'" and "\<not> reissues h x" and "spent h p now d"
  shows "spent h p now d'"
proof (cases x)
  case (Consume h' p')
  with assms show ?thesis
    by (auto simp: consume_token_sql_def spent_def list_all_iff set_update_where redeemable_def) fastforce+
next
  case (Insert_token h' u p' ttl)
  with assms show ?thesis
    by (auto simp: insert_token_sql_def spent_def list_all_iff set_update_where redeemable_def split: if_splits) fastforce+
qed (use assms in \<open>auto simp: session_writes other_writes spent_def split: if_splits option.splits\<close>)

lemma schedule_spent:
  assumes "schedule U t d xs t' d'" and "list_all (\<lambda>x. \<not> reissues h x) xs" and "spent h p t d"
  shows "spent h p t' d'"
  by (rule schedule_invariant [OF assms(1), where ok = "\<lambda>x. \<not> reissues h x" and I = "\<lambda>t d. spent h p t d"])
    (use assms in \<open>auto intro: spent_later apply_op_spent\<close>)

lemma consume_spends:
  assumes "consume_token_sql h p now uid d = Inr (v, d')"
  shows "spent h p now d'"
proof -
  have "\<not> redeemable h p now (t\<lparr>t_consumed := Some now\<rparr>)" for t
    by (simp add: redeemable_def)
  with assms show ?thesis
    by (auto simp: consume_token_sql_def spent_def list_all_iff set_update_where)
qed

lemma spent_consume: "spent h p now d \<Longrightarrow> \<exists>d'. consume_token_sql h p now uid d = Inr ([], d')"
  by (auto simp: consume_token_sql_def spent_def list_all_iff filter_empty_conv)

text \<open>A row with one purpose is redeemable for no other.\<close>

lemma spent_other_purpose:
  assumes "wf_tokens d" and "r \<in> set (tokens d)" and "p \<noteq> t_purpose r"
  shows "spent (t_hash r) p now d"
proof -
  have "t = r" if "t \<in> set (tokens d)" "t_hash t = t_hash r" for t
    using assms(1,2) that by (auto simp: wf_tokens_def intro: distinct_key_eq [where k = t_hash])
  with assms(3) show ?thesis by (auto simp: spent_def list_all_iff redeemable_def)
qed

section \<open>Failure counts\<close>

fun resets_counter :: "string \<Rightarrow> string \<Rightarrow> op \<Rightarrow> bool" where
  "resets_counter scope key (Reset_attempts e ip) \<longleftrightarrow>
     scope = ''user'' \<and> key = e \<or> scope = ''ip'' \<and> key = ip"
| "resets_counter scope key _ \<longleftrightarrow> False"

lemma failure_count_cong: "attempts d' = attempts d \<Longrightarrow> failure_count d' s k = failure_count d s k"
  by (simp add: failure_count_def)

lemma failure_count_bump:
  "failure_count (d\<lparr>attempts := bump_attempt now scope key t\<rparr>) s k =
     failure_count (d\<lparr>attempts := t\<rparr>) s k + (if (s, k) = (scope, key) then 1 else 0)"
proof (cases "(s, k) = (scope, key)")
  case True
  then show ?thesis
    unfolding failure_count_def by (simp add: find_bump_same split: option.split)
next
  case False
  then show ?thesis unfolding failure_count_def by (simp add: find_bump_other)
qed

lemma find_filter_other:
  "(\<And>r. q r \<Longrightarrow> p r) \<Longrightarrow> find q (filter p t) = find q t"
  by (induction t) auto

lemma apply_op_failures:
  assumes "apply_op U x now uid d = Some d'" and "\<not> resets_counter s k x"
  shows "failure_count d s k \<le> failure_count d' s k"
proof (cases x)
  case (Record_both e ip)
  with assms(1) have d': "d' = (d\<lparr>attempts := bump_attempt now ''user'' e (attempts d)\<rparr>)
       \<lparr>attempts := bump_attempt now ''ip'' ip (bump_attempt now ''user'' e (attempts d))\<rparr>"
    by (auto simp: record_both_sql_def split: if_splits)
  show ?thesis
    unfolding d' failure_count_bump by (simp add: failure_count_bump)
next
  case (Record_user e)
  with assms(1) have d': "d' = d\<lparr>attempts := bump_attempt now ''user'' e (attempts d)\<rparr>"
    by (auto simp: record_user_sql_def split: if_splits)
  show ?thesis
    unfolding d' failure_count_bump by simp
next
  case (Reset_attempts e ip)
  with assms have "find (\<lambda>a. a_scope a = s \<and> a_key a = k) (attempts d')
      = find (\<lambda>a. a_scope a = s \<and> a_key a = k) (attempts d)"
    by (auto simp: reset_attempts_sql_def attempt_hit_def intro!: find_filter_other)
  then show ?thesis by (simp add: failure_count_def)
qed (use assms in \<open>auto simp: session_writes other_writes failure_count_def split: if_splits option.splits\<close>)

lemma schedule_failures:
  assumes "schedule U t d xs t' d'" and "list_all (\<lambda>x. \<not> resets_counter s k x) xs"
  shows "failure_count d s k \<le> failure_count d' s k"
  by (rule schedule_invariant [OF assms(1), where ok = "\<lambda>x. \<not> resets_counter s k x" and
        I = "\<lambda>_ d'. failure_count d s k \<le> failure_count d' s k"])
    (use assms(2) in \<open>auto dest: apply_op_failures\<close>)

section \<open>Vaults\<close>

text \<open>
  A vault row later on: the same salt, a version that has not gone down, and the very same
  row when the version has not gone up.
\<close>

definition vault_later :: "vault_row \<Rightarrow> vault_row \<Rightarrow> bool" where
  "vault_later v v' \<longleftrightarrow> v_user v' = v_user v \<and> v_salt v' = v_salt v
     \<and> v_version v \<le> v_version v' \<and> (v_version v' = v_version v \<longrightarrow> v' = v)"

lemma apply_op_vault:
  assumes "apply_op U x now uid d = Some d'" and "x \<noteq> Delete_vault (v_user v)" and "v \<in> set (vaults d)"
  shows "\<exists>v' \<in> set (vaults d'). vault_later v v'"
proof (cases x)
  case (Put_vault k s m i w r u n)
  have upd: "\<exists>v' \<in> set (update_where p (overwrite_vault new) (vaults d)). vault_later v v'" for p new
  proof -
    have "(if p v then overwrite_vault new v else v) \<in> set (update_where p (overwrite_vault new) (vaults d))"
      using assms(3) by (auto simp: set_update_where)
    then show ?thesis
      by (rule bexI [rotated]) (simp add: vault_later_def overwrite_vault_def)
  qed
  from assms Put_vault upd show ?thesis
    by (auto simp: put_vault_sql_def Let_def vault_later_def split: if_splits option.splits)
next
  case (Delete_vault u)
  with assms show ?thesis by (auto simp: delete_vault_sql_def vault_later_def)
qed (use assms in \<open>auto simp: session_writes other_writes intro!: bexI [where x = v]
      split: if_splits option.splits, auto simp: vault_later_def\<close>)

lemma vault_later_trans: "vault_later a b \<Longrightarrow> vault_later b c \<Longrightarrow> vault_later a c"
  by (auto simp: vault_later_def)

lemma schedule_vault:
  assumes "schedule U t d xs t' d'" and "v \<in> set (vaults d)"
    and "list_all (\<lambda>x. x \<noteq> Delete_vault (v_user v)) xs"
  shows "\<exists>v' \<in> set (vaults d'). vault_later v v'"
proof (rule schedule_row [where tab = vaults, OF assms])
  fix x now uid d d' q
  assume "x \<noteq> Delete_vault (v_user v)" and "apply_op U x now uid d = Some d'"
    and q: "q \<in> set (vaults d)" and later: "vault_later v q"
  then obtain q' where "q' \<in> set (vaults d')" and "vault_later q q'"
    using apply_op_vault [of U x now uid d d' q] by (auto simp: vault_later_def [of v])
  with later show "\<exists>q' \<in> set (vaults d'). vault_later v q'"
    by (blast intro: vault_later_trans)
qed (simp add: vault_later_def)

end
