(* ===== verification/Go_Net.thy ===== *)
theory Go_Net
  imports Go_Strings
begin

text \<open>
  What kal uses of Go's \<open>net\<close>: \<open>ParseIP\<close>, the \<open>String\<close> and \<open>IsLoopback\<close> methods of an IP,
  and \<open>SplitHostPort\<close>. An address is its 16 bytes; a dotted one is the IPv4-mapped form.
\<close>

section \<open>Parsing an address\<close>

type_synonym ip = "nat list"

definition parse_octet :: "string \<Rightarrow> nat option" where
  "parse_octet s =
     (if s \<noteq> [] \<and> list_all is_digit s \<and> (length s = 1 \<or> hd s \<noteq> CHR ''0'') \<and> number_of s \<le> 255
      then Some (number_of s) else None)"

definition parse_ipv4 :: "string \<Rightarrow> nat list option" where
  "parse_ipv4 s =
     (case map parse_octet (split_on CHR ''.'' s) of
        [Some a, Some b, Some c, Some d] \<Rightarrow> Some [a, b, c, d]
      | _ \<Rightarrow> None)"

definition hex_val :: "char \<Rightarrow> nat option" where
  "hex_val c = (if is_digit c then Some (code c - 48)
     else if 97 \<le> code c \<and> code c \<le> 102 then Some (code c - 87)
     else if 65 \<le> code c \<and> code c \<le> 70 then Some (code c - 55) else None)"

definition hex_number :: "string \<Rightarrow> nat" where
  "hex_number s = foldl (\<lambda>v c. 16 * v + (case hex_val c of None \<Rightarrow> 0 | Some d \<Rightarrow> d)) 0 s"

text \<open>
  The groups of an IPv6 address: the bytes read so far, where the \<open>::\<close> was, the input left.
  At most eight groups, or six and a dotted quad.
\<close>

function v6_groups :: "nat list \<Rightarrow> nat option \<Rightarrow> string \<Rightarrow> (nat list \<times> nat option) option" where
  "v6_groups bs ell s =
     (if 16 \<le> length bs then (if s = [] then Some (bs, ell) else None)
      else
        let h = takeWhile (\<lambda>c. hex_val c \<noteq> None) s; r = dropWhile (\<lambda>c. hex_val c \<noteq> None) s in
        if h = [] \<or> 4 < length h then None
        else if r \<noteq> [] \<and> hd r = CHR ''.'' then
          (if ell = None \<and> length bs \<noteq> 12 \<or> 12 < length bs then None
           else map_option (\<lambda>q. (bs @ q, ell)) (parse_ipv4 s))
        else
          let bs' = bs @ [hex_number h div 256, hex_number h mod 256] in
          (case r of
             [] \<Rightarrow> Some (bs', ell)
           | c # r1 \<Rightarrow>
               if c \<noteq> CHR '':'' then None
               else (case r1 of
                  [] \<Rightarrow> None
                | c1 # r2 \<Rightarrow>
                    if c1 = CHR '':'' then
                      (if ell \<noteq> None then None
                       else if r2 = [] then Some (bs', Some (length bs'))
                       else v6_groups bs' (Some (length bs')) r2)
                    else v6_groups bs' ell r1)))"
  by pat_completeness auto
termination
  by (relation "measure (\<lambda>(bs, ell, s). 16 - length bs)") auto

declare v6_groups.simps [simp del]

definition parse_ipv6 :: "string \<Rightarrow> ip option" where
  "parse_ipv6 s =
     (if s = ''::'' then Some (replicate 16 0)
      else case (if has_prefix s ''::'' then v6_groups [] (Some 0) (drop 2 s) else v6_groups [] None s) of
        None \<Rightarrow> None
      | Some (bs, ell) \<Rightarrow>
          if length bs < 16
          then map_option (\<lambda>e. take e bs @ replicate (16 - length bs) 0 @ drop e bs) ell
          else if ell = None then Some bs else None)"

text \<open>A zone (\<open>%eth0\<close>) makes the address unusable for net.ParseIP.\<close>

definition parse_ip :: "string \<Rightarrow> ip option" where
  "parse_ip s =
     (case dropWhile (\<lambda>c. c \<noteq> CHR ''.'' \<and> c \<noteq> CHR '':'' \<and> c \<noteq> CHR ''%'') s of
        [] \<Rightarrow> None
      | c # _ \<Rightarrow>
          if c = CHR ''.'' then
            map_option (\<lambda>q. replicate 10 0 @ [255, 255] @ q) (parse_ipv4 s)
          else if c = CHR '':'' then (if CHR ''%'' \<in> set s then None else parse_ipv6 s)
          else None)"

section \<open>Printing an address\<close>

definition to4 :: "ip \<Rightarrow> nat list option" where
  "to4 ip = (if take 12 ip = replicate 10 0 @ [255, 255] then Some (drop 12 ip) else None)"

fun groups16 :: "nat list \<Rightarrow> nat list" where
  "groups16 (a # b # r) = (256 * a + b) # groups16 r"
| "groups16 _ = []"

fun hex_text :: "nat \<Rightarrow> string" where
  "hex_text n = (if n < 16 then [hex_digit n] else hex_text (n div 16) @ [hex_digit (n mod 16)])"

declare hex_text.simps [simp del]

text \<open>The leftmost longest run of zero groups, if one has two groups or more.\<close>

definition zero_run :: "nat list \<Rightarrow> nat \<Rightarrow> nat" where
  "zero_run gs i = length (takeWhile (\<lambda>g. g = 0) (drop i gs))"

definition zero_gap :: "nat list \<Rightarrow> (nat \<times> nat) option" where
  "zero_gap gs = foldl (\<lambda>best i.
       if 2 \<le> zero_run gs i \<and> (case best of None \<Rightarrow> True | Some (j, l) \<Rightarrow> l < zero_run gs i)
       then Some (i, zero_run gs i) else best) None [0..<length gs]"

definition ip_string :: "ip \<Rightarrow> string" where
  "ip_string ip =
     (case to4 ip of
        Some q \<Rightarrow> join ''.'' (map itoa q)
      | None \<Rightarrow>
          (let gs = groups16 ip in
           case zero_gap gs of
             None \<Rightarrow> join '':'' (map hex_text gs)
           | Some (i, l) \<Rightarrow> join '':'' (map hex_text (take i gs)) @ ''::''
                             @ join '':'' (map hex_text (drop (i + l) gs))))"

definition is_loopback_ip :: "ip \<Rightarrow> bool" where
  "is_loopback_ip ip =
     (case to4 ip of Some q \<Rightarrow> hd q = 127 | None \<Rightarrow> ip = replicate 15 0 @ [1])"

section \<open>Host and port\<close>

definition last_index :: "char \<Rightarrow> string \<Rightarrow> nat option" where
  "last_index c s = (if c \<in> set s then Some (length s - 1 - length (takeWhile (\<lambda>x. x \<noteq> c) (rev s))) else None)"

text \<open>The host of \<open>host:port\<close>; \<open>None\<close> is an error.\<close>

definition split_host :: "string \<Rightarrow> string option" where
  "split_host hp =
     (case last_index CHR '':'' hp of
        None \<Rightarrow> None
      | Some i \<Rightarrow>
          if has_prefix hp ''['' then
            (case dropWhile (\<lambda>c. c \<noteq> CHR '']'') hp of
               [] \<Rightarrow> None
             | _ # rest \<Rightarrow>
                 let e = length hp - length rest - 1 in
                 if e + 1 = i \<and> CHR ''['' \<notin> set (drop 1 hp) \<and> CHR '']'' \<notin> set (drop (e + 1) hp)
                 then Some (take (e - 1) (drop 1 hp)) else None)
          else
            let host = take i hp in
            if CHR '':'' \<in> set host \<or> CHR ''['' \<in> set hp \<or> CHR '']'' \<in> set hp then None
            else Some host)"

lemma parse_ipv4_length: "parse_ipv4 s = Some q \<Longrightarrow> length q = 4"
  by (auto simp: parse_ipv4_def split: list.splits option.splits)

lemma length_to4_mapped [simp]: "to4 (replicate 10 0 @ [255, 255] @ q) = Some q"
  by (simp add: to4_def)

end
