(* ===== verification/Session_Store.thy ===== *)
theory Session_Store
  imports Histories Principal Base64 Go_Net Samples
begin

text \<open>
  \<open>session/session.go\<close> with \<open>token.go\<close>, \<open>cookie.go\<close> and the \<open>SetCookie\<close> of \<open>jar.go\<close>:
  issuing, resolving, rotating and revoking sessions. \<open>resolve\<close> is the abstract
  specification, the principal a token stands for in given tables at a given time; the
  operations are proved against it.
\<close>

section \<open>Tokens and cookies\<close>

definition hash_token :: "string \<Rightarrow> byte list" where
  "hash_token token = sha256 (bytes_of token)"

definition new_token :: "(string \<times> byte list) prog" where
  "new_token = tryM (rand_read 32) (\<lambda>raw.
     let token = b64_encode url_alphabet raw in ret (token, hash_token token))"

definition DefaultCookieName :: string where
  "DefaultCookieName = ''__Host-kal_session''"

definition session_cookie :: "string \<Rightarrow> string \<Rightarrow> cookie" where
  "session_cookie name token =
     \<lparr>ck_name = name, ck_value = token, ck_path = ''/'', ck_secure = True, ck_http_only = True,
      ck_same_site = SameSiteLax, ck_max_age = 0\<rparr>"

definition clear_cookie :: "string \<Rightarrow> cookie" where
  "clear_cookie name = (session_cookie name [])\<lparr>ck_max_age := -1\<rparr>"

definition set_cookie :: "ctx \<Rightarrow> cookie \<Rightarrow> unit prog" where
  "set_cookie c k =
     (if cx_jar c then add_cookie k
      else fail (Text (''session: middleware not mounted '' @ em_dash
                       @ '' SetCookie has no response to attach to'')))"

section \<open>Construction\<close>

definition hours :: "int \<Rightarrow> int" where
  "hours n = n * seconds 3600"

definition DefaultIdle :: int where
  "DefaultIdle = hours 12"

definition DefaultAbsolute :: int where
  "DefaultAbsolute = hours (14 * 24)"

text \<open>The hook itself is the world's trail; here only whether one is configured.\<close>

record session_options =
  so_idle :: int
  so_absolute :: int
  so_schema :: string
  so_audit :: bool

record sessions_cfg =
  ss_idle :: int
  ss_absolute :: int
  ss_audit :: bool
  ss_prefix :: string

definition new_sessions :: "(string \<Rightarrow> string) \<Rightarrow> session_options \<Rightarrow> goerr + sessions_cfg" where
  "new_sessions append_ident opts =
     (let idle = (if so_idle opts = 0 then DefaultIdle else so_idle opts);
          absolute = (if so_absolute opts = 0 then DefaultAbsolute else so_absolute opts) in
      if absolute < idle
      then Inl (invalid_input ''session absolute lifetime must not be shorter than the idle timeout'')
      else case schema_prefix append_ident (so_schema opts) of
             None \<Rightarrow> Inl schema_error
           | Some p \<Rightarrow> Inr \<lparr>ss_idle = idle, ss_absolute = absolute, ss_audit = so_audit opts, ss_prefix = p\<rparr>)"

section \<open>Operations\<close>

definition some_text :: "string \<Rightarrow> string option" where
  "some_text s = (if s = [] then None else Some s)"

definition issue :: "sessions_cfg \<Rightarrow> string \<Rightarrow> meta \<Rightarrow> string prog" where
  "issue S user mt = tryM new_token (\<lambda>(token, hash).
     tryM (query_one (issue_sql hash user (ss_idle S) (ss_absolute S)
                        (some_text (mt_user_agent mt)) (map_option ip_string (parse_ip (mt_ip mt)))))
       (\<lambda>sid. ret token))"

definition principal_of :: "lookup_row \<Rightarrow> principal" where
  "principal_of row = (case row of (sid, user, created, mfa, email, verified, held) \<Rightarrow>
     \<lparr>p_user = user, p_session = sid, p_roles = sort held, p_auth_at = created, p_mfa_at = mfa,
      p_email = email, p_verified = verified\<rparr>)"

definition lookup :: "sessions_cfg \<Rightarrow> string \<Rightarrow> principal option prog" where
  "lookup S token = bindM (query_one (lookup_sql (hash_token token) (ss_idle S))) (\<lambda>r.
     case r of
       Inl e \<Rightarrow> if is_no_rows e then ret None else fail e
     | Inr row \<Rightarrow> ret (Some (principal_of row)))"

definition session_gone :: "goerr \<Rightarrow> goerr" where
  "session_gone e = KalErr CodeUnauthenticated ''session is no longer valid'' (Some e)"

definition rotate :: "sessions_cfg \<Rightarrow> string \<Rightarrow> string prog" where
  "rotate S sid = tryM new_token (\<lambda>(token, hash).
     bindM (query_one (rotate_sql hash (ss_idle S) sid)) (\<lambda>r.
       case r of
         Inl e \<Rightarrow> fail (if is_no_rows e then session_gone e else e)
       | Inr user \<Rightarrow> ret token))"

definition record_mfa :: "string \<Rightarrow> string \<Rightarrow> unit prog" where
  "record_mfa sid user = bindM (query_one (record_mfa_sql sid user)) (\<lambda>r.
     case r of
       Inl e \<Rightarrow> fail (if is_no_rows e then session_gone e else e)
     | Inr i \<Rightarrow> ret ())"

definition no_event :: event where
  "no_event = \<lparr>ev_kind = [], ev_user = [], ev_email = [], ev_ip = [], ev_at = 0, ev_detail = []\<rparr>"

definition revoke :: "sessions_cfg \<Rightarrow> string \<Rightarrow> unit prog" where
  "revoke S sid = tryM (exec (revoke_sql sid)) (\<lambda>n.
     if 0 < n then emit (ss_audit S) (no_event\<lparr>ev_kind := ''session.revoked'',
                      ev_detail := [(''session_id'', sid), (''scope'', ''one'')]\<rparr>)
     else ret ())"

definition revoke_all_for_user :: "sessions_cfg \<Rightarrow> string \<Rightarrow> unit prog" where
  "revoke_all_for_user S user = tryM (exec (revoke_all_sql user)) (\<lambda>n.
     if 0 < n then emit (ss_audit S) (no_event\<lparr>ev_kind := ''session.revoked'', ev_user := user,
                      ev_detail := [(''scope'', ''all''), (''count'', itoa n)]\<rparr>)
     else ret ())"

record session_info =
  si_id :: string
  si_created :: int
  si_last_seen :: int
  si_user_agent :: string
  si_ip :: string
  si_mfa_at :: "int option"

definition info_of :: "session_row \<Rightarrow> session_info" where
  "info_of s = \<lparr>si_id = s_id s, si_created = s_created s, si_last_seen = s_last_seen s,
     si_user_agent = (case s_ua s of None \<Rightarrow> [] | Some x \<Rightarrow> x),
     si_ip = (case s_ip s of None \<Rightarrow> [] | Some x \<Rightarrow> x), si_mfa_at = s_mfa s\<rparr>"

definition list_sessions :: "string \<Rightarrow> session_info list prog" where
  "list_sessions user = tryM (exec (list_sql user)) (\<lambda>rows. ret (map info_of rows))"

lemmas session_ops =
  new_token_def issue_def lookup_def rotate_def record_mfa_def revoke_def revoke_all_for_user_def
  list_sessions_def

section \<open>Each operation is statements of its own\<close>

lemma via_new_token [guar]: "keeps (via ok) E new_token"
  unfolding new_token_def by (intro via.keeps_rules guar)

lemma via_issue [guar]:
  assumes "\<And>h i a ua ip. ok (Issue h user i a ua ip)"
  shows "keeps (via ok) E (issue S user mt)"
  unfolding issue_def by (intro via.keeps_rules guar assms)

lemma via_lookup [guar]: "(\<And>h i. ok (Lookup h i)) \<Longrightarrow> keeps (via ok) E (lookup S token)"
  unfolding lookup_def by (intro via.keeps_rules guar)

lemma via_rotate [guar]: "(\<And>h i. ok (Rotate h i sid)) \<Longrightarrow> keeps (via ok) E (rotate S sid)"
  unfolding rotate_def by (intro via.keeps_rules guar)

lemma via_record_mfa [guar]: "ok (Record_mfa sid user) \<Longrightarrow> keeps (via ok) E (record_mfa sid user)"
  unfolding record_mfa_def by (intro via.keeps_rules guar)

lemma via_revoke [guar]: "ok (Revoke sid) \<Longrightarrow> keeps (via ok) E (revoke S sid)"
  unfolding revoke_def by (intro via.keeps_rules guar)

lemma via_revoke_all [guar]: "ok (Revoke_all user) \<Longrightarrow> keeps (via ok) E (revoke_all_for_user S user)"
  unfolding revoke_all_for_user_def by (intro via.keeps_rules guar)

lemma via_list_sessions [guar]: "keeps (via ok) E (list_sessions user)"
  unfolding list_sessions_def by (intro via.keeps_rules guar)

lemma via_set_cookie [guar]: "keeps (via ok) E (set_cookie c k)"
  unfolding set_cookie_def by (intro via.keeps_rules guar)

lemma slots_session [guar]:
  "keeps same_slots E (issue S user mt)" "keeps same_slots E (lookup S token)"
  "keeps same_slots E (rotate S sid)" "keeps same_slots E (record_mfa sid user)"
  "keeps same_slots E (revoke S sid)" "keeps same_slots E (revoke_all_for_user S user)"
  "keeps same_slots E (set_cookie c k)" "keeps same_slots E new_token"
  unfolding session_ops set_cookie_def by (intro slots.keeps_rules guar)+

lemma logs_session [guar]:
  "keeps log_grows E (issue S user mt)" "keeps log_grows E (lookup S token)"
  "keeps log_grows E (rotate S sid)" "keeps log_grows E (record_mfa sid user)"
  "keeps log_grows E (revoke S sid)" "keeps log_grows E (revoke_all_for_user S user)"
  "keeps log_grows E (set_cookie c k)" "keeps log_grows E new_token"
  unfolding session_ops set_cookie_def by (intro logs.keeps_rules guar)+

lemma jars_session [guar]:
  "keeps same_jar E (issue S user mt)" "keeps same_jar E (lookup S token)"
  "keeps same_jar E (rotate S sid)" "keeps same_jar E (record_mfa sid user)"
  "keeps same_jar E (revoke S sid)" "keeps same_jar E (revoke_all_for_user S user)"
  "keeps same_jar E new_token"
  unfolding session_ops by (intro jars.keeps_rules guar)+

section \<open>The specification: whom a token stands for\<close>

definition resolve_row :: "int \<Rightarrow> database \<Rightarrow> string \<Rightarrow> lookup_row option" where
  "resolve_row now d token =
     (case find (\<lambda>s. s_token s = hash_token token) (sessions d) of
        None \<Rightarrow> None
      | Some s \<Rightarrow>
          if \<not> live_session now s then None
          else (case find (\<lambda>u. u_id u = s_user s) (users d) of
                  None \<Rightarrow> None
                | Some u \<Rightarrow> if live_user u
                    then Some (s_id s, s_user s, s_created s, s_mfa s, u_email u, u_verified u,
                               roles_of d (s_user s))
                    else None))"

definition resolve :: "int \<Rightarrow> database \<Rightarrow> string \<Rightarrow> principal option" where
  "resolve now d token = map_option principal_of (resolve_row now d token)"

lemma lookup_rows_resolve:
  assumes "wf_db U d"
  shows "lookup_rows (hash_token token) now d
    = (case resolve_row now d token of None \<Rightarrow> [] | Some r \<Rightarrow> [r])"
proof -
  have s: "filter (\<lambda>s. s_token s = hash_token token \<and> live_session now s) (sessions d)
    = (case find (\<lambda>s. s_token s = hash_token token) (sessions d) of
         None \<Rightarrow> [] | Some s \<Rightarrow> if live_session now s then [s] else [])"
    using assms by (intro find_filter_key) (simp add: wf_db_def wf_sessions_def)
  have u: "filter (\<lambda>u. u_id u = i \<and> live_user u) (users d)
    = (case find (\<lambda>u. u_id u = i) (users d) of
         None \<Rightarrow> [] | Some u \<Rightarrow> if live_user u then [u] else [])" for i
    using assms by (intro find_filter_key) (simp add: wf_db_def wf_users_def)
  show ?thesis
    unfolding lookup_rows_def s u resolve_row_def by (simp split: option.split)
qed

lemma lookup_run:
  assumes "wf_db U (db w)" and "lookup S token E w = (Inr po, w')"
  shows "po = resolve (db_clock E (step w)) (db w) token"
  using assms(2)
  by (auto simp: lookup_def bindM_def query_one_def tryM_def exec_def lookup_sql_def ret_def fail_def
      lift_def lookup_rows_resolve [OF assms(1)] resolve_def
      split: if_splits option.splits sum.splits prod.splits)

text \<open>A dead row, or no row, is nobody.\<close>

lemma resolve_dead:
  assumes "wf_sessions d" and "s \<in> set (sessions d)" and "s_token s = hash_token token"
    and "\<not> live_session now s"
  shows "resolve now d token = None"
  using assms find_key_Some [of s_token "sessions d" s]
  by (auto simp: resolve_def resolve_row_def wf_sessions_def)

lemma resolve_unheld:
  "hash_token token \<notin> s_token ` set (sessions d) \<Longrightarrow> resolve now d token = None"
  by (auto simp: resolve_def resolve_row_def split: option.splits dest!: find_SomeD) (metis rev_image_eqI)

lemma resolve_alive:
  assumes "wf_db U d" and "s \<in> set (sessions d)" and "s_token s = hash_token token"
    and "live_session now s"
  shows "resolve now d token =
    (case find (\<lambda>u. u_id u = s_user s) (users d) of None \<Rightarrow> None
     | Some u \<Rightarrow> if live_user u then Some \<lparr>p_user = s_user s, p_session = s_id s,
         p_roles = sort (roles_of d (s_user s)), p_auth_at = s_created s, p_mfa_at = s_mfa s,
         p_email = u_email u, p_verified = u_verified u\<rparr> else None)"
  using assms find_key_Some [of s_token "sessions d" s]
  by (auto simp: resolve_def resolve_row_def wf_db_def wf_sessions_def principal_of_def split: option.splits)

text \<open>An update of sessions that changes nobody's identity or liveness now.\<close>

lemma resolve_update:
  assumes "\<And>s. s_token (f s) = s_token s" and "\<And>s. s_id (f s) = s_id s" and "\<And>s. s_user (f s) = s_user s"
    and "\<And>s. s_created (f s) = s_created s" and "\<And>s. p s \<Longrightarrow> s_mfa (f s) = s_mfa s"
    and "\<And>s. p s \<Longrightarrow> live_session now (f s) = live_session now s"
  shows "resolve now (d\<lparr>sessions := update_where p f (sessions d)\<rparr>) token = resolve now d token"
  using assms
  by (auto simp: resolve_def resolve_row_def find_update_where_key [where k = s_token] roles_of_def
      split: option.splits)

lemma lookup_db:
  assumes "lookup S token E w = (r, w')"
  shows "db w' = db w \<or> db w' = (db w)\<lparr>sessions := update_where
     (\<lambda>s. s_token s = hash_token token \<and> live_session (db_clock E (step w)) s
        \<and> s_last_seen s < db_clock E (step w) - seconds 60)
     (touch (db_clock E (step w)) (ss_idle S)) (sessions (db w))\<rparr>"
  using assms
  by (auto simp: lookup_def bindM_def query_one_def tryM_def exec_def lookup_sql_def ret_def fail_def
      lift_def split: if_splits sum.splits prod.splits)

text \<open>A lookup disturbs nobody.\<close>

lemma lookup_preserves:
  assumes "lookup S token E w = (r, w')" and "0 < ss_idle S"
  shows "resolve (db_clock E (step w)) (db w') tok = resolve (db_clock E (step w)) (db w) tok"
proof -
  have "resolve now (d\<lparr>sessions := update_where (\<lambda>s. s_token s = h \<and> live_session now s \<and> q s)
          (touch now (ss_idle S)) (sessions d)\<rparr>) tok = resolve now d tok" for now d h q
    by (rule resolve_update) (use assms(2) in \<open>auto simp: live_session_def\<close>)
  from this [where d = "db w"] lookup_db [OF assms(1)] show ?thesis
    by (elim disjE) (simp_all only:)
qed

text \<open>A session that is live now and at a later time is after a lookup still who it was.\<close>

lemma resolve_outlives_lookup:
  assumes "wf_db U (db w)" and "wf_db U (db w')" and l: "lookup S token E w = (r, w')"
    and row: "row \<in> set (sessions (db w))" "s_token row = hash_token token"
    and live: "live_session (db_clock E (step w)) row" "live_session now row"
    and window: "now < db_clock E (step w) + ss_idle S"
  shows "resolve now (db w') token = resolve (db_clock E (step w)) (db w) token"
proof -
  let ?now = "db_clock E (step w)"
  let ?hit = "\<lambda>s. s_token s = hash_token token \<and> live_session ?now s \<and> s_last_seen s < ?now - seconds 60"
  have "\<exists>row' \<in> set (sessions (db w')). s_token row' = hash_token token \<and> live_session now row'
    \<and> s_user row' = s_user row \<and> s_id row' = s_id row \<and> s_created row' = s_created row \<and> s_mfa row' = s_mfa row"
    using lookup_db [OF l]
  proof
    assume "db w' = db w"
    with row live show ?thesis by auto
  next
    assume "db w' = (db w)\<lparr>sessions := update_where ?hit (touch ?now (ss_idle S)) (sessions (db w))\<rparr>"
    with row(1) have "(if ?hit row then touch ?now (ss_idle S) row else row) \<in> set (sessions (db w'))"
      by (auto simp: set_update_where)
    then show ?thesis
      using row(2) live window by (rule_tac bexI) (auto simp: live_session_def)
  qed
  moreover have same: "users (db w') = users (db w)" "roles_of (db w') u = roles_of (db w) u" for u
    using lookup_db [OF l] by (auto simp: roles_of_def)
  ultimately obtain row' where row': "row' \<in> set (sessions (db w'))" "s_token row' = hash_token token"
    "live_session now row'" and cols: "s_user row' = s_user row" "s_id row' = s_id row"
    "s_created row' = s_created row" "s_mfa row' = s_mfa row"
    by blast
  show ?thesis
    unfolding resolve_alive [OF assms(2) row'] resolve_alive [OF assms(1) row live(1)]
    by (simp add: cols same split: option.split)
qed

section \<open>The operations against the specification\<close>

lemma new_token_Inr:
  assumes "new_token E w = (Inr (token, hash), w')"
  shows "hash = hash_token token" and "w' = tick w"
    and "token = b64_encode url_alphabet (map (rand_byte E (step w)) [0..<32])"
  using assms
  by (auto simp: new_token_def tryM_def bindM_def rand_read_def ret_def fail_def Let_def split: if_splits)

lemma issue_Inr:
  assumes "issue S user mt E w = (Inr token, w')"
  obtains row where "s_token row = hash_token token" and "s_user row = user"
    and "s_created row = db_clock E (Suc (step w))"
    and "s_idle_exp row = s_created row + ss_idle S" and "s_exp row = s_created row + ss_absolute S"
    and "s_mfa row = None" and "s_revoked row = None"
    and "s_token row \<notin> s_token ` set (sessions (db w))" and "s_id row \<notin> s_id ` set (sessions (db w))"
    and "has_user (db w) user" and "db w' = (db w)\<lparr>sessions := sessions (db w) @ [row]\<rparr>"
    and "step w' = Suc (Suc (step w))"
proof -
  from assms obtain hash w1 sid where t: "new_token E w = (Inr (token, hash), w1)"
    and q: "query_one (issue_sql hash user (ss_idle S) (ss_absolute S) (some_text (mt_user_agent mt))
                         (map_option ip_string (parse_ip (mt_ip mt)))) E w1 = (Inr sid, w')"
    unfolding issue_def by (elim tryM_Inr) (auto elim!: tryM_Inr simp: ret_def)
  note nt = new_token_Inr [OF t]
  from q obtain d where st: "issue_sql hash user (ss_idle S) (ss_absolute S) (some_text (mt_user_agent mt))
       (map_option ip_string (parse_ip (mt_ip mt))) (db_clock E (step w1)) (new_uuid E (step w1)) (db w1)
       = Inr ([sid], d)" and w': "w' = (tick w1)\<lparr>db := d\<rparr>"
    by (rule query_one_Inr)
  show thesis
    by (rule that [of "\<lparr>s_id = sid, s_token = hash, s_user = user, s_created = db_clock E (step w1),
              s_last_seen = db_clock E (step w1), s_idle_exp = db_clock E (step w1) + ss_idle S,
              s_exp = db_clock E (step w1) + ss_absolute S, s_mfa = None,
              s_ua = some_text (mt_user_agent mt), s_ip = map_option ip_string (parse_ip (mt_ip mt)),
              s_revoked = None\<rparr>"])
      (use st nt w' in \<open>auto simp: issue_sql_def list_ex_iff split: if_splits\<close>)
qed

text \<open>An issued token stands for its user, from then on for the idle window.\<close>

lemma issue_token_ne:
  assumes "issue S user mt E w = (Inr token, w')"
  shows "token \<noteq> []"
proof -
  from assms obtain hash w1 where "new_token E w = (Inr (token, hash), w1)"
    unfolding issue_def by (elim tryM_Inr) (auto elim!: tryM_Inr simp: ret_def)
  from new_token_Inr(3) [OF this] have "length token = 43"
    by (simp only: length_b64_encode length_map length_upt)
  then show ?thesis by auto
qed

lemma issue_resolves:
  assumes "wf_db U (db w)" and "issue S user mt E w = (Inr token, w')"
    and "find (\<lambda>u. u_id u = user) (users (db w)) = Some u" and "live_user u"
    and "now < db_clock E (Suc (step w)) + ss_idle S" and "ss_idle S \<le> ss_absolute S"
  shows "\<exists>sid. resolve now (db w') token = Some \<lparr>p_user = user, p_session = sid,
     p_roles = sort (roles_of (db w) user), p_auth_at = db_clock E (Suc (step w)), p_mfa_at = None,
     p_email = u_email u, p_verified = u_verified u\<rparr>"
proof -
  obtain row where row: "s_token row = hash_token token" "s_user row = user"
    "s_created row = db_clock E (Suc (step w))"
    "s_idle_exp row = s_created row + ss_idle S" "s_exp row = s_created row + ss_absolute S"
    "s_mfa row = None" "s_revoked row = None" "s_token row \<notin> s_token ` set (sessions (db w))"
    and db: "db w' = (db w)\<lparr>sessions := sessions (db w) @ [row]\<rparr>"
    using assms(2) by (rule issue_Inr) blast
  have "live_session now row"
    using row assms(5,6) by (simp add: live_session_def)
  moreover have "find (\<lambda>s. s_token s = hash_token token) (sessions (db w')) = Some row"
    using row find_append_new [of s_token row "sessions (db w)"] by (simp add: db)
  ultimately have "resolve now (db w') token = Some \<lparr>p_user = user, p_session = s_id row,
     p_roles = sort (roles_of (db w) user), p_auth_at = db_clock E (Suc (step w)), p_mfa_at = None,
     p_email = u_email u, p_verified = u_verified u\<rparr>"
    using row assms(3,4) by (simp add: resolve_def resolve_row_def db principal_of_def roles_of_def)
  then show ?thesis by blast
qed

lemma rotate_Inr:
  assumes "rotate S sid E w = (Inr token, w')"
  defines "now \<equiv> db_clock E (Suc (step w))"
  shows "list_ex (\<lambda>s. s_id s = sid \<and> live_session now s) (sessions (db w))"
    and "\<And>s. s \<in> set (sessions (db w)) \<Longrightarrow> s_token s = hash_token token \<Longrightarrow> s_id s = sid"
    and "db w' = (db w)\<lparr>sessions := update_where (\<lambda>s. s_id s = sid \<and> live_session now s)
           (\<lambda>s. touch now (ss_idle S) (s\<lparr>s_token := hash_token token\<rparr>)) (sessions (db w))\<rparr>"
    and "step w' = Suc (Suc (step w))"
proof -
  from assms obtain hash w1 user where t: "new_token E w = (Inr (token, hash), w1)"
    and q: "query_one (rotate_sql hash (ss_idle S) sid) E w1 = (Inr user, w')"
    unfolding rotate_def
    by (elim tryM_Inr) (auto elim!: bindM_run simp: ret_def fail_def split: sum.splits if_splits)
  note nt = new_token_Inr [OF t]
  from q obtain d where st: "rotate_sql hash (ss_idle S) sid (db_clock E (step w1)) (new_uuid E (step w1)) (db w1)
       = Inr ([user], d)" and w': "w' = (tick w1)\<lparr>db := d\<rparr>"
    by (rule query_one_Inr)
  from st have hit: "filter (\<lambda>s. s_id s = sid \<and> live_session now s) (sessions (db w)) \<noteq> []"
    using nt by (auto simp: rotate_sql_def now_def Let_def split: if_splits)
  then show "list_ex (\<lambda>s. s_id s = sid \<and> live_session now s) (sessions (db w))"
    by (auto simp: filter_empty_conv list_ex_iff)
  show "\<And>s. s \<in> set (sessions (db w)) \<Longrightarrow> s_token s = hash_token token \<Longrightarrow> s_id s = sid"
    using st nt hit by (auto simp: rotate_sql_def now_def Let_def list_ex_iff split: if_splits)
  show "db w' = (db w)\<lparr>sessions := update_where (\<lambda>s. s_id s = sid \<and> live_session now s)
           (\<lambda>s. touch now (ss_idle S) (s\<lparr>s_token := hash_token token\<rparr>)) (sessions (db w))\<rparr>"
    and "step w' = Suc (Suc (step w))"
    using st nt w' by (auto simp: rotate_sql_def now_def Let_def split: if_splits)
qed

text \<open>
  After a rotation the new token stands for exactly whom the old one stood for, and the old
  one, when it hashes differently, for nobody.
\<close>

lemma rotate_resolves:
  assumes wf: "wf_db U (db w)" and run: "rotate S sid E w = (Inr token, w')"
    and s: "s \<in> set (sessions (db w))" "s_id s = sid" "s_token s = hash_token old"
    and pos: "0 < ss_idle S"
  defines "now \<equiv> db_clock E (Suc (step w))"
  shows "resolve now (db w') token = resolve now (db w) old"
    and "hash_token token \<noteq> hash_token old \<Longrightarrow> hash_token old \<notin> s_token ` set (sessions (db w'))"
proof -
  note r = rotate_Inr [OF run, folded now_def]
  let ?f = "\<lambda>s. touch now (ss_idle S) (s\<lparr>s_token := hash_token token\<rparr>)"
  have ws: "wf_sessions (db w)" and ids: "distinct (map s_id (sessions (db w)))"
    using wf by (simp_all add: wf_db_def wf_sessions_def)
  have live: "live_session now s"
    using r(1) s ids by (auto simp: list_ex_iff dest: distinct_key_eq [where k = s_id])
  have wf': "wf_db U (db w')"
    using wf by (rule schedule_wf [rotated])
      (rule schedule.act [OF order_refl, where x = "Rotate (hash_token token) (ss_idle S) sid"],
       use r(1-3) s in \<open>auto intro!: schedule.wait simp: rotate_sql_def Let_def list_ex_iff now_def filter_empty_conv\<close>)
  have mem: "?f s \<in> set (sessions (db w'))"
    using s live by (auto simp: r(3) set_update_where image_iff intro!: bexI [where x = s])
  have live': "live_session now (?f s)"
    using live pos by (simp add: live_session_def)
  show "resolve now (db w') token = resolve now (db w) old"
    using resolve_alive [OF wf' mem _ live', of token] resolve_alive [OF wf s(1) s(3) live]
    by (simp add: roles_of_def r(3) split: option.splits)
  assume ne: "hash_token token \<noteq> hash_token old"
  have "s_token q \<noteq> hash_token old" if "q \<in> set (sessions (db w'))" for q
    using that s ids ne ws live unfolding r(3) wf_sessions_def
    by (auto simp: set_update_where dest: distinct_key_eq [where k = s_token] distinct_key_eq [where k = s_id])
  then show "hash_token old \<notin> s_token ` set (sessions (db w'))"
    by (metis imageE)
qed

lemma revoke_Inr:
  assumes "revoke S sid E w = (Inr (), w')"
  shows "db w' = (db w)\<lparr>sessions := update_where (\<lambda>s. s_id s = sid \<and> s_revoked s = None)
           (s_revoked_update (\<lambda>_. Some (db_clock E (step w)))) (sessions (db w))\<rparr>"
  using assms unfolding revoke_def
  by (elim tryM_Inr exec_Inr) (auto simp: revoke_sql_def emit_def ret_def split: if_splits)

lemma revoke_all_Inr:
  assumes "revoke_all_for_user S user E w = (Inr (), w')"
  shows "db w' = (db w)\<lparr>sessions := update_where (\<lambda>s. s_user s = user \<and> s_revoked s = None)
           (s_revoked_update (\<lambda>_. Some (db_clock E (step w)))) (sessions (db w))\<rparr>"
  using assms unfolding revoke_all_for_user_def
  by (elim tryM_Inr exec_Inr) (auto simp: revoke_all_sql_def emit_def ret_def split: if_splits)

text \<open>A row that is revoked once stays, under every schedule, the row that keeps its token dead.\<close>

lemma revoked_resolve:
  assumes "wf_db U d" and "schedule U t d xs t' d'" and "s \<in> set (sessions d)"
    and "s_token s = hash_token token" and "\<not> live_session t s"
  shows "resolve t' d' token = None"
proof -
  obtain s' where "s' \<in> set (sessions d')" "s_token s' = hash_token token" "\<not> live_session t' s'"
    using schedule_dead [OF assms(2,3,5)] assms(4) by auto
  moreover have "wf_sessions d'"
    using schedule_wf [OF assms(2,1)] by (simp add: wf_db_def)
  ultimately show ?thesis using resolve_dead by blast
qed

lemma revoked_update_dead:
  "p s \<or> s_revoked s \<noteq> None \<Longrightarrow>
     \<not> live_session t (if p s then s_revoked_update (\<lambda>_. Some now) s else s)"
  by (auto simp: live_session_def)

lemma revoked_rows_final:
  assumes "d' = d\<lparr>sessions := update_where (\<lambda>s. q s \<and> s_revoked s = None)
      (s_revoked_update (\<lambda>_. Some now)) (sessions d)\<rparr>"
    and "wf_db U d" and "s \<in> set (sessions d)" and "q s" and "s_token s = hash_token token"
    and "schedule U t d' xs t' d''"
  shows "resolve t' d'' token = None"
proof -
  let ?p = "\<lambda>s. q s \<and> s_revoked s = None"
  let ?f = "s_revoked_update (\<lambda>_. Some now)"
  have "wf_db U d'"
    unfolding assms(1) by (rule sessions_update_same_token_wf [OF assms(2)]) simp_all
  moreover have "(if ?p s then ?f s else s) \<in> set (sessions d')"
    using assms(3) by (auto simp: assms(1) set_update_where)
  moreover have "\<not> live_session t (if ?p s then ?f s else s)"
    by (rule revoked_update_dead) (auto simp: assms(4))
  ultimately show ?thesis
    using revoked_resolve [OF _ assms(6)] assms(5) by (auto split: if_splits)
qed

section \<open>Properties of sessions\<close>

text \<open>A session of the sample account, live until time 5000000.\<close>

definition sample_session :: session_row where
  "sample_session = \<lparr>s_id = ''s1'', s_token = hash_token ''tok'', s_user = ''u1'', s_created = 0,
     s_last_seen = 0, s_idle_exp = 5000000, s_exp = 5000000, s_mfa = None, s_ua = None, s_ip = None,
     s_revoked = None\<rparr>"

definition session_db :: database where
  "session_db = sample_db\<lparr>sessions := [sample_session]\<rparr>"

definition sample_cfg :: sessions_cfg where
  "sample_cfg = \<lparr>ss_idle = 1000000, ss_absolute = 2000000, ss_audit = True, ss_prefix = []\<rparr>"

lemma session_db_simps [simp]:
  "users session_db = [sample_user]" "sessions session_db = [sample_session]" "user_roles session_db = []"
  "s_id sample_session = ''s1''" "s_token sample_session = hash_token ''tok''"
  "s_user sample_session = ''u1''" "s_exp sample_session = 5000000" "s_idle_exp sample_session = 5000000"
  "s_revoked sample_session = None" "s_created sample_session = 0" "s_mfa sample_session = None"
  "s_last_seen sample_session = 0"
  "ss_idle sample_cfg = 1000000" "ss_absolute sample_cfg = 2000000" "ss_audit sample_cfg"
  by (simp_all add: session_db_def sample_session_def sample_cfg_def)

lemma session_wf: "wf_db U session_db"
  by (simp add: wf_db_def wf_defs session_db_def has_user_def)

lemma session_world_wf: "wf_db U (db (world_of session_db))"
  by (simp add: session_wf)

text \<open>C1 Lookup is complete and sound: when the statement runs, it answers for every token
  exactly the principal of the specification \<open>resolve\<close> - the live session that carries the
  token's hash, joined to its live user and that user's current roles - and nobody otherwise.\<close>

theorem lookup_total:
  assumes "wf_db U (db w)" and "\<not> db_fails E (step w)"
  shows "fst (lookup S token E w) = Inr (resolve (db_clock E (step w)) (db w) token)"
  using assms(2)
  by (auto simp: lookup_def bindM_def query_one_def tryM_def exec_def lookup_sql_def ret_def fail_def
      lift_def lookup_rows_resolve [OF assms(1)] resolve_def
      split: option.splits)

theorem lookup_total_witness:
  "fst (lookup sample_cfg ''tok'' sample_env (world_of session_db)) = Inr (Some
     \<lparr>p_user = ''u1'', p_session = ''s1'', p_roles = [], p_auth_at = 0, p_mfa_at = None,
      p_email = ''a@x.io'', p_verified = True\<rparr>)"
  using lookup_total [of sample_tables "world_of session_db" sample_env sample_cfg "''tok''"]
  by (simp add: session_wf resolve_def resolve_row_def live_session_def principal_of_def roles_of_def)

text \<open>A revocation is final: once \<open>Revoke\<close> has returned, the session's token stands for
  nobody, then and after any schedule of statements by any requests - lookups, rotations,
  logins, password changes, the application's own writes to the accounts.\<close>

theorem revoke_final:
  assumes "revoke S sid E w = (Inr (), w')" and "wf_db U (db w)"
    and "s \<in> set (sessions (db w))" and "s_id s = sid" and "s_token s = hash_token token"
    and "schedule U t (db w') xs t' d'"
  shows "resolve t' d' token = None"
  by (rule revoked_rows_final [OF revoke_Inr [OF assms(1)] assms(2,3) _ assms(5,6)]) (rule assms(4))

theorem revoke_final_witness:
  "\<exists>w'. revoke sample_cfg ''s1'' sample_env (world_of session_db) = (Inr (), w')
     \<and> resolve 9 (db w') ''tok'' = None"
proof -
  obtain w' where run: "revoke sample_cfg ''s1'' sample_env (world_of session_db) = (Inr (), w')"
    by (auto simp: revoke_def tryM_def bindM_def exec_def revoke_sql_def emit_def ret_def)
  have idle: "schedule sample_tables 0 (db w') [] 9 (db w')"
    by (rule schedule.wait) simp
  have "resolve 9 (db w') ''tok'' = None"
    by (rule revoke_final [OF run session_world_wf _ _ _ idle, of sample_session]) simp_all
  with run show ?thesis by blast
qed

text \<open>\<open>RevokeAllForUser\<close> is final for every session of the user: each token the account had
  resolves to nobody from then on, under any schedule.\<close>

theorem revoke_all_final:
  assumes "revoke_all_for_user S user E w = (Inr (), w')" and "wf_db U (db w)"
    and "s \<in> set (sessions (db w))" and "s_user s = user" and "s_token s = hash_token token"
    and "schedule U t (db w') xs t' d'"
  shows "resolve t' d' token = None"
  by (rule revoked_rows_final [OF revoke_all_Inr [OF assms(1)] assms(2,3) _ assms(5,6)]) (rule assms(4))

theorem revoke_all_final_witness:
  "\<exists>w'. revoke_all_for_user sample_cfg ''u1'' sample_env (world_of session_db) = (Inr (), w')
     \<and> resolve 9 (db w') ''tok'' = None"
proof -
  obtain w' where run: "revoke_all_for_user sample_cfg ''u1'' sample_env (world_of session_db) = (Inr (), w')"
    by (auto simp: revoke_all_for_user_def tryM_def bindM_def exec_def revoke_all_sql_def emit_def ret_def)
  have idle: "schedule sample_tables 0 (db w') [] 9 (db w')"
    by (rule schedule.wait) simp
  have "resolve 9 (db w') ''tok'' = None"
    by (rule revoke_all_final [OF run session_world_wf _ _ _ idle, of sample_session]) simp_all
  with run show ?thesis by blast
qed

text \<open>C2 A session past its absolute deadline, past its idle window, or revoked never comes
  back to life: whatever schedule of statements follows (lookups, rotations, recorded factors,
  logins), its token resolves to nobody.\<close>

theorem dead_session_stays_dead:
  assumes "wf_db U d" and "s \<in> set (sessions d)" and "s_token s = hash_token token"
    and "s_exp s \<le> t \<or> s_idle_exp s \<le> t \<or> s_revoked s \<noteq> None"
    and "schedule U t d xs t' d'"
  shows "resolve t' d' token = None"
  by (rule revoked_resolve [OF assms(1,5,2,3)]) (use assms(4) in \<open>auto simp: live_session_def\<close>)

theorem dead_session_stays_dead_witness:
  "\<exists>d'. apply_op sample_tables (Rotate (hash_token ''n'') 1000000 ''s1'') 6000000 [] session_db = Some d'
     \<and> resolve 6000000 d' ''tok'' = None"
proof -
  obtain d' where d': "apply_op sample_tables (Rotate (hash_token ''n'') 1000000 ''s1'') 6000000 [] session_db = Some d'"
    by (simp add: rotate_sql_def live_session_def)
  have "schedule sample_tables 5000000 session_db [Rotate (hash_token ''n'') 1000000 ''s1''] 6000000 d'"
    by (rule schedule.act [OF _ d']) (simp_all add: schedule.wait)
  then have "resolve 6000000 d' ''tok'' = None"
    by (rule dead_session_stays_dead [OF session_wf, of sample_session, rotated -1]) simp_all
  with d' show ?thesis by blast
qed

text \<open>The absolute deadline is anchored at authentication: under every schedule the session
  keeps its id, its owner, its creation time and its deadline, and is dead from the deadline on.\<close>

theorem absolute_deadline:
  assumes "schedule U t d xs t' d'" and "s \<in> set (sessions d)"
  shows "\<exists>s' \<in> set (sessions d'). s_id s' = s_id s \<and> s_user s' = s_user s \<and> s_created s' = s_created s
    \<and> s_exp s' = s_exp s \<and> (s_exp s \<le> t' \<longrightarrow> \<not> live_session t' s')"
  using schedule_session [OF assms] by (auto simp: same_session_def live_session_def)

theorem absolute_deadline_witness:
  "\<exists>s' \<in> set (sessions session_db). s_exp s' = 5000000 \<and> \<not> live_session 7000000 s'"
  using absolute_deadline [OF schedule.wait, of 0 7000000 sample_session session_db] by simp

text \<open>Rotation swaps the credential and nothing else: the new token stands for exactly whom
  the old one stood for - same session, owner, roles, authentication time, recorded factor -
  and the old token, unless the two hash alike, for nobody, then and under any schedule in
  which no statement mints that hash again.\<close>

theorem rotate_swaps:
  assumes "wf_db U (db w)" and "rotate S sid E w = (Inr token, w')"
    and "s \<in> set (sessions (db w))" and "s_id s = sid" and "s_token s = hash_token old"
    and "0 < ss_idle S"
    and "schedule U t (db w') xs t' d'" and "list_all (\<lambda>x. \<not> mints (hash_token old) x) xs"
  shows "resolve (db_clock E (Suc (step w))) (db w') token = resolve (db_clock E (Suc (step w))) (db w) old
    \<and> (resolve t' d' old = None \<or> hash_token token = hash_token old)"
  using rotate_resolves [OF assms(1-6)] schedule_unheld [OF assms(7,8)] resolve_unheld by metis

lemma rotate_sample_run:
  "rotate sample_cfg ''s1'' sample_env (world_of session_db) =
     (Inr (b64_encode url_alphabet (map (rand_byte sample_env 0) [0..<32])),
      (tick (tick (world_of session_db)))\<lparr>db := session_db\<lparr>sessions := [touch 1001 1000000
         (sample_session\<lparr>s_token := hash_token (b64_encode url_alphabet (map (rand_byte sample_env 0) [0..<32]))\<rparr>)]\<rparr>\<rparr>)"
  by (simp add: rotate_def new_token_def tryM_def bindM_def rand_read_def query_one_def exec_def lift_def
      rotate_sql_def live_session_def ret_def Let_def del: upt_Suc upt_rec_numeral sample_env_simps(7))

theorem rotate_swaps_witness:
  "\<exists>w' token. rotate sample_cfg ''s1'' sample_env (world_of session_db) = (Inr token, w')
     \<and> (resolve 1001 (db w') ''tok'' = None \<or> hash_token token = hash_token ''tok'')"
proof -
  have idle: "schedule sample_tables 0 d [] 1001 d" for d
    by (rule schedule.wait) simp
  show ?thesis
    using rotate_swaps [OF session_world_wf rotate_sample_run, of sample_session "''tok''", OF _ _ _ _ idle]
      rotate_sample_run by simp
qed

text \<open>An issued token stands for its user: for every later time inside the idle window it
  resolves to a principal with the user's address, verification and current roles, the
  session's creation as authentication time, and no recorded factor.\<close>

theorem issued_token_resolves:
  assumes "wf_db U (db w)" and "issue S user mt E w = (Inr token, w')"
    and "find (\<lambda>u. u_id u = user) (users (db w)) = Some u" and "live_user u"
    and "now < db_clock E (Suc (step w)) + ss_idle S" and "ss_idle S \<le> ss_absolute S"
  shows "\<exists>sid. resolve now (db w') token = Some \<lparr>p_user = user, p_session = sid,
     p_roles = sort (roles_of (db w) user), p_auth_at = db_clock E (Suc (step w)), p_mfa_at = None,
     p_email = u_email u, p_verified = u_verified u\<rparr>"
  by (rule issue_resolves [OF assms])

lemma issue_sample_run:
  "\<exists>token w'. issue sample_cfg ''u1'' no_meta sample_env (world_of sample_db) = (Inr token, w')"
  by (simp add: issue_def new_token_def tryM_def bindM_def rand_read_def query_one_def exec_def lift_def
      issue_sql_def has_user_def ret_def Let_def del: upt_Suc upt_rec_numeral sample_env_simps(7))

theorem issued_token_resolves_witness:
  "\<exists>token w' p. issue sample_cfg ''u1'' no_meta sample_env (world_of sample_db) = (Inr token, w')
     \<and> resolve 2000 (db w') token = Some p \<and> p_user p = ''u1'' \<and> p_email p = ''a@x.io''"
proof -
  obtain token w' where run: "issue sample_cfg ''u1'' no_meta sample_env (world_of sample_db) = (Inr token, w')"
    using issue_sample_run by blast
  have wf: "wf_db sample_tables (db (world_of sample_db))"
    by (simp add: sample_wf)
  show ?thesis
    using issued_token_resolves [OF wf run, of sample_user 2000] run by auto
qed

definition mfa_hit :: "string \<Rightarrow> string \<Rightarrow> int \<Rightarrow> session_row \<Rightarrow> bool" where
  "mfa_hit sid user now s \<longleftrightarrow> s_id s = sid \<and> s_user s = user \<and> live_session now s"

text \<open>\<open>RecordMFA\<close> stamps exactly the live session with that id and that owner, at the
  database's time; for any other pair of ids, or a dead session, it answers UNAUTHENTICATED
  and no row changes.\<close>

theorem record_mfa_exact:
  assumes "\<not> db_fails E (step w)" and "wf_db U (db w)"
  shows "fst (record_mfa sid user E w)
      = (if list_ex (mfa_hit sid user (db_clock E (step w))) (sessions (db w)) then Inr () else Inl (session_gone NoRows))
    \<and> db (snd (record_mfa sid user E w)) = (db w)\<lparr>sessions := update_where (mfa_hit sid user (db_clock E (step w)))
        (s_mfa_update (\<lambda>_. Some (db_clock E (step w)))) (sessions (db w))\<rparr>"
proof -
  let ?hit = "mfa_hit sid user (db_clock E (step w))"
  have "filter ?hit (sessions (db w)) = [s]" if "s \<in> set (sessions (db w))" "?hit s" for s
    by (rule filter_key_unique [where k = s_id])
      (use that assms(2) in \<open>auto simp: mfa_hit_def wf_db_def wf_sessions_def\<close>)
  then have ids: "map s_id (filter ?hit (sessions (db w))) = (if list_ex ?hit (sessions (db w)) then [sid] else [])"
    by (auto simp: list_ex_iff mfa_hit_def filter_empty_conv)
  have "(\<lambda>s. s_id s = sid \<and> s_user s = user \<and> live_session (db_clock E (step w)) s) = ?hit"
    by (simp add: mfa_hit_def fun_eq_iff)
  then have "record_mfa_sql sid user (db_clock E (step w)) uid (db w)
      = Inr (if list_ex ?hit (sessions (db w)) then [sid] else [],
             (db w)\<lparr>sessions := update_where ?hit (s_mfa_update (\<lambda>_. Some (db_clock E (step w)))) (sessions (db w))\<rparr>)" for uid
    by (simp only: record_mfa_sql_def ids)
  then show ?thesis
    using assms(1)
    by (simp add: record_mfa_def bindM_def query_one_def tryM_def exec_def lift_def ret_def fail_def)
qed

theorem record_mfa_exact_witness:
  "fst (record_mfa ''s1'' ''u1'' sample_env (world_of session_db)) = Inr ()
     \<and> fst (record_mfa ''s1'' ''u2'' sample_env (world_of session_db)) = Inl (session_gone NoRows)"
  using record_mfa_exact [OF _ session_world_wf, of sample_env "''s1''" "''u1''"]
    record_mfa_exact [OF _ session_world_wf, of sample_env "''s1''" "''u2''"]
  by (simp add: live_session_def mfa_hit_def)

text \<open>No interleaving breaks the tables: from a database that satisfies every constraint of
  the migrations - keys, the live-address index, the foreign keys, the ranges - any schedule of
  kal's statements and of the application's own account writes leads to one that does.\<close>

theorem constraints_always_hold:
  assumes "schedule U t d xs t' d'" and "wf_db U d"
  shows "wf_db U d'"
  using assms by (rule schedule_wf)

theorem constraints_always_hold_witness:
  "\<exists>d'. apply_op sample_tables (Insert_account ''a@x.io'' None) 5 ''u2'' sample_db = Some d'
     \<and> wf_db sample_tables d'"
proof -
  have x: "apply_op sample_tables (Insert_account ''a@x.io'' None) 5 ''u2'' sample_db = Some sample_db"
    by (simp add: insert_account_def email_key_def)
  have "schedule sample_tables 0 sample_db [Insert_account ''a@x.io'' None] 5 sample_db"
    by (rule schedule.act [OF _ x]) (simp_all add: schedule.wait)
  then have "wf_db sample_tables sample_db"
    by (rule constraints_always_hold) (rule sample_wf)
  with x show ?thesis by blast
qed

end
