(* ===== verification/Accounts.thy ===== *)
theory Accounts
  imports Password Backoff Session_Store
begin

text \<open>
  The credential flows of \<open>authn/accounts.go\<close>: login, logout, password change, with the
  best-effort counter writes, rehash and mail they share, with the log lines and the audit
  events of what goes wrong in them.
\<close>

section \<open>Configuration\<close>

record accounts =
  ac_hasher :: hasher
  ac_sessions :: sessions_cfg
  ac_base_url :: string
  ac_cookie :: string
  ac_secret_shape :: "string \<Rightarrow> goerr option"
  ac_allow_unverified :: bool
  ac_audit :: bool

definition normalise :: "unicode_tables \<Rightarrow> string \<Rightarrow> string" where
  "normalise U email = to_lower U (trim_space email)"

text \<open>A secret-shape check, as a program.\<close>

definition check_secret :: "accounts \<Rightarrow> string \<Rightarrow> unit prog" where
  "check_secret A secret = (case ac_secret_shape A secret of None \<Rightarrow> ret () | Some e \<Rightarrow> fail e)"

definition is_panic :: "goerr \<Rightarrow> bool" where
  "is_panic e = (case e of GoPanic s \<Rightarrow> True | _ \<Rightarrow> False)"

section \<open>Best-effort helpers\<close>

definition record_failure :: "string \<Rightarrow> string \<Rightarrow> unit prog" where
  "record_failure key ip =
     ignoring ''kal/authn: recording login failure: ''
       (exec (if ip = [] then record_user_sql key else record_both_sql key ip)) (ret ())"

definition reset_backoff :: "string \<Rightarrow> string \<Rightarrow> unit prog" where
  "reset_backoff key ip =
     ignoring ''kal/authn: resetting login counters: '' (exec (reset_attempts_sql key ip)) (ret ())"

definition notify :: "accounts \<Rightarrow> string \<Rightarrow> message \<Rightarrow> unit prog" where
  "notify A to msg = bindM (send_mail to msg) (\<lambda>r. case r of
     Inr u \<Rightarrow> ret ()
   | Inl e \<Rightarrow>
       tryM (log_printf (''kal/authn: sending '' @ kind_text (m_kind msg) @ '' mail: '' @ error_text e)) (\<lambda>_.
       emit (ac_audit A) (no_event\<lparr>ev_kind := ''mail.fail'', ev_email := to,
                ev_detail := [(''message'', kind_text (m_kind msg)), (''error'', error_text e)]\<rparr>)))"

definition rehash_failed :: "accounts \<Rightarrow> string \<Rightarrow> goerr \<Rightarrow> unit prog" where
  "rehash_failed A user e =
     tryM (log_printf (''kal/authn: rehash-on-login: '' @ error_text e)) (\<lambda>_.
     emit (ac_audit A) (no_event\<lparr>ev_kind := ''password.rehash'',
       ev_user := user, ev_detail := [(''error'', error_text e)]\<rparr>))"

definition rehash_stored :: "accounts \<Rightarrow> string \<Rightarrow> string \<Rightarrow> string \<Rightarrow> unit prog" where
  "rehash_stored A user password old_hash =
     bindM (hash_password (ac_hasher A) password) (\<lambda>r. case r of
       Inl e \<Rightarrow> if is_panic e then fail e else rehash_failed A user e
     | Inr new_hash \<Rightarrow>
         bindM (exec (update_password_sql new_hash user old_hash)) (\<lambda>r. case r of
           Inl e \<Rightarrow> rehash_failed A user e
         | Inr n \<Rightarrow> ret ()))"

definition rate_limited :: goerr where
  "rate_limited = KalErr CodeRateLimited ''too many attempts, try again shortly'' None"

definition check_backoff :: "accounts \<Rightarrow> string \<Rightarrow> string \<Rightarrow> int prog" where
  "check_backoff A key ip = tryM (exec (attempts_sql key ip)) (\<lambda>rows.
     case scan_counters 0 rows of
       (seen, None) \<Rightarrow> ret seen
     | (seen, Some (counter, failures)) \<Rightarrow>
         tryM (emit (ac_audit A) (no_event\<lparr>ev_kind := ''backoff.open'', ev_email := key, ev_ip := ip,
                 ev_detail := [(''scope'', counter), (''failures'', itoa (nat failures))]\<rparr>))
           (\<lambda>_. fail rate_limited))"

section \<open>Login\<close>

definition login_fail_event :: "string \<Rightarrow> string \<Rightarrow> string \<Rightarrow> string \<Rightarrow> event" where
  "login_fail_event user email ip reason = no_event\<lparr>ev_kind := ''login.fail'', ev_user := user,
     ev_email := email, ev_ip := ip,
     ev_detail := (if reason = [] then [] else [(''reason'', reason)])\<rparr>"

text \<open>An account that does not exist, or one with no password.\<close>

definition login_nobody :: "accounts \<Rightarrow> string \<Rightarrow> string \<Rightarrow> string \<Rightarrow> 'a prog" where
  "login_nobody A email password ip =
     tryM (verify_dummy (ac_hasher A) password) (\<lambda>_.
     tryM (record_failure email ip) (\<lambda>_.
     tryM (emit (ac_audit A) (login_fail_event [] email ip [])) (\<lambda>_.
     fail (invalid_credentials None))))"

definition suspicious_login :: message where
  "suspicious_login = \<lparr>m_kind = KindSuspiciousLogin, m_subject = ''New sign-in to your account'',
     m_text = ''Your account just signed in successfully after several failed attempts. If this was not you, change your password now.'',
     m_url = []\<rparr>"

text \<open>The last part: the session the request arrived with dies, a fresh one is issued.\<close>

definition start_session :: "accounts \<Rightarrow> ctx \<Rightarrow> string \<Rightarrow> principal prog" where
  "start_session A c user =
     tryM (case from_ctx c of None \<Rightarrow> ret () | Some prior \<Rightarrow> revoke (ac_sessions A) (p_session prior)) (\<lambda>_.
     tryM (issue (ac_sessions A) user (meta_from_context c)) (\<lambda>token.
     tryM (lookup (ac_sessions A) token) (\<lambda>p. case p of
       None \<Rightarrow> fail (Text ''authn: freshly issued session did not resolve'')
     | Some q \<Rightarrow> tryM (set_cookie c (session_cookie (ac_cookie A) token)) (\<lambda>_. ret q))))"

definition login_known ::
  "accounts \<Rightarrow> ctx \<Rightarrow> string \<Rightarrow> string \<Rightarrow> int \<Rightarrow> string \<Rightarrow> string \<Rightarrow> bool \<Rightarrow> principal prog" where
  "login_known A c email password prior user stored verified =
     (let ip = mt_ip (meta_from_context c) in
      tryM (verify (ac_hasher A) password stored) (\<lambda>(ok, rehash).
        if \<not> ok then
          tryM (record_failure email ip) (\<lambda>_.
          tryM (emit (ac_audit A) (login_fail_event user email ip ''password'')) (\<lambda>_.
          fail (invalid_credentials None)))
        else if \<not> verified \<and> \<not> ac_allow_unverified A then
          tryM (emit (ac_audit A) (login_fail_event user email ip ''unverified'')) (\<lambda>_.
          fail (invalid_credentials (Some (Text ''email not verified''))))
        else
          tryM (if rehash then rehash_stored A user password stored else ret ()) (\<lambda>_.
          tryM (if suspiciousFailures \<le> prior then notify A email suspicious_login else ret ()) (\<lambda>_.
          tryM (reset_backoff email ip) (\<lambda>_.
          tryM (emit (ac_audit A) (no_event\<lparr>ev_kind := ''login.ok'', ev_user := user, ev_email := email,
                  ev_ip := ip, ev_detail := [(''prior_failures'', itoa (nat prior))]\<rparr>)) (\<lambda>_.
          start_session A c user))))))"

definition login :: "accounts \<Rightarrow> ctx \<Rightarrow> string \<Rightarrow> string \<Rightarrow> principal prog" where
  "login A c email_in password = with_env (\<lambda>E.
     let email = normalise (unicode E) email_in; ip = mt_ip (meta_from_context c) in
     tryM (check_backoff A email ip) (\<lambda>prior.
     bindM (query_one (login_select_sql (unicode E) email)) (\<lambda>r. case r of
       Inl e \<Rightarrow> if is_no_rows e then login_nobody A email password ip else fail e
     | Inr (user, stored, verified) \<Rightarrow>
         if stored = [] then login_nobody A email password ip
         else login_known A c email password prior user stored verified)))"

section \<open>Logout and password change\<close>

definition logout :: "accounts \<Rightarrow> ctx \<Rightarrow> unit prog" where
  "logout A c =
     tryM (case from_ctx c of None \<Rightarrow> ret () | Some p \<Rightarrow> revoke (ac_sessions A) (p_session p)) (\<lambda>_.
     set_cookie c (clear_cookie (ac_cookie A)))"

definition password_changed :: message where
  "password_changed = \<lparr>m_kind = KindPasswordChanged, m_subject = ''Your password was changed'',
     m_text = ''Your account password was just changed. If this was not you, reset it immediately and review your sessions.'',
     m_url = []\<rparr>"

text \<open>Once the current password is verified: hash, compare-and-swap, rotate, tell the owner.\<close>

definition swap_password :: "accounts \<Rightarrow> ctx \<Rightarrow> principal \<Rightarrow> string \<Rightarrow> string \<Rightarrow> string \<Rightarrow> unit prog" where
  "swap_password A c p stored email nxt =
     tryM (hash_password (ac_hasher A) nxt) (\<lambda>new_hash.
     tryM (exec (update_password_sql new_hash (p_user p) stored)) (\<lambda>n.
     if n = 0 then fail (invalid_credentials (Some (Text ''password changed concurrently'')))
     else
       tryM (rotate (ac_sessions A) (p_session p)) (\<lambda>token.
       tryM (set_cookie c (session_cookie (ac_cookie A) token)) (\<lambda>_.
       notify A email password_changed))))"

definition change_password :: "accounts \<Rightarrow> ctx \<Rightarrow> string \<Rightarrow> string \<Rightarrow> unit prog" where
  "change_password A c current nxt =
     tryM (lift (require c)) (\<lambda>p.
     tryM (check_secret A nxt) (\<lambda>_.
     bindM (query_one (hash_by_id_sql (p_user p))) (\<lambda>r. case r of
       Inl e \<Rightarrow> fail (if is_no_rows e
                     then KalErr CodeUnauthenticated ''authentication required'' (Some e) else e)
     | Inr (stored, email) \<Rightarrow>
         if stored = [] then fail (invalid_credentials (Some (Text ''account has no password'')))
         else tryM (verify (ac_hasher A) current stored) (\<lambda>(ok, rehash).
           if \<not> ok then
             with_env (\<lambda>E. tryM (record_failure (to_lower (unicode E) email) (mt_ip (meta_from_context c)))
               (\<lambda>_. fail (invalid_credentials None)))
           else swap_password A c p stored email nxt))))"

lemmas account_helpers =
  record_failure_def reset_backoff_def notify_def rehash_failed_def rehash_stored_def
  check_backoff_def check_secret_def

text \<open>A counter that cannot be written stops nothing.\<close>

lemma ignoring_returns: "\<exists>w'. ignoring prefix m (ret x) E w = (Inr x, w')"
  by (auto simp: ignoring_def bindM_def log_printf_def ret_def split: prod.split sum.split)

lemma counters_return:
  "\<exists>w'. record_failure key ip E w = (Inr (), w')" "\<exists>w'. reset_backoff key ip E w = (Inr (), w')"
  unfolding record_failure_def reset_backoff_def by (rule ignoring_returns)+

lemmas login_parts = login_def login_known_def login_nobody_def start_session_def

section \<open>Effects of the flows\<close>

lemma slots_helpers [guar]:
  "keeps same_slots E (record_failure key ip)" "keeps same_slots E (reset_backoff key ip)"
  "keeps same_slots E (notify A to msg)" "keeps same_slots E (rehash_failed A user e)"
  "keeps same_slots E (rehash_stored A user password old)" "keeps same_slots E (check_backoff A key ip)"
  "keeps same_slots E (check_secret A secret)"
  unfolding account_helpers by (intro slots.keeps_rules guar)+

lemma slots_accounts [guar]:
  "keeps same_slots E (login A c email password)" "keeps same_slots E (logout A c)"
  "keeps same_slots E (change_password A c current nxt)"
  unfolding login_parts logout_def change_password_def swap_password_def Let_def by (intro slots.keeps_rules guar)+

lemma via_helpers [guar]:
  "(\<And>e ip. ok (Record_both e ip)) \<Longrightarrow> (\<And>e. ok (Record_user e)) \<Longrightarrow> keeps (via ok) E (record_failure key ip)"
  "ok (Reset_attempts key ip) \<Longrightarrow> keeps (via ok) E (reset_backoff key ip)"
  "keeps (via ok) E (notify A to msg)" "keeps (via ok) E (rehash_failed A user e)"
  "keeps (via ok) E (check_backoff A key ip)" "keeps (via ok) E (check_secret A secret)"
  unfolding account_helpers if_distrib [of exec] by (intro via.keeps_rules guar; assumption)+

lemma via_rehash [guar]:
  "(\<And>n. ok (Update_password n user old)) \<Longrightarrow> keeps (via ok) E (rehash_stored A user password old)"
  unfolding rehash_stored_def by (intro via.keeps_rules guar; simp)

text \<open>
  Login counts a failure or clears the counters, replaces a weak hash by compare-and-swap,
  and writes sessions; nothing else.
\<close>

fun login_op :: "op \<Rightarrow> bool" where
  "login_op (Record_both e ip) \<longleftrightarrow> True" | "login_op (Record_user e) \<longleftrightarrow> True"
| "login_op (Reset_attempts e ip) \<longleftrightarrow> True" | "login_op (Update_password n i p) \<longleftrightarrow> True"
| "login_op (Revoke s) \<longleftrightarrow> True" | "login_op (Issue h u i a ua ip) \<longleftrightarrow> True"
| "login_op (Lookup h i) \<longleftrightarrow> True" | "login_op _ \<longleftrightarrow> False"

lemma via_login [guar]: "keeps (via login_op) E (login A c email password)"
  unfolding login_parts Let_def by (intro via.keeps_rules guar; simp)

lemma jars_helpers [guar]:
  "keeps same_jar E (record_failure key ip)" "keeps same_jar E (reset_backoff key ip)"
  "keeps same_jar E (notify A to msg)" "keeps same_jar E (rehash_failed A user e)"
  "keeps same_jar E (rehash_stored A user password old)" "keeps same_jar E (check_backoff A key ip)"
  "keeps same_jar E (check_secret A secret)"
  unfolding account_helpers by (intro jars.keeps_rules guar)+

section \<open>What a successful login gives\<close>

lemma set_cookie_Inr:
  "set_cookie c k E w = (Inr u, w') \<Longrightarrow> cx_jar c \<and> w' = w\<lparr>jar := jar w @ [k]\<rparr>"
  by (auto simp: set_cookie_def add_cookie_def fail_def split: if_splits)

text \<open>The steps of a start that succeeded, and the row it leaves.\<close>

lemma start_session_parts:
  assumes run: "start_session A c user E w = (Inr p, w')" and wf: "wf_db (unicode E) (db w)"
    and mono: "mono (db_clock E)"
  obtains token and w1 w2 w3 :: world and row where "token \<noteq> []" and "step w \<le> step w1" and "step w1 \<le> step w2"
    and "wf_db (unicode E) (db w2)" and "wf_db (unicode E) (db w3)"
    and "lookup (ac_sessions A) token E w2 = (Inr (Some p), w3)"
    and "w' = w3\<lparr>jar := jar w @ [session_cookie (ac_cookie A) token]\<rparr>"
    and "row \<in> set (sessions (db w2))" and "s_token row = hash_token token" and "s_user row = user"
    and "live_session (db_clock E (step w2)) row" and "s_created row = db_clock E (Suc (step w1))"
    and "s_idle_exp row = s_created row + ss_idle (ac_sessions A)"
    and "s_exp row = s_created row + ss_absolute (ac_sessions A)" and "s_revoked row = None"
    and "resolve (db_clock E (step w2)) (db w2) token = Some p"
proof -
  let ?S = "ac_sessions A"
  let ?prior = "case from_ctx c of None \<Rightarrow> ret () | Some prior \<Rightarrow> revoke ?S (p_session prior)"
  from run obtain u w1 token w2 w3 where r: "?prior E w = (Inr u, w1)"
    and i: "issue ?S user (meta_from_context c) E w1 = (Inr token, w2)"
    and l: "lookup ?S token E w2 = (Inr (Some p), w3)"
    and k: "set_cookie c (session_cookie (ac_cookie A) token) E w3 = (Inr (), w')"
    unfolding start_session_def
    by (elim tryM_Inr) (auto simp: fail_def ret_def elim!: tryM_Inr split: option.splits)
  have any: "keeps (via (\<lambda>_. True)) E ?prior" "keeps same_jar E ?prior" "keeps log_grows E ?prior"
    by (auto intro!: guar via.keeps_rules jars.keeps_rules logs.keeps_rules split: option.split)
  have wf1: "wf_db (unicode E) (db w1)"
    using via_run [OF any(1) r mono] wf schedule_wf by metis
  have wf2: "wf_db (unicode E) (db w2)"
    using via_run [OF via_issue [where ok = "\<lambda>_. True"] i mono] wf1 schedule_wf by metis
  have wf3: "wf_db (unicode E) (db w3)"
    using via_run [OF via_lookup [where ok = "\<lambda>_. True"] l mono] wf2 schedule_wf by metis
  have p: "resolve (db_clock E (step w2)) (db w2) token = Some p"
    using lookup_run [OF wf2 l] by simp
  obtain row where row: "s_token row = hash_token token" "s_user row = user"
    "s_created row = db_clock E (Suc (step w1))" "s_idle_exp row = s_created row + ss_idle ?S"
    "s_exp row = s_created row + ss_absolute ?S" "s_revoked row = None"
    and later: "step w1 \<le> step w2" and db: "db w2 = (db w1)\<lparr>sessions := sessions (db w1) @ [row]\<rparr>"
    using i by (rule issue_Inr) (use le_SucI in fastforce)
  have here: "row \<in> set (sessions (db w2))" by (simp add: db)
  have "resolve (db_clock E (step w2)) (db w2) token = None" if "\<not> live_session (db_clock E (step w2)) row"
    by (rule resolve_dead [of _ row]) (use wf2 row here that in \<open>auto simp: wf_db_def\<close>)
  with p have alive: "live_session (db_clock E (step w2)) row" by force
  have "step w \<le> step w1"
    using keepsD [OF any(3) r] by (simp add: log_grows_def)
  moreover have "w' = w3\<lparr>jar := jar w @ [session_cookie (ac_cookie A) token]\<rparr>"
    using keepsD [OF any(2) r] keepsD [OF jars_session(1) i] keepsD [OF jars_session(2) l]
      set_cookie_Inr [OF k] by (simp add: same_jar_def)
  ultimately show thesis
    using wf2 wf3 l row p here alive later issue_token_ne [OF i] by (intro that [of token w1 w2 w3 row])
qed

lemma start_session_Inr:
  assumes run: "start_session A c user E w = (Inr p, w')" and wf: "wf_db (unicode E) (db w)"
    and mono: "mono (db_clock E)" and pos: "0 < ss_idle (ac_sessions A)"
  shows "\<exists>token now. jar w' = jar w @ [session_cookie (ac_cookie A) token]
    \<and> resolve now (db w') token = Some p \<and> p_user p = user"
proof -
  obtain token w2 w3 row where wf2: "wf_db (unicode E) (db w2)"
    and l: "lookup (ac_sessions A) token E w2 = (Inr (Some p), w3)"
    and w': "w' = w3\<lparr>jar := jar w @ [session_cookie (ac_cookie A) token]\<rparr>"
    and row: "row \<in> set (sessions (db w2))" "s_token row = hash_token token" "s_user row = user"
      "live_session (db_clock E (step w2)) row"
    and p: "resolve (db_clock E (step w2)) (db w2) token = Some p"
    using start_session_parts [OF run wf mono] by metis
  have "p_user p = user"
    using resolve_alive [OF wf2 row(1,2,4)] row(3) p by (auto split: option.splits if_splits)
  with lookup_preserves [OF l pos, of token] p w' show ?thesis by auto
qed

text \<open>The session just started stands for the same principal until its idle window ends.\<close>

lemma start_session_lasts:
  assumes run: "start_session A c user E w = (Inr p, w')" and wf: "wf_db (unicode E) (db w)"
    and mono: "mono (db_clock E)" and "ss_idle (ac_sessions A) \<le> ss_absolute (ac_sessions A)"
    and later: "db_clock E (step w') \<le> now" and window: "now < db_clock E (step w) + ss_idle (ac_sessions A)"
  shows "\<exists>token. jar w' = jar w @ [session_cookie (ac_cookie A) token] \<and> resolve now (db w') token = Some p
    \<and> token \<noteq> [] \<and> wf_db (unicode E) (db w')"
proof -
  let ?S = "ac_sessions A"
  obtain token and w1 w2 w3 :: world and row where ne: "token \<noteq> []" and steps: "step w \<le> step w1" "step w1 \<le> step w2"
    and wfs: "wf_db (unicode E) (db w2)" "wf_db (unicode E) (db w3)"
    and l: "lookup ?S token E w2 = (Inr (Some p), w3)"
    and w': "w' = w3\<lparr>jar := jar w @ [session_cookie (ac_cookie A) token]\<rparr>"
    and row: "row \<in> set (sessions (db w2))" "s_token row = hash_token token"
      "live_session (db_clock E (step w2)) row"
    and times: "s_created row = db_clock E (Suc (step w1))" "s_idle_exp row = s_created row + ss_idle ?S"
      "s_exp row = s_created row + ss_absolute ?S" "s_revoked row = None"
    and p: "resolve (db_clock E (step w2)) (db w2) token = Some p"
    using start_session_parts [OF run wf mono] by metis
  let ?now = "db_clock E (step w2)"
  have "step w2 \<le> step w'"
    using outbox_step_mono [OF logs_session(2) l] w' by simp
  with later have ordered: "?now \<le> now"
    using monoD [OF mono, of "step w2" "step w'"] by simp
  have created: "db_clock E (step w) \<le> s_created row"
    using steps(1) times(1) by (simp add: monoD [OF mono])
  with window times assms(4) have live: "live_session now row"
    by (simp add: live_session_def)
  have "now < ?now + ss_idle ?S"
    using window monoD [OF mono, of "step w" "step w2"] steps by simp
  with resolve_outlives_lookup [OF wfs l row live] p w' ne wfs show ?thesis by auto
qed

lemma tryM_Inr_iff:
  "tryM m f E w = (Inr v, w') \<longleftrightarrow> (\<exists>a w1. m E w = (Inr a, w1) \<and> f a E w1 = (Inr v, w'))"
  by (auto simp: prog_defs split: prod.splits sum.splits)

text \<open>The worlds a program can pass through keep the constraints and the jar.\<close>

definition settled :: "env \<Rightarrow> world \<Rightarrow> world \<Rightarrow> bool" where
  "settled E w w' \<longleftrightarrow> jar w' = jar w \<and> (mono (db_clock E) \<longrightarrow> db_clock E (step w) \<le> db_clock E (step w'))
     \<and> (mono (db_clock E) \<longrightarrow> wf_db (unicode E) (db w) \<longrightarrow> wf_db (unicode E) (db w'))"

interpretation calm: guarantee settled
  by unfold_locales (auto simp: settled_def)

lemma settledI: "keeps (via ok) E m \<Longrightarrow> keeps same_jar E m \<Longrightarrow> keeps settled E m"
  by (auto simp: keeps_def settled_def same_jar_def via_def dest: schedule_wf schedule_time)

lemma login_known_Inr:
  assumes "login_known A c email password prior user stored verified E w = (Inr p, w')"
  obtains w1 where "matches E password stored" and "verified \<or> ac_allow_unverified A"
    and "settled E w w1" and "start_session A c user E w1 = (Inr p, w')"
proof -
  let ?ip = "mt_ip (meta_from_context c)"
  let ?H = "ac_hasher A"
  let ?rehash = "\<lambda>b. if b then rehash_stored A user password stored else ret ()"
  let ?mail = "if suspiciousFailures \<le> prior then notify A email suspicious_login else ret ()"
  let ?ok = "emit (ac_audit A) (no_event\<lparr>ev_kind := ''login.ok'', ev_user := user, ev_email := email,
                  ev_ip := ?ip, ev_detail := [(''prior_failures'', itoa (nat prior))]\<rparr>)"
  from assms obtain ok b w1 where v: "verify ?H password stored E w = (Inr (ok, b), w1)"
    and rest: "(if \<not> ok then tryM (record_failure email ?ip) (\<lambda>_.
          tryM (emit (ac_audit A) (login_fail_event user email ?ip ''password'')) (\<lambda>_.
          fail (invalid_credentials None)))
        else if \<not> verified \<and> \<not> ac_allow_unverified A then
          tryM (emit (ac_audit A) (login_fail_event user email ?ip ''unverified'')) (\<lambda>_.
          fail (invalid_credentials (Some (Text ''email not verified''))))
        else tryM (?rehash b) (\<lambda>_. tryM ?mail (\<lambda>_. tryM (reset_backoff email ?ip) (\<lambda>_.
          tryM ?ok (\<lambda>_. start_session A c user))))) E w1 = (Inr p, w')"
    unfolding login_known_def Let_def by (auto simp: tryM_Inr_iff)
  from rest have ok: "ok" "verified \<or> ac_allow_unverified A"
    by (auto simp: tryM_Inr_iff fail_def split: if_splits)
  with rest obtain u2 w2 u3 w3 u4 w4 u5 w5 where r2: "?rehash b E w1 = (Inr u2, w2)"
    and r3: "?mail E w2 = (Inr u3, w3)" and r4: "reset_backoff email ?ip E w3 = (Inr u4, w4)"
    and r5: "?ok E w4 = (Inr u5, w5)" and s: "start_session A c user E w5 = (Inr p, w')"
    by (auto simp: tryM_Inr_iff)
  have k2: "keeps settled E (?rehash b)" and k3: "keeps settled E ?mail"
    and k4: "keeps settled E (reset_backoff email ?ip)" and k5: "keeps settled E ?ok"
    by (rule settledI [where ok = "\<lambda>_. True"]; intro via.keeps_rules jars.keeps_rules guar TrueI)+
  have "settled E w w1"
    using verify_Inr(2) [OF v] by (auto simp: settled_def hashed_once_def monoD)
  then have "settled E w w5"
    using keepsD [OF k2 r2] keepsD [OF k3 r3] keepsD [OF k4 r4] keepsD [OF k5 r5]
    by (blast intro: calm.trans)
  with ok verify_Inr(1) [OF v] s show thesis
    by (intro that) auto
qed

lemma check_backoff_Inr:
  assumes "check_backoff A key ip E w = (Inr n, w')"
  shows "w' = tick w"
  using assms
  by (auto simp: check_backoff_def tryM_Inr_iff exec_def attempts_sql_def ret_def fail_def
      split: if_splits prod.splits option.splits)

lemma query_select_Inr:
  assumes "query_one (login_select_sql U email) E w = (r, w')"
  shows "w' = tick w"
  using assms
  by (auto simp: query_one_def tryM_def bindM_def exec_def login_select_sql_def lift_def fail_def tick_def
      split: if_splits prod.splits sum.splits)

lemma login_select_row:
  assumes "query_one (login_select_sql U email) E w = (Inr (i, stored, verified), w')" and "stored \<noteq> []"
  shows "\<exists>u \<in> set (users (db w)). live_email U email u \<and> u_id u = i \<and> u_hash u = Some stored \<and> u_verified u = verified"
proof -
  from assms(1) obtain u where "filter (live_email U email) (users (db w)) = [u]"
    and row: "i = u_id u" "stored = coalesce_text (u_hash u)" "verified = u_verified u"
    by (elim query_one_Inr) (auto simp: login_select_sql_def)
  then have "u \<in> set (filter (live_email U email) (users (db w)))"
    by simp
  with row assms(2) show ?thesis
    by (auto simp: coalesce_text_def split: option.splits)
qed

lemma login_Inr:
  assumes "login A c email_in password E w = (Inr p, w')"
  defines "email \<equiv> normalise (unicode E) email_in"
  obtains u stored w1 where "u \<in> set (users (db w))" and "live_email (unicode E) email u"
    and "u_hash u = Some stored" and "matches E password stored"
    and "u_verified u \<or> ac_allow_unverified A" and "settled E w w1"
    and "start_session A c (u_id u) E w1 = (Inr p, w')"
proof -
  let ?ip = "mt_ip (meta_from_context c)"
  from assms obtain n w1 where b: "check_backoff A email ?ip E w = (Inr n, w1)"
    and rest: "bindM (query_one (login_select_sql (unicode E) email)) (\<lambda>r. case r of
       Inl e \<Rightarrow> if is_no_rows e then login_nobody A email password ?ip else fail e
     | Inr (user, stored, verified) \<Rightarrow>
         if stored = [] then login_nobody A email password ?ip
         else login_known A c email password n user stored verified) E w1 = (Inr p, w')"
    by (auto simp: login_def with_env_def Let_def tryM_Inr_iff)
  have nobody: "login_nobody A email password ?ip E v \<noteq> (Inr p, v')" for v v'
    by (auto simp: login_nobody_def tryM_Inr_iff fail_def)
  from rest obtain r w2 where q: "query_one (login_select_sql (unicode E) email) E w1 = (r, w2)"
    and cont: "(case r of
       Inl e \<Rightarrow> if is_no_rows e then login_nobody A email password ?ip else fail e
     | Inr (user, stored, verified) \<Rightarrow>
         if stored = [] then login_nobody A email password ?ip
         else login_known A c email password n user stored verified) E w2 = (Inr p, w')"
    by (rule bindM_run)
  from cont nobody obtain i stored verified where r: "r = Inr (i, stored, verified)" and ne: "stored \<noteq> []"
    and known: "login_known A c email password n i stored verified E w2 = (Inr p, w')"
    by (cases r) (auto simp: fail_def split: if_splits)
  have w: "w1 = tick w" "w2 = tick (tick w)"
    using check_backoff_Inr [OF b] query_select_Inr [OF q] by auto
  obtain u where u: "u \<in> set (users (db w))" "live_email (unicode E) email u" "u_id u = i"
    "u_hash u = Some stored" "u_verified u = verified"
    using login_select_row [OF q [unfolded r] ne] w by auto
  obtain w3 where "matches E password stored" "verified \<or> ac_allow_unverified A"
    "settled E w2 w3" "start_session A c i E w3 = (Inr p, w')"
    using known by (rule login_known_Inr)
  moreover have "settled E w w2"
    by (auto simp: settled_def w monoD)
  ultimately show thesis
    using u calm.trans by (intro that [of u stored w3]) auto
qed

end
