(* ===== verification/Account_Tokens.thy ===== *)
theory Account_Tokens
  imports Accounts
begin

text \<open>
  The emailed-token flows of \<open>authn/tokens.go\<close>: registration, verification, recovery and
  invitation.
\<close>

section \<open>Purposes and links\<close>

datatype purpose = PurposeVerify | PurposeReset | PurposeInvite

fun purpose_text :: "purpose \<Rightarrow> string" where
  "purpose_text PurposeVerify = ''verify''"
| "purpose_text PurposeReset = ''reset''"
| "purpose_text PurposeInvite = ''invite''"

fun purpose_ttl :: "purpose \<Rightarrow> int" where
  "purpose_ttl PurposeVerify = hours 24"
| "purpose_ttl PurposeReset = seconds (15 * 60)"
| "purpose_ttl PurposeInvite = hours (7 * 24)"

lemma purpose_text_inject [simp]: "purpose_text p = purpose_text q \<longleftrightarrow> p = q"
  by (cases p; cases q) simp_all

text \<open>\<open>url.QueryEscape\<close>: letters, digits and \<open>-_.~\<close> stay, a space is a plus, the rest is \<open>%XX\<close>.\<close>

definition upper_hex :: "nat \<Rightarrow> char" where
  "upper_hex n = char_of (if n < 10 then 48 + n else 55 + n)"

definition unreserved :: "char \<Rightarrow> bool" where
  "unreserved c \<longleftrightarrow> is_digit c \<or> 65 \<le> code c \<and> code c \<le> 90 \<or> 97 \<le> code c \<and> code c \<le> 122
     \<or> c \<in> set ''-_.~''"

definition query_escape :: "string \<Rightarrow> string" where
  "query_escape s = concat (map (\<lambda>c.
     if unreserved c then [c] else if c = CHR '' '' then ''+''
     else [CHR ''%'', upper_hex (code c div 16), upper_hex (code c mod 16)]) s)"

definition link :: "accounts \<Rightarrow> string \<Rightarrow> string \<Rightarrow> string" where
  "link A kind token = ac_base_url A @ ''/'' @ kind @ ''?token='' @ query_escape token"

section \<open>Messages\<close>

definition verify_mail :: "string \<Rightarrow> message" where
  "verify_mail url = \<lparr>m_kind = KindVerify, m_subject = ''Confirm your email address'',
     m_text = ''Open this link to confirm your email address and finish setting up your account.'',
     m_url = url\<rparr>"

definition attempted_register_mail :: "string \<Rightarrow> message" where
  "attempted_register_mail url = \<lparr>m_kind = KindAttemptedRegister,
     m_subject = ''Someone tried to register with your address'',
     m_text = ''An account already exists for this address. If this was you, sign in '' @ em_dash
       @ '' or reset your password if you have forgotten it.'',
     m_url = url\<rparr>"

definition no_account_mail :: "string \<Rightarrow> message" where
  "no_account_mail url = \<lparr>m_kind = KindResetNoAccount, m_subject = ''Password reset requested'',
     m_text = ''Someone asked to reset a password for this address, but no account exists here. If this was you, you may want to register.'',
     m_url = url\<rparr>"

definition reset_mail :: "string \<Rightarrow> message" where
  "reset_mail url = \<lparr>m_kind = KindReset, m_subject = ''Reset your password'',
     m_text = ''Open this link to choose a new password. It expires in 15 minutes, and using it signs you out everywhere.'',
     m_url = url\<rparr>"

definition password_reset_mail :: message where
  "password_reset_mail = \<lparr>m_kind = KindPasswordChanged, m_subject = ''Your password was reset'',
     m_text = ''Your password has been reset and all sessions were signed out. If this was not you, act now.'',
     m_url = []\<rparr>"

definition invite_mail :: "string \<Rightarrow> message" where
  "invite_mail url = \<lparr>m_kind = KindInvite, m_subject = ''You have been invited'',
     m_text = ''Open this link to choose a password and activate your account.'',
     m_url = url\<rparr>"

section \<open>Issuing and consuming\<close>

text \<open>A fresh token for a user, its hash on a row of its own.\<close>

definition mint :: "string \<Rightarrow> purpose \<Rightarrow> string prog" where
  "mint user p = tryM new_token (\<lambda>(token, hashed).
     tryM (exec (insert_token_sql hashed user (purpose_text p) (purpose_ttl p))) (\<lambda>_. ret token))"

definition consume :: "string \<Rightarrow> purpose \<Rightarrow> string prog" where
  "consume token p =
     bindM (query_one (consume_token_sql (hash_token token) (purpose_text p))) (\<lambda>r. case r of
       Inl e \<Rightarrow> fail (if is_no_rows e
                     then KalErr CodeInvalidToken ''this link is invalid or has expired'' (Some e) else e)
     | Inr user \<Rightarrow> ret user)"

definition address_error :: goerr where
  "address_error = KalErr CodeInvalidInput ''a valid email address is required'' None"

definition plausible_address :: "string \<Rightarrow> bool" where
  "plausible_address email \<longleftrightarrow> email \<noteq> [] \<and> CHR ''@'' \<in> set email"

section \<open>The flows\<close>

text \<open>The insert, and the mail that tells the two cases apart in the mailbox only.\<close>

definition enrol :: "accounts \<Rightarrow> string \<Rightarrow> string \<Rightarrow> unit prog" where
  "enrol A email hash = with_env (\<lambda>E.
     bindM (query_one (insert_user_sql (unicode E) email hash)) (\<lambda>r. case r of
       Inr user \<Rightarrow> tryM (mint user PurposeVerify) (\<lambda>token.
         notify A email (verify_mail (link A ''verify'' token)))
     | Inl e \<Rightarrow>
         if is_no_rows e then notify A email (attempted_register_mail (ac_base_url A))
         else fail e))"

definition register :: "accounts \<Rightarrow> string \<Rightarrow> string \<Rightarrow> unit prog" where
  "register A email_in password = with_env (\<lambda>E.
     let email = normalise (unicode E) email_in in
     if \<not> plausible_address email then fail address_error
     else tryM (check_secret A password) (\<lambda>_.
       tryM (hash_password (ac_hasher A) password) (\<lambda>hash. enrol A email hash)))"

definition request_password_reset :: "accounts \<Rightarrow> string \<Rightarrow> unit prog" where
  "request_password_reset A email_in = with_env (\<lambda>E.
     let email = normalise (unicode E) email_in in
     bindM (query_one (user_id_by_email_sql (unicode E) email)) (\<lambda>r. case r of
       Inl e \<Rightarrow>
         if is_no_rows e then notify A email (no_account_mail (ac_base_url A)) else fail e
     | Inr user \<Rightarrow> tryM (mint user PurposeReset) (\<lambda>token.
         notify A email (reset_mail (link A ''reset'' token)))))"

text \<open>What a redeemed reset token allows: hash, set, end every session, tell the owner.\<close>

definition recover :: "accounts \<Rightarrow> string \<Rightarrow> string \<Rightarrow> unit prog" where
  "recover A user password =
     tryM (hash_password (ac_hasher A) password) (\<lambda>hash.
     tryM (exec (set_password_sql hash user)) (\<lambda>_.
     tryM (revoke_all_for_user (ac_sessions A) user) (\<lambda>_.
     bindM (query_one (email_by_id_sql user)) (\<lambda>r. case r of
       Inr email \<Rightarrow> notify A email password_reset_mail
     | Inl e \<Rightarrow> ret ()))))"

definition reset_password :: "accounts \<Rightarrow> string \<Rightarrow> string \<Rightarrow> unit prog" where
  "reset_password A token password =
     tryM (check_secret A password) (\<lambda>_.
     tryM (consume token PurposeReset) (\<lambda>user.
     recover A user password))"

definition verify_email :: "string \<Rightarrow> unit prog" where
  "verify_email token = tryM (consume token PurposeVerify) (\<lambda>user. exec (mark_verified_sql user))"

definition invite :: "accounts \<Rightarrow> string \<Rightarrow> string prog" where
  "invite A email_in = with_env (\<lambda>E.
     let email = normalise (unicode E) email_in in
     if \<not> plausible_address email then fail address_error
     else
       tryM (bindM (query_one (insert_invitee_sql (unicode E) email)) (\<lambda>r. case r of
              Inr user \<Rightarrow> ret user
            | Inl e \<Rightarrow> if is_no_rows e then query_one (user_id_by_email_sql (unicode E) email) else fail e)) (\<lambda>user.
       tryM (mint user PurposeInvite) (\<lambda>token.
       let url = link A ''invite'' token in
       tryM (notify A email (invite_mail url)) (\<lambda>_. ret url))))"

definition accept_invite :: "accounts \<Rightarrow> string \<Rightarrow> string \<Rightarrow> unit prog" where
  "accept_invite A token password =
     tryM (check_secret A password) (\<lambda>_.
     tryM (consume token PurposeInvite) (\<lambda>user.
     tryM (hash_password (ac_hasher A) password) (\<lambda>hash.
     tryM (exec (set_password_sql hash user)) (\<lambda>_.
     exec (mark_verified_sql user)))))"

lemmas token_flows =
  register_def enrol_def request_password_reset_def reset_password_def recover_def verify_email_def invite_def
  accept_invite_def mint_def consume_def

section \<open>Effects\<close>

lemma slots_token_flows [guar]:
  "keeps same_slots E (register A email password)" "keeps same_slots E (request_password_reset A email)"
  "keeps same_slots E (reset_password A token password)" "keeps same_slots E (verify_email token)"
  "keeps same_slots E (invite A email)" "keeps same_slots E (accept_invite A token password)"
  unfolding token_flows Let_def by (intro slots.keeps_rules guar)+

lemma via_mint [guar]:
  "(\<And>h. ok (Insert_token h user (purpose_text p) (purpose_ttl p))) \<Longrightarrow> keeps (via ok) E (mint user p)"
  unfolding mint_def by (intro via.keeps_rules guar)

lemma via_consume [guar]:
  "ok (Consume (hash_token token) (purpose_text p)) \<Longrightarrow> keeps (via ok) E (consume token p)"
  unfolding consume_def by (intro via.keeps_rules guar)

text \<open>The statements the recovery request may run: it only ever adds a token.\<close>

fun request_op :: "op \<Rightarrow> bool" where
  "request_op (Insert_token h u p ttl) \<longleftrightarrow> p = ''reset''"
| "request_op _ \<longleftrightarrow> False"

lemma via_request_reset: "keeps (via request_op) E (request_password_reset A email)"
  unfolding request_password_reset_def Let_def by (intro via.keeps_rules guar; simp)

fun register_op :: "op \<Rightarrow> bool" where
  "register_op (Insert_account e h) \<longleftrightarrow> True"
| "register_op (Insert_token h u p ttl) \<longleftrightarrow> p = ''verify''"
| "register_op _ \<longleftrightarrow> False"

lemma via_register: "keeps (via register_op) E (register A email password)"
  unfolding register_def enrol_def Let_def by (intro via.keeps_rules guar; simp)

fun redeem_op :: "op \<Rightarrow> bool" where
  "redeem_op (Consume h p) \<longleftrightarrow> True" | "redeem_op (Set_password h u) \<longleftrightarrow> True"
| "redeem_op (Mark_verified u) \<longleftrightarrow> True" | "redeem_op (Revoke_all u) \<longleftrightarrow> True"
| "redeem_op _ \<longleftrightarrow> False"

lemma via_redeem:
  "keeps (via redeem_op) E (reset_password A token password)"
  "keeps (via redeem_op) E (verify_email token)"
  "keeps (via redeem_op) E (accept_invite A token password)"
  unfolding reset_password_def recover_def verify_email_def accept_invite_def
  by (intro via.keeps_rules guar; simp)+

end
