(* ===== verification/Go_Url.thy ===== *)
theory Go_Url
  imports Go_Net
begin

text \<open>
  What kal uses of Go's \<open>net/url\<close>: \<open>Parse\<close>, down to the scheme, host, query and fragment of
  the result, and \<open>Hostname\<close>. The rules are those of the releases the module requires (Go
  1.26 and later): at most one colon in an unbracketed host, only an IPv6 address in brackets.
  \<open>None\<close> is an error; the text of net/url's errors is not modelled.
\<close>

section \<open>Cutting\<close>

definition cut :: "char \<Rightarrow> string \<Rightarrow> string \<times> string" where
  "cut c s = (takeWhile (\<lambda>x. x \<noteq> c) s, drop 1 (dropWhile (\<lambda>x. x \<noteq> c) s))"

definition is_alpha :: "char \<Rightarrow> bool" where
  "is_alpha c \<longleftrightarrow> 65 \<le> code c \<and> code c \<le> 90 \<or> 97 \<le> code c \<and> code c \<le> 122"

definition scheme_tail :: "char \<Rightarrow> bool" where
  "scheme_tail c \<longleftrightarrow> is_alpha c \<or> is_digit c \<or> c \<in> set ''+-.''"

text \<open>getScheme: letters, digits and \<open>+-.\<close> up to a colon, a letter first; else no scheme.\<close>

definition get_scheme :: "string \<Rightarrow> (string \<times> string) option" where
  "get_scheme s =
     (case dropWhile scheme_tail s of
        [] \<Rightarrow> Some ([], s)
      | c # rest \<Rightarrow>
          let sch = takeWhile scheme_tail s in
          if sch \<noteq> [] \<and> \<not> is_alpha (hd sch) then Some ([], s)
          else if c \<noteq> CHR '':'' then Some ([], s)
          else if sch = [] then None
          else Some (sch, rest))"

section \<open>Escapes\<close>

datatype escape_mode = EncodeHost | EncodeZone | EncodePath | EncodeUser | EncodeFragment

text \<open>The characters a host may hold as they are.\<close>

definition host_char :: "char \<Rightarrow> bool" where
  "host_char c \<longleftrightarrow> is_alpha c \<or> is_digit c \<or> c \<in> set ''-_.~!$&()*+,;=:[]<>'' \<or> c = CHR 0x22 \<or> c = CHR 0x27"

definition is_hex :: "char \<Rightarrow> bool" where
  "is_hex c \<longleftrightarrow> hex_val c \<noteq> None"

definition hex_byte :: "char \<Rightarrow> char \<Rightarrow> nat" where
  "hex_byte a b = hex_number [a, b]"

definition host_mode :: "escape_mode \<Rightarrow> bool" where
  "host_mode m \<longleftrightarrow> m = EncodeHost \<or> m = EncodeZone"

fun unescape :: "escape_mode \<Rightarrow> string \<Rightarrow> string option" where
  "unescape m [] = Some []"
| "unescape m (c # s) =
     (if c = CHR ''%'' then
        (case s of
           a # b # r \<Rightarrow>
             if \<not> is_hex a \<or> \<not> is_hex b then None
             else if m = EncodeHost \<and> hex_byte a b < 128 \<and> [a, b] \<noteq> ''25'' then None
             else if m = EncodeZone \<and> [a, b] \<noteq> ''25'' \<and> hex_byte a b \<noteq> 32
                     \<and> \<not> host_char (char_of (hex_byte a b)) then None
             else map_option ((#) (char_of (hex_byte a b))) (unescape m r)
         | _ \<Rightarrow> None)
      else if host_mode m \<and> code c < 128 \<and> \<not> host_char c then None
      else map_option ((#) c) (unescape m s))"

section \<open>The authority\<close>

definition valid_optional_port :: "string \<Rightarrow> bool" where
  "valid_optional_port s = (case s of [] \<Rightarrow> True | c # ds \<Rightarrow> c = CHR '':'' \<and> list_all is_digit ds)"

text \<open>What netip.ParseAddr takes for an IPv6 address: a zone, when there is one, is not empty.\<close>

definition ipv6_literal :: "string \<Rightarrow> bool" where
  "ipv6_literal s =
     (case dropWhile (\<lambda>c. c \<noteq> CHR ''.'' \<and> c \<noteq> CHR '':'' \<and> c \<noteq> CHR ''%'') s of
        [] \<Rightarrow> False
      | c # _ \<Rightarrow> c = CHR '':'' \<and> parse_ipv6 (fst (cut CHR ''%'' s)) \<noteq> None
          \<and> (CHR ''%'' \<in> set s \<longrightarrow> snd (cut CHR ''%'' s) \<noteq> []))"

fun find_zone :: "string \<Rightarrow> string \<Rightarrow> string \<times> string" where
  "find_zone acc [] = (acc, [])"
| "find_zone acc (c # s) =
     (if has_prefix (c # s) ''%25'' then (acc, c # s) else find_zone (acc @ [c]) s)"

definition parse_host :: "string \<Rightarrow> string option" where
  "parse_host host =
     (case last_index CHR ''['' host of
        Some n \<Rightarrow>
          if 0 < n then None
          else (case last_index CHR '']'' host of
            None \<Rightarrow> None
          | Some i \<Rightarrow>
              let port = drop (i + 1) host; (name, zone) = find_zone [] (take (i - 1) (drop 1 host)) in
              if \<not> valid_optional_port port then None
              else (case (unescape EncodeHost name, unescape EncodeZone zone) of
                (Some nm, Some zn) \<Rightarrow>
                  if ipv6_literal (nm @ zn) then Some (''['' @ nm @ zn @ '']'' @ port) else None
              | _ \<Rightarrow> None))
      | None \<Rightarrow>
          if CHR '':'' \<in> set host \<and> \<not> valid_optional_port (CHR '':'' # snd (cut CHR '':'' host)) then None
          else unescape EncodeHost host)"

definition user_char :: "char \<Rightarrow> bool" where
  "user_char c \<longleftrightarrow> is_alpha c \<or> is_digit c \<or> c \<in> set ''-._:~!$&()*+,;=%@'' \<or> c = CHR 0x27"

text \<open>The host after the last \<open>@\<close>; the user information must be well formed.\<close>

definition parse_authority :: "string \<Rightarrow> string option" where
  "parse_authority s =
     (case last_index CHR ''@'' s of
        None \<Rightarrow> parse_host s
      | Some i \<Rightarrow>
          (case parse_host (drop (i + 1) s) of
             None \<Rightarrow> None
           | Some h \<Rightarrow>
               if \<not> list_all user_char (take i s) then None
               else if unescape EncodeUser (fst (cut CHR '':'' (take i s))) = None
                    \<or> unescape EncodeUser (snd (cut CHR '':'' (take i s))) = None then None
               else Some h))"

section \<open>Parsing\<close>

record url =
  url_scheme :: string
  url_host :: string
  url_raw_query :: string
  url_fragment :: string

definition no_url :: url where
  "no_url = \<lparr>url_scheme = [], url_host = [], url_raw_query = [], url_fragment = []\<rparr>"

definition ctl_byte :: "char \<Rightarrow> bool" where
  "ctl_byte c \<longleftrightarrow> code c < 32 \<or> code c = 127"

definition parse_hierarchy :: "url \<Rightarrow> string \<Rightarrow> url option" where
  "parse_hierarchy u rest =
     (if \<not> has_prefix rest ''/'' \<and> url_scheme u \<noteq> [] then Some u  \<comment> \<open>an opaque URL\<close>
      else if \<not> has_prefix rest ''/'' \<and> CHR '':'' \<in> set (fst (cut CHR ''/'' rest)) then None
      else if (url_scheme u \<noteq> [] \<or> \<not> has_prefix rest ''///'') \<and> has_prefix rest ''//'' then
        (let authority = fst (cut CHR ''/'' (drop 2 rest)); path = drop (2 + length authority) rest in
         case parse_authority authority of
           None \<Rightarrow> None
         | Some h \<Rightarrow> if unescape EncodePath path = None then None else Some (u\<lparr>url_host := h\<rparr>))
      else if unescape EncodePath rest = None then None else Some u)"

definition parse_no_fragment :: "string \<Rightarrow> url option" where
  "parse_no_fragment s =
     (if list_ex ctl_byte s then None
      else if s = ''*'' then Some no_url
      else case get_scheme s of
        None \<Rightarrow> None
      | Some (sch, rest) \<Rightarrow>
          let (path, query) = cut CHR ''?'' rest in
          parse_hierarchy (no_url\<lparr>url_scheme := map lower_char sch, url_raw_query := query\<rparr>) path)"

definition url_parse :: "string \<Rightarrow> url option" where
  "url_parse raw =
     (let (s, frag) = cut CHR ''#'' raw in
      case parse_no_fragment s of
        None \<Rightarrow> None
      | Some u \<Rightarrow> map_option (\<lambda>f. u\<lparr>url_fragment := f\<rparr>) (unescape EncodeFragment frag))"

definition url_hostname :: "url \<Rightarrow> string" where
  "url_hostname u =
     (let h = url_host u;
          host = (case last_index CHR '':'' h of None \<Rightarrow> h
                  | Some i \<Rightarrow> if valid_optional_port (drop i h) then take i h else h) in
      if has_prefix host ''['' \<and> host \<noteq> [] \<and> last host = CHR '']'' then butlast (drop 1 host) else host)"

section \<open>Lemmas\<close>

lemma cut_append: "c \<notin> set s \<Longrightarrow> cut c (s @ c # t) = (s, t)"
  by (simp add: cut_def takeWhile_append dropWhile_append)

lemma cut_none: "c \<notin> set s \<Longrightarrow> cut c s = (s, [])"
proof -
  assume "c \<notin> set s"
  then have "takeWhile (\<lambda>x. x \<noteq> c) s = s" and "dropWhile (\<lambda>x. x \<noteq> c) s = []"
    by (auto simp: takeWhile_eq_all_conv dropWhile_eq_Nil_conv)
  then show ?thesis unfolding cut_def by (simp only: drop_Nil)
qed

lemma cut_cases: "s = fst (cut c s) \<or> s = fst (cut c s) @ c # snd (cut c s)"
proof (cases "dropWhile (\<lambda>x. x \<noteq> c) s")
  case Nil
  then have "c \<notin> set s" by (auto simp: dropWhile_eq_Nil_conv)
  then show ?thesis by (simp add: cut_none)
next
  case (Cons y r)
  then have "y = c" by (metis (mono_tags, lifting) dropWhile_eq_Cons_conv)
  with Cons have "s = takeWhile (\<lambda>x. x \<noteq> c) s @ c # r"
    by (metis takeWhile_dropWhile_id)
  with Cons show ?thesis by (simp add: cut_def)
qed

lemma cut_empty_after: "snd (cut c s) = [] \<Longrightarrow> s = fst (cut c s) \<or> s = fst (cut c s) @ [c]"
  using cut_cases [of s c] by auto

lemma cut_before: "c \<notin> set (fst (cut c s))"
  by (auto simp: cut_def dest: set_takeWhileD)

lemma get_scheme_split:
  "get_scheme s = Some (sch, rest) \<Longrightarrow> sch \<noteq> [] \<Longrightarrow> s = sch @ CHR '':'' # rest"
  by (auto simp: get_scheme_def Let_def split: list.splits if_splits)
    (metis takeWhile_dropWhile_id)+

lemma parse_authority_Nil: "parse_authority [] = Some []"
  by (simp add: parse_authority_def parse_host_def last_index_def)

lemma parse_hierarchy_host:
  assumes "parse_hierarchy u rest = Some v" and "url_host u = []" and "url_host v \<noteq> []"
  obtains a path h where "rest = ''//'' @ a # path" and "a \<noteq> CHR ''/''" and "v = u\<lparr>url_host := h\<rparr>"
proof -
  from assms obtain path h where rest: "rest = ''//'' @ path" and v: "v = u\<lparr>url_host := h\<rparr>"
    and h: "parse_authority (fst (cut CHR ''/'' path)) = Some h"
    by (auto simp: parse_hierarchy_def Let_def has_prefix_iff split: if_splits option.splits)
  have "h \<noteq> []"
    using assms(3) v by simp
  with h have "fst (cut CHR ''/'' path) \<noteq> []"
    by (auto simp: parse_authority_Nil)
  then obtain a p where "path = a # p" and "a \<noteq> CHR ''/''"
    by (cases path) (auto simp: cut_def split: if_splits)
  with rest v show thesis
    by (intro that) auto
qed

lemma trim_right_char_keeps:
  assumes "a \<noteq> c"
  obtains z where "trim_right_char c (p @ a # x) = p @ a # z"
proof -
  have "\<exists>y. dropWhile (\<lambda>d. d = c) (rev x @ a # rev p) = y @ a # rev p" for x
    using assms by (induction x rule: rev_induct) auto
  then obtain y where "dropWhile (\<lambda>d. d = c) (rev x @ a # rev p) = y @ a # rev p"
    by blast
  then have "trim_right_char c (p @ a # x) = p @ a # rev y"
    by (simp add: trim_right_char_def)
  then show thesis by (rule that)
qed

end
