(* ===== verification/Base_Url.thy ===== *)
theory Base_Url
  imports Account_Tokens Go_Url
begin

text \<open>
  The construction of the credential flows: \<open>ValidateBaseURL\<close>, \<open>isLoopback\<close> and \<open>NewAccounts\<close>
  of \<open>authn/accounts.go\<close>. A required field that may be nil is an option or a flag.
\<close>

section \<open>The origin of emailed links\<close>

definition base_url_missing :: goerr where
  "base_url_missing = Text (''authn: BaseURL is required '' @ em_dash
     @ '' emailed links have no origin without it, and taking one from the request Host header is Host-header injection'')"

definition is_loopback :: "string \<Rightarrow> bool" where
  "is_loopback host \<longleftrightarrow> host = ''localhost''
     \<or> (case parse_ip host of None \<Rightarrow> False | Some ip \<Rightarrow> is_loopback_ip ip)"

text \<open>\<open>None\<close> accepts. The parse error's own text is net/url's and not modelled.\<close>

definition validate_base_url :: "string \<Rightarrow> goerr option" where
  "validate_base_url raw =
     (if raw = [] then Some base_url_missing
      else case url_parse raw of
        None \<Rightarrow> Some (Wrapped ''authn: BaseURL is not a URL: '' (Text ''parse''))
      | Some u \<Rightarrow>
          if url_host u = [] then Some (Text ''authn: BaseURL must be absolute, e.g. https://app.example.com'')
          else if url_raw_query u \<noteq> [] \<or> url_fragment u \<noteq> []
          then Some (Text ''authn: BaseURL must not carry a query or fragment'')
          else if url_scheme u \<noteq> ''https'' \<and> \<not> is_loopback (url_hostname u)
          then Some (Text ''authn: BaseURL must be https outside localhost'')
          else None)"

section \<open>NewAccounts\<close>

record accounts_options =
  ao_hasher :: "hasher option"
  ao_sessions :: "sessions_cfg option"
  ao_mailer :: bool
  ao_base_url :: string
  ao_cookie :: string
  ao_schema :: string
  ao_secret_shape :: "(string \<Rightarrow> goerr option) option"
  ao_allow_unverified :: bool
  ao_audit :: bool

definition accounts_schema_error :: goerr where
  "accounts_schema_error = Text ''authn: table schema must match ^[a-z_][a-z0-9_]*$''"

text \<open>The service and the prefix its statements are rendered with.\<close>

definition new_accounts :: "(string \<Rightarrow> string) \<Rightarrow> accounts_options \<Rightarrow> goerr + accounts \<times> string" where
  "new_accounts append_ident opts =
     (case (ao_hasher opts, ao_sessions opts, ao_mailer opts) of
        (Some H, Some S, True) \<Rightarrow>
          (case validate_base_url (ao_base_url opts) of
             Some e \<Rightarrow> Inl e
           | None \<Rightarrow>
               (case schema_prefix append_ident (ao_schema opts) of
                  None \<Rightarrow> Inl accounts_schema_error
                | Some prefix \<Rightarrow> Inr
                    (\<lparr>ac_hasher = H, ac_sessions = S,
                      ac_base_url = trim_right_char CHR ''/'' (ao_base_url opts),
                      ac_cookie = (if ao_cookie opts = [] then DefaultCookieName else ao_cookie opts),
                      ac_secret_shape = (case ao_secret_shape opts of None \<Rightarrow> validate_password | Some f \<Rightarrow> f),
                      ac_allow_unverified = ao_allow_unverified opts, ac_audit = ao_audit opts\<rparr>, prefix)))
      | _ \<Rightarrow> Inl (Text (''authn: Hasher, Sessions and Mailer are all required '' @ em_dash
               @ '' there is no default for any of them'')))"

section \<open>What an accepted origin looks like\<close>

lemma validate_base_url_None:
  "validate_base_url raw = None \<longleftrightarrow> raw \<noteq> [] \<and> (\<exists>u. url_parse raw = Some u \<and> url_host u \<noteq> []
     \<and> url_raw_query u = [] \<and> url_fragment u = []
     \<and> (url_scheme u = ''https'' \<or> is_loopback (url_hostname u)))"
  by (auto simp: validate_base_url_def split: option.splits)

lemma unescape_Nil: "unescape m s = Some [] \<Longrightarrow> s = []"
  by (cases s) (auto split: if_splits list.splits)

lemma url_parse_parts:
  assumes "url_parse raw = Some u" and "url_host u \<noteq> []" and "url_raw_query u = []" and "url_fragment u = []"
  obtains sch a path t where "raw = (if sch = [] then [] else sch @ '':'') @ ''//'' @ a # path @ t"
    and "url_scheme u = map lower_char sch" and "t \<in> {[], ''?'', ''#'', ''?#''}" and "a \<noteq> CHR ''/''"
    and "CHR ''#'' \<notin> set path" and "CHR ''?'' \<notin> set path"
proof -
  let ?s = "fst (cut CHR ''#'' raw)"
  from assms obtain u0 where u0: "parse_no_fragment ?s = Some u0" and "snd (cut CHR ''#'' raw) = []"
    and same: "url_scheme u0 = url_scheme u" "url_host u0 \<noteq> []" "url_raw_query u0 = []"
    by (auto simp: url_parse_def Let_def split: prod.splits option.splits dest!: unescape_Nil)
  then have raw: "raw = ?s \<or> raw = ?s @ ''#''" and nohash: "CHR ''#'' \<notin> set ?s"
    using cut_empty_after cut_before by metis+
  from u0 same(2) obtain sch rest where sch: "get_scheme ?s = Some (sch, rest)"
    and h: "parse_hierarchy (no_url\<lparr>url_scheme := map lower_char sch, url_raw_query := snd (cut CHR ''?'' rest)\<rparr>)
              (fst (cut CHR ''?'' rest)) = Some u0"
    by (auto simp: parse_no_fragment_def no_url_def split: if_splits option.splits prod.splits)
  obtain a path g where path: "fst (cut CHR ''?'' rest) = ''//'' @ a # path" and a: "a \<noteq> CHR ''/''"
    and g: "u0 = no_url\<lparr>url_scheme := map lower_char sch, url_raw_query := snd (cut CHR ''?'' rest)\<rparr>\<lparr>url_host := g\<rparr>"
    by (rule parse_hierarchy_host [OF h]) (simp_all add: no_url_def same(2))
  have query: "snd (cut CHR ''?'' rest) = []" and scheme: "url_scheme u = map lower_char sch"
    using same(1,3) by (simp_all add: g)
  then have rest: "rest = ''//'' @ a # path \<or> rest = ''//'' @ a # path @ ''?''" and noq: "CHR ''?'' \<notin> set path"
    using cut_empty_after [OF query] cut_before [of "CHR ''?''" rest] by (auto simp: path)
  have s: "?s = (if sch = [] then [] else sch @ '':'') @ rest"
    using sch get_scheme_split [OF sch] by (auto simp: get_scheme_def Let_def split: list.splits if_splits)
  from rest obtain t1 where t1: "rest = ''//'' @ a # path @ t1" "t1 \<in> {[], ''?''}" by auto
  from raw obtain t2 where t2: "raw = ?s @ t2" "t2 \<in> {[], ''#''}" by force
  have "raw = (if sch = [] then [] else sch @ '':'') @ ''//'' @ a # path @ t1 @ t2"
    by (subst t2(1), subst s, subst t1(1)) simp
  moreover have "t1 @ t2 \<in> {[], ''?'', ''#'', ''?#''}"
    using t1(2) t2(2) by auto
  moreover have "CHR ''#'' \<notin> set path"
    using nohash unfolding s t1(1) by (auto split: if_splits)
  ultimately show thesis
    using scheme noq a by (intro that [of sch a path "t1 @ t2"])
qed

lemma new_accounts_Inr:
  "new_accounts append_ident opts = Inr (A, prefix) \<longleftrightarrow>
     (\<exists>H S. ao_hasher opts = Some H \<and> ao_sessions opts = Some S \<and> ao_mailer opts
        \<and> validate_base_url (ao_base_url opts) = None \<and> schema_prefix append_ident (ao_schema opts) = Some prefix
        \<and> A = \<lparr>ac_hasher = H, ac_sessions = S, ac_base_url = trim_right_char CHR ''/'' (ao_base_url opts),
               ac_cookie = (if ao_cookie opts = [] then DefaultCookieName else ao_cookie opts),
               ac_secret_shape = (case ao_secret_shape opts of None \<Rightarrow> validate_password | Some f \<Rightarrow> f),
               ac_allow_unverified = ao_allow_unverified opts, ac_audit = ao_audit opts\<rparr>)"
  by (cases "ao_hasher opts"; cases "ao_sessions opts"; cases "ao_mailer opts")
    (auto simp: new_accounts_def split: option.splits)

definition https_link :: "string \<Rightarrow> bool" where
  "https_link s \<longleftrightarrow> map lower_char (take 8 s) = ''https://''"

lemma https_linkI:
  assumes "map lower_char sch = ''https''"
  shows "https_link (sch @ ''://'' @ z)"
proof -
  have "length sch = 5"
    using arg_cong [OF assms, of length] by simp
  with assms show ?thesis by (simp add: https_link_def lower_char_def)
qed

lemma https_link_append: "https_link s \<Longrightarrow> https_link (s @ t)"
proof -
  assume s: "https_link s"
  then have "8 \<le> length s"
    using arg_cong [OF s [unfolded https_link_def], of length] by simp
  with s show ?thesis by (simp add: https_link_def)
qed

text \<open>The trailing slashes NewAccounts trims never reach into the scheme.\<close>

lemma trimmed_origin:
  assumes "validate_base_url raw = None"
  shows "\<exists>u. url_parse raw = Some u \<and> url_host u \<noteq> []
      \<and> (is_loopback (url_hostname u) \<or> https_link (trim_right_char CHR ''/'' raw))"
proof -
  from assms obtain u where u: "url_parse raw = Some u" "url_host u \<noteq> []" "url_raw_query u = []"
    "url_fragment u = []" and origin: "url_scheme u = ''https'' \<or> is_loopback (url_hostname u)"
    by (auto simp: validate_base_url_None)
  obtain sch a path t where raw: "raw = (if sch = [] then [] else sch @ '':'') @ ''//'' @ a # path @ t"
    and scheme: "url_scheme u = map lower_char sch" and a: "a \<noteq> CHR ''/''"
    using url_parse_parts [OF u] by metis
  show ?thesis
  proof (cases "is_loopback (url_hostname u)")
    case False
    with origin scheme have https: "map lower_char sch = ''https''" and "sch \<noteq> []" by auto
    obtain z where "trim_right_char CHR ''/'' ((sch @ ''://'') @ a # path @ t) = (sch @ ''://'') @ a # z"
      by (rule trim_right_char_keeps [OF a])
    then have "trim_right_char CHR ''/'' raw = sch @ ''://'' @ a # z"
      using \<open>sch \<noteq> []\<close> by (simp add: raw)
    with https_linkI [OF https] u(1,2) show ?thesis by simp
  qed (use u(1,2) in blast)
qed

section \<open>Properties\<close>

text \<open>C38 Every emailed link of a service NewAccounts built starts with \<open>https://\<close>, in some
  spelling of the letters, unless the configured host is the local machine: the kind, the
  token and the slashes trimmed from the configured origin cannot change that.\<close>

theorem links_are_https:
  assumes "new_accounts append_ident opts = Inr (A, prefix)"
  shows "\<exists>u. url_parse (ao_base_url opts) = Some u \<and> url_host u \<noteq> []
    \<and> (is_loopback (url_hostname u) \<or> https_link (link A kind token))"
proof -
  from assms have base: "validate_base_url (ao_base_url opts) = None"
    and A: "ac_base_url A = trim_right_char CHR ''/'' (ao_base_url opts)"
    by (auto simp: new_accounts_Inr)
  from trimmed_origin [OF base] show ?thesis
    unfolding link_def A using https_link_append by blast
qed

definition sample_options :: accounts_options where
  "sample_options = \<lparr>ao_hasher = Some (sample_hasher 8), ao_sessions = Some sample_cfg, ao_mailer = True,
     ao_base_url = ''https://x.io/'', ao_cookie = [], ao_schema = [], ao_secret_shape = None,
     ao_allow_unverified = False, ao_audit = False\<rparr>"

lemma sample_url: "url_parse ''https://x.io/'' = Some (no_url\<lparr>url_scheme := ''https'', url_host := ''x.io''\<rparr>)"
  by code_simp

theorem links_are_https_witness:
  "\<exists>A. new_accounts id sample_options = Inr (A, []) \<and> https_link (link A ''verify'' ''t'')"
proof -
  have ok: "validate_base_url ''https://x.io/'' = None"
    by (simp add: validate_base_url_None sample_url no_url_def)
  then obtain A where A: "new_accounts id sample_options = Inr (A, [])"
    by (simp add: new_accounts_Inr sample_options_def schema_prefix_def)
  have "\<not> is_loopback (url_hostname (no_url\<lparr>url_scheme := ''https'', url_host := ''x.io''\<rparr>))"
    by code_simp
  with links_are_https [OF A, of "''verify''" "''t''"] show ?thesis
    by (auto simp: sample_options_def sample_url A [unfolded sample_options_def])
qed

text \<open>
  What the comment on ValidateBaseURL promises and the code does not check: a path, a query or
  fragment mark with nothing behind it, and, for the local machine, any scheme or none.
\<close>

lemma lenient_base_urls:
  "validate_base_url ''https://x.io/app/login'' = None" "validate_base_url ''https://x.io?'' = None"
  "validate_base_url ''https://x.io#'' = None" "validate_base_url ''//localhost'' = None"
  by code_simp+

end
