(* ===== verification/Vaults.thy ===== *)
theory Vaults
  imports Session_Store
begin

text \<open>
  \<open>e2ee/e2ee.go\<close>: the client's KDF parameters, the one wrapped key per user, and the shape
  of a derived secret.
\<close>

section \<open>Parameters and configuration\<close>

definition KDFArgon2id :: string where "KDFArgon2id = ''argon2id''"
definition KDFPBKDF2 :: string where "KDFPBKDF2 = ''pbkdf2''"
definition authSecretPrefix :: string where "authSecretPrefix = ''kal1.''"
definition authSecretBytes :: nat where "authSecretBytes = 32"
definition authSecretChars :: nat where "authSecretChars = 43"
definition saltDomain :: string where "saltDomain = ''kal.e2ee.salt|''"
definition saltLen :: nat where "saltLen = 16"
definition minPepperLen :: nat where "minPepperLen = 32"
definition defaultMaxBlob :: int where "defaultMaxBlob = 8192"

record vault_params =
  vp_kdf :: string
  vp_salt :: "byte list"
  vp_memory :: "32 word"
  vp_iterations :: "32 word"
  vp_parallelism :: "8 word"

definition with_defaults :: "vault_params \<Rightarrow> vault_params \<Rightarrow> vault_params" where
  "with_defaults p d = p\<lparr>
     vp_kdf := (if vp_kdf p = [] then vp_kdf d else vp_kdf p),
     vp_memory := (if vp_memory p = 0 then vp_memory d else vp_memory p),
     vp_iterations := (if vp_iterations p = 0 then vp_iterations d else vp_iterations p),
     vp_parallelism := 1\<rparr>"

record vault_options =
  vo_pepper :: "byte list"
  vo_default :: vault_params
  vo_floor :: vault_params
  vo_max_blob :: int
  vo_schema :: string
  vo_allow_no_recovery :: bool

record vaults_cfg =
  vc_pepper :: "byte list"
  vc_default :: vault_params
  vc_floor :: vault_params
  vc_max_blob :: int
  vc_allow_no_recovery :: bool
  vc_prefix :: string

definition basic_params :: "nat \<Rightarrow> nat \<Rightarrow> vault_params" where
  "basic_params mem iter = \<lparr>vp_kdf = KDFArgon2id, vp_salt = [], vp_memory = word_of_nat mem,
     vp_iterations = word_of_nat iter, vp_parallelism = 0\<rparr>"

definition pepper_error :: goerr where
  "pepper_error = Text (''e2ee: Options.Pepper is required and must be at least 32 bytes '' @ em_dash
     @ '' there is no default, because a pepper generated when missing differs per replica and per restart, and the salt it produces would move under the user''
     @ [CHR 0x27] @ ''s feet'')"

definition new_vaults :: "(string \<Rightarrow> string) \<Rightarrow> vault_options \<Rightarrow> goerr + vaults_cfg" where
  "new_vaults append_ident opts =
     (if length (vo_pepper opts) < minPepperLen then Inl pepper_error
      else case schema_prefix append_ident (vo_schema opts) of
        None \<Rightarrow> Inl schema_error
      | Some p \<Rightarrow> Inr
          \<lparr>vc_pepper = vo_pepper opts,
           vc_default = with_defaults (vo_default opts) (basic_params 65536 3),
           vc_floor = with_defaults (vo_floor opts) (basic_params 19456 2),
           vc_max_blob = (if vo_max_blob opts \<le> 0 then defaultMaxBlob else vo_max_blob opts),
           vc_allow_no_recovery = vo_allow_no_recovery opts, vc_prefix = p\<rparr>)"

section \<open>Operations\<close>

definition vault_salt :: "vaults_cfg \<Rightarrow> string \<Rightarrow> byte list" where
  "vault_salt V email = take saltLen (hmac_sha256 (vc_pepper V) (bytes_of (saltDomain @ email)))"

text \<open>The columns, scanned into the fields' widths.\<close>

definition scanned :: "kdf_row \<Rightarrow> vault_params" where
  "scanned k = (case k of (kdf, salt, mem, iter, par) \<Rightarrow>
     \<lparr>vp_kdf = kdf, vp_salt = salt, vp_memory = word_of_int mem, vp_iterations = word_of_int iter,
      vp_parallelism = word_of_int par\<rparr>)"

definition client_params :: "vaults_cfg \<Rightarrow> string \<Rightarrow> vault_params prog" where
  "client_params V email_in = with_env (\<lambda>E.
     let email = to_lower (unicode E) (trim_space email_in) in
     bindM (query_one (params_by_email_sql (unicode E) email)) (\<lambda>r. case r of
       Inl e \<Rightarrow> if is_no_rows e then ret ((vc_default V)\<lparr>vp_salt := vault_salt V email\<rparr>) else fail e
     | Inr k \<Rightarrow> ret (scanned k)))"

text \<open>An absent blob and an empty one are the same Go slice length; NULL and empty differ in the column.\<close>

record vault =
  vt_wrapped :: "byte list option"
  vt_recovery :: "byte list option"
  vt_params :: vault_params
  vt_version :: int
  vt_stale :: bool

definition blob_len :: "byte list option \<Rightarrow> nat" where
  "blob_len b = (case b of None \<Rightarrow> 0 | Some x \<Rightarrow> length x)"

definition get_vault :: "ctx \<Rightarrow> vault option prog" where
  "get_vault c = tryM (lift (require c)) (\<lambda>p.
     bindM (query_one (vault_by_user_sql (p_user p))) (\<lambda>r. case r of
       Inl e \<Rightarrow> if is_no_rows e then ret None else fail e
     | Inr (wrapped, recovery, version, stale, k) \<Rightarrow>
         ret (Some \<lparr>vt_wrapped = wrapped, vt_recovery = recovery, vt_params = scanned k,
                    vt_version = version, vt_stale = stale\<rparr>)))"

definition recovery_error :: goerr where
  "recovery_error = invalid_input (''a recovery wrapping is required '' @ em_dash
     @ '' without one, a forgotten password is unrecoverable data loss'')"

definition check_vault :: "vaults_cfg \<Rightarrow> vault \<Rightarrow> goerr option" where
  "check_vault V v =
     (if blob_len (vt_wrapped v) = 0 then Some (invalid_input ''a wrapped key is required'')
      else if vc_max_blob V < int (blob_len (vt_wrapped v)) \<or> vc_max_blob V < int (blob_len (vt_recovery v))
      then Some (invalid_input ''wrapped key exceeds the configured maximum'')
      else if \<not> vc_allow_no_recovery V \<and> blob_len (vt_recovery v) = 0 then Some recovery_error
      else let params = with_defaults (vt_params v) (vc_default V) in
        if vp_kdf params \<noteq> KDFArgon2id \<and> vp_kdf params \<noteq> KDFPBKDF2
        then Some (invalid_input ''unknown client KDF'')
        else if vp_memory params < vp_memory (vc_floor V) \<or> vp_iterations params < vp_iterations (vc_floor V)
        then Some (invalid_input ''client KDF parameters are below the configured floor'')
        else None)"

definition conflict_error :: "goerr \<Rightarrow> goerr" where
  "conflict_error e = KalErr CodeConflict ''the vault changed since it was read; re-read it and try again'' (Some e)"

definition put_vault :: "vaults_cfg \<Rightarrow> ctx \<Rightarrow> vault \<Rightarrow> unit prog" where
  "put_vault V c v = with_env (\<lambda>E. tryM (lift (require c)) (\<lambda>p.
     case check_vault V v of
       Some e \<Rightarrow> fail e
     | None \<Rightarrow>
         (let params = with_defaults (vt_params v) (vc_default V) in
          bindM (query_one (put_vault_sql (vp_kdf params)
                   (vault_salt V (to_lower (unicode E) (trim_space (p_email p))))
                   (uint (vp_memory params)) (uint (vp_iterations params))
                   (the (vt_wrapped v)) (vt_recovery v) (p_user p) (vt_version v))) (\<lambda>r. case r of
            Inl e \<Rightarrow> fail (if is_no_rows e then conflict_error e else e)
          | Inr version \<Rightarrow> ret ()))))"

definition discard_vault :: "ctx \<Rightarrow> unit prog" where
  "discard_vault c = tryM (lift (require c)) (\<lambda>p.
     tryM (exec (delete_vault_sql (p_user p))) (\<lambda>n. ret ()))"

section \<open>Secrets and codes\<close>

definition secret_shape_error :: goerr where
  "secret_shape_error = invalid_input (''an auth secret is 32 bytes of unpadded base64url after ''
     @ [CHR 0x22] @ ''kal1.'' @ [CHR 0x22])"

definition validate_auth_secret :: "string \<Rightarrow> goerr option" where
  "validate_auth_secret s =
     (case cut_prefix s authSecretPrefix of
        None \<Rightarrow> Some (invalid_input (''expected a client-derived auth secret, not a password ''
                  @ em_dash @ '' see docs/e2ee-client.md''))
      | Some rest \<Rightarrow>
          if length rest \<noteq> authSecretChars then Some secret_shape_error
          else (case b64_decode url_alphabet True rest of
                  None \<Rightarrow> Some secret_shape_error
                | Some raw \<Rightarrow> if length raw \<noteq> authSecretBytes then Some secret_shape_error else None))"

definition new_recovery_code :: "string prog" where
  "new_recovery_code = tryM new_token (\<lambda>(code, hash). ret code)"

section \<open>Effects\<close>

lemma via_vaults [guar]:
  "keeps (via ok) E (client_params V email)" "keeps (via ok) E (get_vault c)"
  "(\<And>i. from_ctx c = Some i \<Longrightarrow> ok (Delete_vault (p_user i))) \<Longrightarrow> keeps (via ok) E (discard_vault c)"
  "(\<And>k s m n b r u ver. ok (Put_vault k s m n b r u ver)) \<Longrightarrow> keeps (via ok) E (put_vault V c v)"
proof -
  show "keeps (via ok) E (client_params V email)" "keeps (via ok) E (get_vault c)"
    unfolding client_params_def get_vault_def Let_def by (intro via.keeps_rules guar)+
  assume "\<And>k s m n b r u ver. ok (Put_vault k s m n b r u ver)"
  then show "keeps (via ok) E (put_vault V c v)"
    unfolding put_vault_def Let_def by (intro via.keeps_rules guar)
next
  assume "\<And>i. from_ctx c = Some i \<Longrightarrow> ok (Delete_vault (p_user i))"
  then show "keeps (via ok) E (discard_vault c)"
    unfolding discard_vault_def require_def
    by (cases "from_ctx c") (simp_all, (intro via.keeps_rules guar; simp)+)
qed

end
