(* ===== verification/Guard.thy ===== *)
theory Guard
  imports Kalerr
begin

text \<open>
  The document guard of \<open>guard.go\<close> and the limits \<open>Configure\<close> in \<open>kal.go\<close> gives it. A
  GraphQL document is its operations and fragments, each a selection set.
\<close>

section \<open>Documents\<close>

datatype selection =
    Field string "selection list"
  | InlineFragment "selection list"
  | FragmentSpread string

record document =
  doc_operations :: "selection list list"
  doc_fragments :: "selection list list"

section \<open>Walking\<close>

record tally =
  tl_counts :: "string \<Rightarrow> nat"
  tl_total :: nat
  tl_depth :: nat

definition no_tally :: tally where
  "no_tally = \<lparr>tl_counts = (\<lambda>_. 0), tl_total = 0, tl_depth = 0\<rparr>"

definition enter :: "nat \<Rightarrow> tally \<Rightarrow> tally" where
  "enter level t = (if tl_depth t < level then t\<lparr>tl_depth := level\<rparr> else t)"

definition count_field :: "string \<Rightarrow> tally \<Rightarrow> tally" where
  "count_field name t = t\<lparr>tl_counts := (tl_counts t)(name := tl_counts t name + 1), tl_total := tl_total t + 1\<rparr>"

text \<open>The loop over one set; \<open>walk_selections\<close> is the call, which records its level first.\<close>

fun walk_list :: "selection list \<Rightarrow> nat \<Rightarrow> tally \<Rightarrow> tally" where
  "walk_list [] level t = t"
| "walk_list (Field name sub # rest) level t =
     walk_list rest level (walk_list sub (level + 1) (enter (level + 1) (count_field name t)))"
| "walk_list (InlineFragment sub # rest) level t =
     walk_list rest level (walk_list sub level (enter level t))"
| "walk_list (FragmentSpread name # rest) level t = walk_list rest level t"

definition walk_selections :: "selection list \<Rightarrow> nat \<Rightarrow> tally \<Rightarrow> tally" where
  "walk_selections sels level t = walk_list sels level (enter level t)"

definition tally_document :: "document \<Rightarrow> tally" where
  "tally_document d = fold (\<lambda>f. walk_selections f 1) (doc_fragments d)
     (fold (\<lambda>q. walk_selections q 1) (doc_operations d) no_tally)"

section \<open>The verdict\<close>

definition DefaultMaxAliases :: int where "DefaultMaxAliases = 100"
definition DefaultMaxDepth :: int where "DefaultMaxDepth = 15"
definition max_int :: int where "max_int = 2 ^ 63 - 1"

definition default_sensitive_fields :: "string list" where
  "default_sensitive_fields = [''login'', ''register'', ''requestPasswordReset'', ''resetPassword'',
     ''verifyEmail'', ''acceptInvite'', ''changePassword'']"

record guard =
  g_sensitive :: "string list"
  g_max_aliases :: int
  g_max_depth :: int

text \<open>
  \<open>InterceptOperation\<close>: a refusal, or \<open>None\<close> for \<open>next\<close>. \<open>order\<close> is the order in which Go
  ranges over the map of counts; it only decides which of several names is reported.
\<close>

definition repeated :: "guard \<Rightarrow> tally \<Rightarrow> string \<Rightarrow> bool" where
  "repeated g t name \<longleftrightarrow> 1 < tl_counts t name \<and> name \<in> set (g_sensitive g)"

definition intercept_operation :: "guard \<Rightarrow> string list \<Rightarrow> document option \<Rightarrow> string option" where
  "intercept_operation g order d =
     (case d of
        None \<Rightarrow> None
      | Some doc \<Rightarrow>
          (let t = tally_document doc in
           case find (repeated g t) order of
             Some name \<Rightarrow> Some (name @ '' may be selected only once per document'')
           | None \<Rightarrow>
               if g_max_aliases g < int (tl_total t) then
                 Some (''too many selections in one document ('' @ itoa (tl_total t) @ '', limit ''
                   @ itoa (nat (g_max_aliases g)) @ '')'')
               else if g_max_depth g < int (tl_depth t) then
                 Some (''query is nested too deeply ('' @ itoa (tl_depth t) @ '', limit ''
                   @ itoa (nat (g_max_depth g)) @ '')'')
               else None))"

text \<open>The limits from the configuration: zero is the default, a negative one disables.\<close>

definition limit_of :: "int \<Rightarrow> int \<Rightarrow> int" where
  "limit_of configured fallback =
     (if configured = 0 then fallback else if configured < 0 then max_int else configured)"

definition configure_guard :: "string list option \<Rightarrow> int \<Rightarrow> int \<Rightarrow> guard" where
  "configure_guard sensitive_fields max_aliases max_depth =
     \<lparr>g_sensitive = (case sensitive_fields of None \<Rightarrow> default_sensitive_fields | Some fs \<Rightarrow> fs),
      g_max_aliases = limit_of max_aliases DefaultMaxAliases,
      g_max_depth = limit_of max_depth DefaultMaxDepth\<rparr>"

section \<open>What is counted\<close>

text \<open>Every field of a set, at any nesting, in document order; spreads are not followed.\<close>

fun fields_of :: "selection list \<Rightarrow> string list" where
  "fields_of [] = []"
| "fields_of (Field name sub # rest) = name # fields_of sub @ fields_of rest"
| "fields_of (InlineFragment sub # rest) = fields_of sub @ fields_of rest"
| "fields_of (FragmentSpread name # rest) = fields_of rest"

text \<open>The deepest chain of fields, inline fragments adding nothing.\<close>

fun nesting :: "selection list \<Rightarrow> nat" where
  "nesting [] = 0"
| "nesting (Field name sub # rest) = max (Suc (nesting sub)) (nesting rest)"
| "nesting (InlineFragment sub # rest) = max (nesting sub) (nesting rest)"
| "nesting (FragmentSpread name # rest) = nesting rest"

definition document_fields :: "document \<Rightarrow> string list" where
  "document_fields d = concat (map fields_of (doc_operations d)) @ concat (map fields_of (doc_fragments d))"

definition document_depth :: "document \<Rightarrow> nat" where
  "document_depth d = fold (\<lambda>s. max (Suc (nesting s))) (doc_operations d @ doc_fragments d) 0"

lemma walk_list_counts:
  "tl_counts (walk_list s l t) = (\<lambda>n. tl_counts t n + count_list (fields_of s) n)"
  by (induction s l t rule: walk_list.induct)
    (auto simp: enter_def count_field_def fun_eq_iff)

lemma walk_list_total: "tl_total (walk_list s l t) = tl_total t + length (fields_of s)"
  by (induction s l t rule: walk_list.induct) (auto simp: enter_def count_field_def)

lemma tl_depth_enter [simp]: "tl_depth (enter l t) = max (tl_depth t) l"
  by (simp add: enter_def)

lemma tl_depth_count [simp]: "tl_depth (count_field n t) = tl_depth t"
  by (simp add: count_field_def)

lemma walk_list_depth:
  "l \<le> tl_depth t \<Longrightarrow> tl_depth (walk_list s l t) = max (tl_depth t) (l + nesting s)"
  by (induction s l t rule: walk_list.induct) (auto simp: max_def)

lemma walk_selections_tally:
  "tl_counts (walk_selections s 1 t) = (\<lambda>n. tl_counts t n + count_list (fields_of s) n)"
  "tl_total (walk_selections s 1 t) = tl_total t + length (fields_of s)"
  "tl_depth (walk_selections s 1 t) = max (Suc (nesting s)) (tl_depth t)"
  by (simp_all add: walk_selections_def walk_list_counts walk_list_total walk_list_depth
      enter_def max_def)

lemma count_list_concat: "count_list (concat xss) n = sum_list (map (\<lambda>xs. count_list xs n) xss)"
  by (induction xss) auto

lemma fold_walk:
  "tl_counts (fold (\<lambda>s. walk_selections s 1) ss t) n = tl_counts t n + count_list (concat (map fields_of ss)) n"
  "tl_total (fold (\<lambda>s. walk_selections s 1) ss t) = tl_total t + length (concat (map fields_of ss))"
  "tl_depth (fold (\<lambda>s. walk_selections s 1) ss t) = fold (\<lambda>s. max (Suc (nesting s))) ss (tl_depth t)"
  by (induction ss arbitrary: t) (auto simp: walk_selections_tally [simplified])

lemma tally_document_spec:
  "tl_counts (tally_document d) n = count_list (document_fields d) n"
  "tl_total (tally_document d) = length (document_fields d)"
  "tl_depth (tally_document d) = document_depth d"
  unfolding tally_document_def
  by (simp_all only: fold_walk) (simp_all add: document_fields_def document_depth_def no_tally_def)

section \<open>Properties\<close>

text \<open>C29 The guard's verdict, on every document: with the counts read in any order, a document
  goes on to its resolvers exactly when no sensitive field is selected more than once, under
  any alias and in any fragment, and the number of selections and the nesting are within the
  limits. Otherwise it is refused.\<close>

theorem guard_verdict:
  assumes "set order = set (document_fields doc)"
  shows "intercept_operation g order (Some doc) = None \<longleftrightarrow>
      (\<forall>f \<in> set (g_sensitive g). count_list (document_fields doc) f \<le> 1)
    \<and> int (length (document_fields doc)) \<le> g_max_aliases g
    \<and> int (document_depth doc) \<le> g_max_depth g"
proof -
  have "find (repeated g (tally_document doc)) order = None \<longleftrightarrow>
      (\<forall>f \<in> set (g_sensitive g). count_list (document_fields doc) f \<le> 1)"
    using assms
    by (auto simp: find_None_iff repeated_def tally_document_spec not_less count_list_0_iff [THEN iffD2])
  then show ?thesis
    by (cases "find (repeated g (tally_document doc)) order")
      (auto simp: intercept_operation_def Let_def tally_document_spec)
qed

definition two_logins :: document where
  "two_logins = \<lparr>doc_operations = [[Field ''login'' []]], doc_fragments = [[Field ''login'' []]]\<rparr>"

theorem guard_verdict_witness:
  "intercept_operation (configure_guard None 0 0) [''login''] (Some two_logins) \<noteq> None"
  using guard_verdict [of "[''login'']" two_logins "configure_guard None 0 0"]
  by (simp add: two_logins_def document_fields_def configure_guard_def default_sensitive_fields_def)

text \<open>
  Nesting is measured in every definition on its own: a chain that the limit refuses in one
  piece passes when a fragment carries its lower half.
\<close>

fun chain :: "nat \<Rightarrow> selection list \<Rightarrow> selection list" where
  "chain 0 s = s"
| "chain (Suc n) s = [Field ''f'' (chain n s)]"

lemma depth_restarts_in_fragments:
  "intercept_operation (configure_guard None 0 0) [''f'']
     (Some \<lparr>doc_operations = [chain 28 []], doc_fragments = []\<rparr>) \<noteq> None"
  "intercept_operation (configure_guard None 0 0) [''f'']
     (Some \<lparr>doc_operations = [chain 14 [FragmentSpread ''g'']], doc_fragments = [chain 14 []]\<rparr>) = None"
  by code_simp+

end
