(* ===== verification/Go_Mime.thy ===== *)
theory Go_Mime
  imports Go_Strings
begin

text \<open>
  \<open>mime.ParseMediaType\<close>, which the transport guard relies on: the lower-cased media type, or
  an error. Of the parameters only whether they parse, and whether two of one name disagree,
  matters here.
\<close>

definition tspecial :: "char \<Rightarrow> bool" where
  "tspecial c \<longleftrightarrow> c \<in> set ([CHR 0x22, CHR 0x5C] @ ''()<>@,;:/[]?='')"

definition token_char :: "char \<Rightarrow> bool" where
  "token_char c \<longleftrightarrow> 32 < code c \<and> code c < 127 \<and> \<not> tspecial c"

definition consume_token :: "string \<Rightarrow> string \<times> string" where
  "consume_token s = (takeWhile token_char s, dropWhile token_char s)"

text \<open>The rest of a quoted string, its value reversed in \<open>acc\<close>.\<close>

fun quoted_rest :: "string \<Rightarrow> string \<Rightarrow> (string \<times> string) option" where
  "quoted_rest acc [] = None"
| "quoted_rest acc (c # r) =
     (if c = CHR 0x22 then Some (rev acc, r)
      else if c = CHR 0x5C \<and> r \<noteq> [] \<and> tspecial (hd r) then quoted_rest (hd r # acc) (tl r)
      else if c = CHR 0x0D \<or> c = CHR 0x0A then None
      else quoted_rest (c # acc) r)"

definition consume_value :: "string \<Rightarrow> (string \<times> string) option" where
  "consume_value s =
     (case s of
        [] \<Rightarrow> None
      | c # r \<Rightarrow>
          if c = CHR 0x22 then quoted_rest [] r
          else let (v, rest) = consume_token s in if v = [] then None else Some (v, rest))"

text \<open>One \<open>; name = value\<close>: the lower-cased name, the value and the rest.\<close>

definition consume_media_param ::
  "unicode_tables \<Rightarrow> string \<Rightarrow> (string \<times> string \<times> string) option" where
  "consume_media_param U v =
     (case cut_prefix (trim_left v) '';'' of
        None \<Rightarrow> None
      | Some r1 \<Rightarrow>
          (let (name, r2) = consume_token (trim_left r1) in
           if name = [] then None
           else (case cut_prefix (trim_left r2) ''='' of
                   None \<Rightarrow> None
                 | Some r3 \<Rightarrow> map_option (\<lambda>(value, rest). (to_lower U name, value, rest))
                               (consume_value (trim_left r3)))))"

lemma length_trim_left: "length (trim_left s) \<le> length s"
  by (induction s rule: trim_left.induct) (subst trim_left.simps, auto)

lemma length_consume_token: "length (snd (consume_token s)) \<le> length s"
  by (simp add: consume_token_def length_dropWhile_le)

lemma length_quoted_rest: "quoted_rest acc s = Some (v, r) \<Longrightarrow> length r < length s"
proof (induction acc s rule: quoted_rest.induct)
  case (2 acc c r')
  then show ?case by (cases r') (auto split: if_splits)
qed simp

lemma length_consume_value: "consume_value s = Some (v, r) \<Longrightarrow> length r \<le> length s"
  using length_consume_token [of s]
  by (auto simp: consume_value_def split: list.splits if_splits prod.splits dest!: length_quoted_rest)

lemma length_cut_prefix: "cut_prefix s p = Some r \<Longrightarrow> length s = length p + length r"
  by (auto simp: cut_prefix_Some)

lemma length_media_param:
  assumes "consume_media_param U v = Some (k, x, rest)"
  shows "length rest < length v"
proof -
  from assms obtain r1 name r2 r3 where c1: "cut_prefix (trim_left v) '';'' = Some r1"
    and t: "consume_token (trim_left r1) = (name, r2)"
    and c2: "cut_prefix (trim_left r2) ''='' = Some r3"
    and cv: "consume_value (trim_left r3) = Some (x, rest)"
    by (auto simp: consume_media_param_def split: option.splits prod.splits if_splits)
  show ?thesis
    using length_cut_prefix [OF c1] length_cut_prefix [OF c2] length_consume_value [OF cv]
      length_consume_token [of "trim_left r1"] t length_trim_left [of v] length_trim_left [of r1]
      length_trim_left [of r2] length_trim_left [of r3]
    by simp
qed

lemma length_trimmed_param:
  "consume_media_param U (trim_left v) = Some (k, x, rest) \<Longrightarrow> length rest < length v"
  using length_media_param length_trim_left by (meson less_le_trans)

text \<open>
  The parameters, \<open>seen\<close> those already read. \<open>False\<close> is an error: one that does not parse,
  other than a last lone semicolon, or a repeated name with another value.
\<close>

function params_ok :: "unicode_tables \<Rightarrow> (string \<times> string) list \<Rightarrow> string \<Rightarrow> bool" where
  "params_ok U seen v =
     (let v = trim_left v in
      if v = [] then True
      else (case consume_media_param U v of
              None \<Rightarrow> trim_space v = '';''
            | Some (k, x, rest) \<Rightarrow>
                (case map_of seen k of
                   Some y \<Rightarrow> if y \<noteq> x then False else params_ok U seen rest
                 | None \<Rightarrow> params_ok U ((k, x) # seen) rest)))"
  by pat_completeness auto
termination
  by (relation "measure (\<lambda>(U, seen, v). length v)") (auto intro: length_trimmed_param)

declare params_ok.simps [simp del]

definition media_type_ok :: "string \<Rightarrow> bool" where
  "media_type_ok s =
     (let (ty, rest) = consume_token s in
      if ty = [] then False
      else if rest = [] then True
      else (case cut_prefix rest ''/'' of
              None \<Rightarrow> False
            | Some r \<Rightarrow> (let (sub, rest') = consume_token r in sub \<noteq> [] \<and> rest' = [])))"

definition base_type :: "string \<Rightarrow> string" where
  "base_type v = takeWhile (\<lambda>c. c \<noteq> CHR '';'') v"

definition parse_media_type :: "unicode_tables \<Rightarrow> string \<Rightarrow> string option" where
  "parse_media_type U v =
     (let base = base_type v; media = trim_space (to_lower U base) in
      if media_type_ok media \<and> params_ok U [] (drop (length base) v) then Some media else None)"

lemma parse_media_type_Some:
  "parse_media_type U v = Some m \<Longrightarrow> m = trim_space (to_lower U (base_type v))"
  by (auto simp: parse_media_type_def Let_def split: if_splits)

end
