(* ===== verification/Middleware.thy ===== *)
theory Middleware
  imports Session_Store Go_Mime
begin

text \<open>
  \<open>session/middleware.go\<close> and the response writer of \<open>jar.go\<close>: the transport guard, the
  resolution of the session cookie into a principal on the context, and the moment the
  queued cookies leave with the response.
\<close>

section \<open>Requests\<close>

text \<open>A missing header is the empty string, as \<open>Header.Get\<close> has it.\<close>

record request =
  rq_method :: string
  rq_kal_operation :: string  \<comment> \<open>X-Kal-Operation\<close>
  rq_requested_with :: string  \<comment> \<open>X-Requested-With\<close>
  rq_content_type :: string
  rq_user_agent :: string
  rq_cookies :: "(string \<times> string) list"
  rq_remote_addr :: string

definition simple_types :: "string list" where
  "simple_types = [''text/plain'', ''application/x-www-form-urlencoded'', ''multipart/form-data'']"

definition passes_transport_guard :: "unicode_tables \<Rightarrow> request \<Rightarrow> bool" where
  "passes_transport_guard U r =
     (if rq_kal_operation r \<noteq> [] \<or> rq_requested_with r \<noteq> [] then True
      else if rq_content_type r = [] then False
      else (case parse_media_type U (rq_content_type r) of
              None \<Rightarrow> False
            | Some m \<Rightarrow> m \<notin> set simple_types))"

definition remote_host :: "request \<Rightarrow> string" where
  "remote_host r = (case split_host (rq_remote_addr r) of None \<Rightarrow> rq_remote_addr r | Some h \<Rightarrow> h)"

section \<open>The handler\<close>

record middleware_options =
  mo_cookie_name :: string
  mo_client_ip :: "(request \<Rightarrow> string) option"

datatype 'a response = Blocked string | Served 'a

definition guard_body :: string where
  "guard_body = map (\<lambda>c. if c = CHR ''`'' then CHR 0x22 else c)
     (''{`errors`:[{`message`:`cross-site request blocked: send Content-Type application/json ''
      @ ''or an X-Kal-Operation header`,`extensions`:{`code`:`FORBIDDEN`}}]}'')"

definition lookup_cookie :: "sessions_cfg \<Rightarrow> string \<Rightarrow> principal option prog" where
  "lookup_cookie S v = (if v = [] then ret None else lookup S v)"

definition cookie_name :: "middleware_options \<Rightarrow> string" where
  "cookie_name opts = (if mo_cookie_name opts = [] then DefaultCookieName else mo_cookie_name opts)"

definition client_ip :: "middleware_options \<Rightarrow> request \<Rightarrow> string" where
  "client_ip opts r = (case mo_client_ip opts of None \<Rightarrow> remote_host r | Some f \<Rightarrow> f r)"

text \<open>The context the next handler gets: jar, attribution, and the caller if there is one.\<close>

definition request_ctx :: "middleware_options \<Rightarrow> ctx \<Rightarrow> request \<Rightarrow> ctx" where
  "request_ctx opts c r = with_meta (c\<lparr>cx_jar := True\<rparr>)
     \<lparr>mt_user_agent = rq_user_agent r, mt_ip = client_ip opts r\<rparr>"

definition lookup_failed :: string where
  "lookup_failed = ''kal/session: lookup failed, proceeding anonymously: ''"

definition identify :: "sessions_cfg \<Rightarrow> middleware_options \<Rightarrow> ctx \<Rightarrow> request \<Rightarrow> ctx prog" where
  "identify S opts c r =
     (case map_of (rq_cookies r) (cookie_name opts) of
        None \<Rightarrow> ret c
      | Some v \<Rightarrow> bindM (lookup_cookie S v) (\<lambda>res. case res of
            Inl e \<Rightarrow>
              tryM (log_printf (lookup_failed @ error_text e)) (\<lambda>_.
              tryM (emit (ss_audit S) (no_event\<lparr>ev_kind := ''session.lookup.fail'',
                       ev_ip := client_ip opts r, ev_detail := [(''error'', error_text e)]\<rparr>)) (\<lambda>_. ret c))
          | Inr (Some p) \<Rightarrow> ret (with_principal c (Some p))
          | Inr None \<Rightarrow> tryM (add_cookie (clear_cookie (cookie_name opts))) (\<lambda>_. ret c)))"

definition middleware ::
  "sessions_cfg \<Rightarrow> middleware_options \<Rightarrow> (ctx \<Rightarrow> request \<Rightarrow> 'a prog) \<Rightarrow> ctx \<Rightarrow> request \<Rightarrow> 'a response prog" where
  "middleware S opts nxt c r = with_env (\<lambda>E.
     if rq_method r \<noteq> ''OPTIONS'' \<and> \<not> passes_transport_guard (unicode E) r then ret (Blocked guard_body)
     else tryM (identify S opts (request_ctx opts c r) r) (\<lambda>c'.
          tryM (nxt c' r) (\<lambda>x. ret (Served x))))"

section \<open>Flushing the jar\<close>

text \<open>
  What happens to a response, in order: a cookie is queued, or bytes or a status are written.
  The first write sends the cookies queued so far; net/http ignores later header changes.
\<close>

datatype writer_event = Queue cookie | Write

record flush_writer =
  fw_jar :: "cookie list"
  fw_flushed :: bool
  fw_header :: "cookie list"  \<comment> \<open>the Set-Cookie headers\<close>

definition flush :: "flush_writer \<Rightarrow> flush_writer" where
  "flush w = (if fw_flushed w then w
     else w\<lparr>fw_flushed := True, fw_header := fw_header w @ fw_jar w\<rparr>)"

fun writer_step :: "flush_writer \<Rightarrow> writer_event \<Rightarrow> flush_writer" where
  "writer_step w (Queue k) = w\<lparr>fw_jar := fw_jar w @ [k]\<rparr>"
| "writer_step w Write = flush w"

text \<open>A served request: the events of the handler, then the middleware's own flush.\<close>

definition serve_writer :: "writer_event list \<Rightarrow> flush_writer" where
  "serve_writer es = flush (foldl writer_step \<lparr>fw_jar = [], fw_flushed = False, fw_header = []\<rparr> es)"

fun queued :: "writer_event list \<Rightarrow> cookie list" where
  "queued [] = []"
| "queued (Queue k # es) = k # queued es"
| "queued (Write # es) = queued es"

definition before_write :: "writer_event list \<Rightarrow> writer_event list" where
  "before_write es = takeWhile (\<lambda>e. e \<noteq> Write) es"

lemma foldl_flushed:
  "fw_flushed w \<Longrightarrow> fw_header (foldl writer_step w es) = fw_header w
     \<and> fw_flushed (foldl writer_step w es)"
proof (induction es arbitrary: w)
  case (Cons e es)
  then show ?case by (cases e) (simp_all add: flush_def)
qed simp

lemma foldl_unflushed:
  "\<not> fw_flushed w \<Longrightarrow> fw_header (flush (foldl writer_step w es)) = fw_header w @ fw_jar w @ queued (before_write es)"
proof (induction es arbitrary: w)
  case Nil
  then show ?case by (simp add: flush_def before_write_def)
next
  case (Cons e es)
  show ?case
  proof (cases e)
    case (Queue k)
    with Cons show ?thesis by (simp add: before_write_def)
  next
    case Write
    with Cons.prems foldl_flushed [of "flush w" es] show ?thesis
      by (simp add: flush_def before_write_def)
  qed
qed

section \<open>The guard against simple requests\<close>

text \<open>
  What a browser sends across origins with cookies and without a preflight, as the Fetch standard
  has it: one of three methods, no header of the script's own, and no Content-Type or one whose
  essence is among the three of the list.
\<close>

definition cors_simple :: "unicode_tables \<Rightarrow> request \<Rightarrow> bool" where
  "cors_simple U r \<longleftrightarrow> rq_method r \<in> {''GET'', ''HEAD'', ''POST''}
     \<and> rq_kal_operation r = [] \<and> rq_requested_with r = []
     \<and> (rq_content_type r = [] \<or> trim_space (to_lower U (base_type (rq_content_type r)))
          \<in> {''text/plain'', ''application/x-www-form-urlencoded'', ''multipart/form-data''})"

lemma simple_blocked: "cors_simple U r \<Longrightarrow> \<not> passes_transport_guard U r \<and> rq_method r \<noteq> ''OPTIONS''"
  by (auto simp: cors_simple_def passes_transport_guard_def simple_types_def split: option.splits
      dest: parse_media_type_Some)

section \<open>Whom the handler sees\<close>

lemma identify_Inr:
  assumes wf: "wf_db U (db w)" and run: "identify S opts c r E w = (Inr c', w')"
  shows "c' = c \<or> (\<exists>v p. map_of (rq_cookies r) (cookie_name opts) = Some v
      \<and> resolve (db_clock E (step w)) (db w) v = Some p \<and> c' = with_principal c (Some p))"
proof (cases "map_of (rq_cookies r) (cookie_name opts)")
  case None
  with run show ?thesis by (simp add: identify_def ret_def)
next
  case (Some v)
  with run obtain res w1 where l: "lookup_cookie S v E w = (res, w1)"
    and rest: "(case res of
            Inl e \<Rightarrow>
              tryM (log_printf (lookup_failed @ error_text e)) (\<lambda>_.
              tryM (emit (ss_audit S) (no_event\<lparr>ev_kind := ''session.lookup.fail'',
                       ev_ip := client_ip opts r, ev_detail := [(''error'', error_text e)]\<rparr>)) (\<lambda>_. ret c))
          | Inr (Some p) \<Rightarrow> ret (with_principal c (Some p))
          | Inr None \<Rightarrow> tryM (add_cookie (clear_cookie (cookie_name opts))) (\<lambda>_. ret c)) E w1 = (Inr c', w')"
    by (auto simp: identify_def elim: bindM_run)
  show ?thesis
  proof (cases "\<exists>p. res = Inr (Some p)")
    case True
    then obtain p where p: "res = Inr (Some p)" ..
    with l have "lookup S v E w = (Inr (Some p), w1)"
      by (auto simp: lookup_cookie_def ret_def split: if_splits)
    with lookup_run [OF wf] p rest Some show ?thesis by (auto simp: ret_def)
  next
    case False
    with rest show ?thesis
      by (auto simp: tryM_def bindM_def log_printf_def emit_def add_cookie_def ret_def fail_def
          split: sum.splits option.splits if_splits)
  qed
qed

lemma identify_total:
  shows "\<exists>c' w'. identify S opts c r E w = (Inr c', w')"
  by (auto simp: identify_def tryM_def bindM_def log_printf_def emit_def add_cookie_def ret_def fail_def
      split: sum.splits option.splits if_splits prod.splits)

section \<open>Properties\<close>

definition sample_request :: request where
  "sample_request = \<lparr>rq_method = ''POST'', rq_kal_operation = [], rq_requested_with = [],
     rq_content_type = ''text/plain; charset=UTF-8'', rq_user_agent = [], rq_cookies = [], rq_remote_addr = ''192.0.2.1:9''\<rparr>"

lemma sample_request_simps [simp]:
  "rq_method sample_request = ''POST''" "rq_kal_operation sample_request = []"
  "rq_requested_with sample_request = []" "rq_content_type sample_request = ''text/plain; charset=UTF-8''"
  "rq_cookies sample_request = []"
  by (simp_all add: sample_request_def)

lemma sample_request_simple: "cors_simple sample_tables sample_request"
proof -
  have "base_type ''text/plain; charset=UTF-8'' = ''text/plain''"
    by code_simp
  moreover have "to_lower sample_tables ''text/plain'' = ''text/plain''"
    by (simp add: to_lower_def is_ascii_def ascii_char_def lower_char_def)
  moreover have "trim_space ''text/plain'' = ''text/plain''"
    by code_simp
  ultimately show ?thesis
    by (simp add: cors_simple_def)
qed

text \<open>C18 The transport guard stops every request a browser can send across origins without a
  preflight - a GET, HEAD or POST without a header of its own and with no Content-Type, with a
  plain text, a form or a multipart one, however it is spelled and whatever its parameters: whatever the
  cookies, the handler is not run, no statement is run, no event is emitted; the answer is the
  fixed 403 body.\<close>

theorem simple_request_blocked:
  assumes "cors_simple (unicode E) r"
  shows "middleware S opts nxt c r E w = (Inr (Blocked guard_body), w)"
  using assms simple_blocked by (simp add: middleware_def with_env_def ret_def)

theorem simple_request_blocked_witness:
  "middleware sample_cfg \<lparr>mo_cookie_name = [], mo_client_ip = None\<rparr> (\<lambda>c r. revoke sample_cfg ''s1'')
     background sample_request sample_env (world_of session_db) = (Inr (Blocked guard_body), world_of session_db)"
  by (rule simple_request_blocked) (simp_all add: sample_request_simple)



text \<open>A cookie leaves with the response exactly when it was queued before the first byte of
  it was written, once, and in the order queued; what a resolver queues later is not sent.\<close>

theorem cookies_flushed_once:
  "fw_header (serve_writer es) = queued (before_write es)
     \<and> fw_header (flush (serve_writer es)) = fw_header (serve_writer es)"
  using foldl_unflushed [of "\<lparr>fw_jar = [], fw_flushed = False, fw_header = []\<rparr>" es]
  by (simp add: serve_writer_def flush_def)

end
