(* ===== verification/Set_Config.thy ===== *)
theory Set_Config
  imports Go_Strings
begin

text \<open>
  Reading \<open>select set_config(\<dots>), \<dots>\<close> as Postgres does: from the text of the statement and its
  bound arguments to the settings it makes, in the order of the select list, each local to the
  transaction or not. kal sends two such texts, in \<open>migrate.go\<close> and in \<open>authz/rls.go\<close>; what they
  do is read from them here and in no other way.
\<close>

section \<open>Scanning the text\<close>

definition sql_quote :: char where "sql_quote = CHR 0x27"

text \<open>
  A value is a placeholder, which takes the next argument, or a literal between quotes. A
  literal with a doubled sql_quote is not read.
\<close>

fun scan_value :: "string \<Rightarrow> string list \<Rightarrow> (string \<times> string list \<times> string) option" where
  "scan_value [] args = None"
| "scan_value (c # t) args =
     (if c = CHR ''?'' then (case args of [] \<Rightarrow> None | a # as \<Rightarrow> Some (a, as, t))
      else if c = sql_quote then
        (case dropWhile (\<lambda>d. d \<noteq> sql_quote) t of
           [] \<Rightarrow> None
         | q # u \<Rightarrow> Some (takeWhile (\<lambda>d. d \<noteq> sql_quote) t, args, u))
      else None)"

definition scan_flag :: "string \<Rightarrow> (bool \<times> string) option" where
  "scan_flag s = (case cut_prefix s ''true'' of Some r \<Rightarrow> Some (True, r)
     | None \<Rightarrow> map_option (Pair False) (cut_prefix s ''false''))"

text \<open>The third argument says whether the setting is local to the transaction.\<close>

record setting =
  st_name :: string
  st_value :: string
  st_local :: bool

definition scan_call :: "string \<Rightarrow> string list \<Rightarrow> (setting \<times> string list \<times> string) option" where
  "scan_call s args = Option.bind (cut_prefix s ''set_config('') (\<lambda>s1.
     Option.bind (scan_value s1 args) (\<lambda>(name, args1, s2).
     Option.bind (cut_prefix s2 '', '') (\<lambda>s3.
     Option.bind (scan_value s3 args1) (\<lambda>(val, args2, s4).
     Option.bind (cut_prefix s4 '', '') (\<lambda>s5.
     Option.bind (scan_flag s5) (\<lambda>(flag, s6).
     Option.bind (cut_prefix s6 '')'') (\<lambda>s7.
       Some (\<lparr>st_name = name, st_value = val, st_local = flag\<rparr>, args2, s7))))))))"

lemma length_scan_value: "scan_value s args = Some (v, args', r) \<Longrightarrow> length r < length s"
proof (induction s args rule: scan_value.induct)
  case (2 c t args)
  have "length (dropWhile (\<lambda>d. d \<noteq> sql_quote) t) \<le> length t"
    by (rule length_dropWhile_le)
  with 2 show ?case by (auto split: if_splits list.splits)
qed simp

lemma length_scan_flag: "scan_flag s = Some (b, r) \<Longrightarrow> length r < length s"
  by (auto simp: scan_flag_def cut_prefix_Some split: option.splits)

lemma length_scan_call: "scan_call s args = Some (x, args', r) \<Longrightarrow> length r < length s"
  by (auto simp: scan_call_def bind_eq_Some_conv cut_prefix_Some dest!: length_scan_value length_scan_flag)

function scan_calls :: "string \<Rightarrow> string list \<Rightarrow> setting list option" where
  "scan_calls s args = (case scan_call s args of
     None \<Rightarrow> None
   | Some (x, args', r) \<Rightarrow>
       if r = [] then (if args' = [] then Some [x] else None)
       else (case cut_prefix r '', '' of None \<Rightarrow> None | Some r' \<Rightarrow> map_option (Cons x) (scan_calls r' args')))"
  by pat_completeness auto
termination
  by (relation "measure (length \<circ> fst)") (auto simp: cut_prefix_Some dest!: length_scan_call)

declare scan_calls.simps [simp del]

text \<open>None for a text of another form, or one with more or fewer placeholders than arguments.\<close>

definition set_config_calls :: "string \<Rightarrow> string list \<Rightarrow> setting list option" where
  "set_config_calls sql args = (case cut_prefix sql ''select '' of None \<Rightarrow> None | Some r \<Rightarrow> scan_calls r args)"

section \<open>The settings of a connection\<close>

text \<open>What \<open>current_setting\<close> reads: the transaction's own value, else the session's.\<close>

record settings =
  gs_session :: "string \<rightharpoonup> string"
  gs_local :: "string \<rightharpoonup> string"

definition current_setting :: "settings \<Rightarrow> string \<Rightarrow> string option" where
  "current_setting S k = (case gs_local S k of Some v \<Rightarrow> Some v | None \<Rightarrow> gs_session S k)"

definition make_setting :: "setting \<Rightarrow> settings \<Rightarrow> settings" where
  "make_setting x S =
     (if st_local x then S\<lparr>gs_local := (gs_local S)(st_name x \<mapsto> st_value x)\<rparr>
      else S\<lparr>gs_session := (gs_session S)(st_name x \<mapsto> st_value x), gs_local := (gs_local S)(st_name x := None)\<rparr>)"

text \<open>COMMIT and ROLLBACK end what is local; the connection goes back to the pool with the rest.\<close>

definition after_end :: "settings \<Rightarrow> settings" where
  "after_end S = S\<lparr>gs_local := (\<lambda>k. None)\<rparr>"

lemma current_make:
  "current_setting (make_setting x S) k = (if k = st_name x then Some (st_value x) else current_setting S k)"
  by (simp add: current_setting_def make_setting_def split: option.split)

lemma current_fold_other:
  "k \<notin> st_name ` set xs \<Longrightarrow> current_setting (fold make_setting xs S) k = current_setting S k"
  by (induction xs arbitrary: S) (auto simp: current_make)

lemma current_fold_hit:
  "distinct (map st_name xs) \<Longrightarrow> x \<in> set xs \<Longrightarrow> current_setting (fold make_setting xs S) (st_name x) = Some (st_value x)"
  by (induction xs arbitrary: S) (auto simp: current_make current_fold_other)

lemma session_fold_local:
  "list_all st_local xs \<Longrightarrow> gs_session (fold make_setting xs S) = gs_session S"
  by (induction xs arbitrary: S) (simp_all add: make_setting_def)

section \<open>Scanning what kal writes\<close>

lemma cut_prefix_append [simp]: "cut_prefix (p @ r) p = Some r"
  by (simp add: cut_prefix_Some)

lemma scan_call_bound:
  "scan_call (''set_config(?, ?, true)'' @ r) (k # v # args)
     = Some (\<lparr>st_name = k, st_value = v, st_local = True\<rparr>, args, r)"
  by (simp add: scan_call_def scan_flag_def cut_prefix_def)

lemma scan_call_named:
  assumes "sql_quote \<notin> set name"
  shows "scan_call (''set_config('' @ [sql_quote] @ name @ [sql_quote] @ '', ?, true)'' @ r) (v # args)
     = Some (\<lparr>st_name = name, st_value = v, st_local = True\<rparr>, args, r)"
proof -
  have "takeWhile (\<lambda>d. d \<noteq> sql_quote) (name @ sql_quote # u) = name" "dropWhile (\<lambda>d. d \<noteq> sql_quote) (name @ sql_quote # u) = sql_quote # u" for u
    using assms by (induction name) auto
  moreover have "scan_value (sql_quote # t) args
      = (case dropWhile (\<lambda>d. d \<noteq> sql_quote) t of [] \<Rightarrow> None | q # u \<Rightarrow> Some (takeWhile (\<lambda>d. d \<noteq> sql_quote) t, args, u))" for t args
    by (simp add: sql_quote_def)
  ultimately show ?thesis
    by (simp add: scan_call_def scan_flag_def cut_prefix_def)
qed

lemma scan_calls_last: "scan_call s args = Some (x, [], []) \<Longrightarrow> scan_calls s args = Some [x]"
  by (subst scan_calls.simps) simp

lemma scan_calls_more:
  "scan_call s args = Some (x, args', '', '' @ r) \<Longrightarrow> scan_calls s args = map_option (Cons x) (scan_calls r args')"
  by (subst scan_calls.simps) (simp add: cut_prefix_def)

end
