(* ===== verification/Rls.thy ===== *)
theory Rls
  imports Principal Samples Set_Config
begin

text \<open>
  \<open>authz/rls.go\<close>: the statement that carries the caller into Postgres, and the settings the
  transaction has after it, as its text and its arguments say (\<open>Set_Config\<close>). The transaction
  itself is go-pg's; what runs inside it is the caller's function. The extra settings are a Go
  map, read in some order: a list of pairs.
\<close>

definition setting_key_ok :: "string \<Rightarrow> bool" where
  "setting_key_ok k = (case cut_prefix k ''app.'' of None \<Rightarrow> False | Some r \<Rightarrow> ident_ok r)"

definition reserved_settings :: "string list" where
  "reserved_settings = [''app.user_id'', ''app.roles'']"

fun check_keys :: "string list \<Rightarrow> goerr option" where
  "check_keys [] = None"
| "check_keys (k # ks) =
     (if \<not> setting_key_ok k
      then Some (invalid_input (''RLS setting names must match ^app'' @ [CHR 0x5C] @ ''.[a-z_][a-z0-9_]*$''))
      else if k \<in> set reserved_settings
      then Some (invalid_input ''app.user_id and app.roles carry the caller and cannot be set as extras'')
      else check_keys ks)"

definition caller_settings :: "ctx \<Rightarrow> string \<times> string" where
  "caller_settings c = (case from_ctx c of None \<Rightarrow> ([], [])
     | Some p \<Rightarrow> (p_user p, join '','' (p_roles p)))"

definition lookup_extra :: "(string \<times> string) list \<Rightarrow> string \<Rightarrow> string" where
  "lookup_extra extra k = (case map_of extra k of None \<Rightarrow> [] | Some v \<Rightarrow> v)"

definition base_statement :: string where
  "base_statement = ''select set_config('' @ [CHR 0x27] @ ''app.user_id'' @ [CHR 0x27]
     @ '', ?, true), set_config('' @ [CHR 0x27] @ ''app.roles'' @ [CHR 0x27] @ '', ?, true)''"

text \<open>The statement's text and its bound arguments, or the rejected key.\<close>

definition rls_statement ::
  "ctx \<Rightarrow> (string \<times> string) list \<Rightarrow> goerr + (string \<times> string list)" where
  "rls_statement c extra =
     (case check_keys (map fst extra) of
        Some e \<Rightarrow> Inl e
      | None \<Rightarrow>
          (let keys = sort (map fst extra); (user, held) = caller_settings c in
           Inr (base_statement @ concat (map (\<lambda>k. '', set_config(?, ?, true)'') keys),
                [user, held] @ concat (map (\<lambda>k. [k, lookup_extra extra k]) keys))))"

text \<open>
  \<open>WithRLSSettings\<close>, with go-pg's transaction as the parameter \<open>run_tx\<close>: it is given the
  program to run between BEGIN and COMMIT. \<open>set_config\<close> is the execution of the statement.
\<close>

definition with_rls_settings ::
  "(unit prog \<Rightarrow> unit prog) \<Rightarrow> (string \<Rightarrow> string list \<Rightarrow> unit prog) \<Rightarrow> ctx
     \<Rightarrow> (string \<times> string) list \<Rightarrow> unit prog \<Rightarrow> unit prog" where
  "with_rls_settings run_tx set_config c extra f =
     (case rls_statement c extra of
        Inl e \<Rightarrow> fail e
      | Inr (stmt, args) \<Rightarrow> run_tx (tryM (set_config stmt args) (\<lambda>_. f)))"

definition with_rls ::
  "(unit prog \<Rightarrow> unit prog) \<Rightarrow> (string \<Rightarrow> string list \<Rightarrow> unit prog) \<Rightarrow> ctx \<Rightarrow> unit prog \<Rightarrow> unit prog" where
  "with_rls run_tx set_config c f = with_rls_settings run_tx set_config c [] f"

definition placeholders :: "string \<Rightarrow> nat" where
  "placeholders s = length (filter (\<lambda>c. c = CHR ''?'') s)"

section \<open>Lemmas\<close>

lemma check_keys_None:
  "check_keys ks = None \<longleftrightarrow> (\<forall>k \<in> set ks. setting_key_ok k \<and> k \<notin> set reserved_settings)"
  by (induction ks) (auto split: if_splits)

lemma placeholders_simps [simp]:
  "placeholders (s @ t) = placeholders s + placeholders t" "placeholders [] = 0"
  "placeholders (c # s) = (if c = CHR ''?'' then 1 else 0) + placeholders s"
  by (simp_all add: placeholders_def)

lemma check_keys_Some: "check_keys ks = Some e \<Longrightarrow> \<exists>m. e = invalid_input m"
  by (induction ks) (auto split: if_splits)

lemma setting_key_ok_iff: "setting_key_ok k \<longleftrightarrow> (\<exists>r. k = ''app.'' @ r \<and> ident_ok r)"
proof (cases "cut_prefix k ''app.''")
  case None
  then have "\<nexists>r. k = ''app.'' @ r"
    by (metis cut_prefix_Some option.distinct(1))
  with None show ?thesis by (simp add: setting_key_ok_def)
next
  case (Some r)
  then have "setting_key_ok k = ident_ok r" by (simp add: setting_key_ok_def)
  moreover from Some have "k = ''app.'' @ r" by (simp only: cut_prefix_Some)
  ultimately show ?thesis by auto
qed

text \<open>The settings the statement makes, in the order of its select list.\<close>

definition bound_setting :: "string \<times> string \<Rightarrow> setting" where
  "bound_setting kv = \<lparr>st_name = fst kv, st_value = snd kv, st_local = True\<rparr>"

lemma bound_setting_simps [simp]:
  "st_name (bound_setting kv) = fst kv" "st_value (bound_setting kv) = snd kv" "st_local (bound_setting kv)"
  by (simp_all add: bound_setting_def)

lemma scan_extras:
  "scan_call s args = Some (x, concat (map (\<lambda>k. [k, f k]) ks), concat (map (\<lambda>k. '', set_config(?, ?, true)'') ks))
    \<Longrightarrow> scan_calls s args = Some (x # map (\<lambda>k. bound_setting (k, f k)) ks)"
proof (induction ks arbitrary: s args x)
  case Nil
  then show ?case by (simp add: scan_calls_last)
next
  case (Cons k ks)
  let ?r = "''set_config(?, ?, true)'' @ concat (map (\<lambda>k. '', set_config(?, ?, true)'') ks)"
  have "scan_calls s args = map_option (Cons x) (scan_calls ?r (k # f k # concat (map (\<lambda>k. [k, f k]) ks)))"
    by (rule scan_calls_more) (use Cons.prems in simp)
  moreover have "scan_calls ?r (k # f k # concat (map (\<lambda>k. [k, f k]) ks))
      = Some (bound_setting (k, f k) # map (\<lambda>k. bound_setting (k, f k)) ks)"
    by (rule Cons.IH) (simp only: scan_call_bound bound_setting_def fst_conv snd_conv)
  ultimately show ?case by simp
qed

lemma scan_statement:
  "set_config_calls (base_statement @ concat (map (\<lambda>k. '', set_config(?, ?, true)'') ks))
      ([user, held] @ concat (map (\<lambda>k. [k, f k]) ks))
    = Some (map bound_setting ([(''app.user_id'', user), (''app.roles'', held)] @ map (\<lambda>k. (k, f k)) ks))"
proof -
  let ?more = "concat (map (\<lambda>k. '', set_config(?, ?, true)'') ks)" and ?args = "concat (map (\<lambda>k. [k, f k]) ks)"
  let ?roles = "''set_config('' @ [sql_quote] @ ''app.roles'' @ [sql_quote] @ '', ?, true)'' @ ?more"
  let ?user = "''set_config('' @ [sql_quote] @ ''app.user_id'' @ [sql_quote] @ '', ?, true)'' @ '', '' @ ?roles"
  have sent: "base_statement @ ?more = ''select '' @ ?user"
    by (simp add: base_statement_def sql_quote_def)
  have roles: "scan_call ?roles (held # ?args) = Some (bound_setting (''app.roles'', held), ?args, ?more)"
    unfolding bound_setting_def fst_conv snd_conv by (rule scan_call_named) (simp add: sql_quote_def)
  have user: "scan_call ?user (user # held # ?args)
      = Some (bound_setting (''app.user_id'', user), held # ?args, '', '' @ ?roles)"
    unfolding bound_setting_def fst_conv snd_conv by (rule scan_call_named) (simp add: sql_quote_def)
  have "set_config_calls (base_statement @ ?more) ([user, held] @ ?args) = scan_calls ?user (user # held # ?args)"
    unfolding sent set_config_calls_def cut_prefix_append by (simp only: option.case append.simps)
  also have "\<dots> = map_option (Cons (bound_setting (''app.user_id'', user))) (scan_calls ?roles (held # ?args))"
    by (rule scan_calls_more [OF user])
  also have "\<dots> = Some (bound_setting (''app.user_id'', user) # bound_setting (''app.roles'', held)
      # map (\<lambda>k. bound_setting (k, f k)) ks)"
    by (simp only: scan_extras [OF roles] option.map)
  finally show ?thesis by (simp add: comp_def)
qed

text \<open>What a policy must find after these settings, whatever the connection had before.\<close>

definition carries_caller :: "ctx \<Rightarrow> (string \<times> string) list \<Rightarrow> setting list \<Rightarrow> bool" where
  "carries_caller c extra made \<longleftrightarrow>
     (\<forall>S. let T = fold make_setting made S in
       current_setting T ''app.user_id'' = Some (case from_ctx c of None \<Rightarrow> [] | Some p \<Rightarrow> p_user p)
     \<and> current_setting T ''app.roles'' = Some (case from_ctx c of None \<Rightarrow> [] | Some p \<Rightarrow> join '','' (p_roles p))
     \<and> (\<forall>(k, v) \<in> set extra. current_setting T k = Some v)
     \<and> (\<forall>k. k \<notin> {''app.user_id'', ''app.roles''} \<union> fst ` set extra \<longrightarrow> current_setting T k = current_setting S k)
     \<and> after_end T = after_end S)"

lemma check_keys_iff:
  "(\<exists>k \<in> fst ` set extra. \<not> (\<exists>r. k = ''app.'' @ r \<and> ident_ok r) \<or> k = ''app.user_id'' \<or> k = ''app.roles'')
     \<longleftrightarrow> check_keys (map fst extra) \<noteq> None"
  unfolding check_keys_None setting_key_ok_iff reserved_settings_def set_map by simp

section \<open>Properties\<close>

text \<open>C31 Row-level settings: an extra whose name is not \<open>app.\<close> and an identifier, or is one of
  the two the caller is carried in, stops the call with INVALID_INPUT and no transaction.
  Otherwise the function runs in one transaction, after one statement and only if that
  statement went through, and the statement's own text and arguments make, in order, settings
  that are all local to the transaction: in it \<open>app.user_id\<close> and \<open>app.roles\<close> are those of the
  principal in the context, empty for an anonymous caller, every extra has its value, no other
  setting is touched, and at the transaction's end the connection has the settings it had
  before. No extra forges the identity and nothing leaks to the next user of the connection.\<close>

theorem rls_carries_caller:
  assumes "distinct (map fst extra)"
  shows "if \<exists>k \<in> fst ` set extra. \<not> (\<exists>r. k = ''app.'' @ r \<and> ident_ok r) \<or> k = ''app.user_id'' \<or> k = ''app.roles''
    then \<exists>m. with_rls_settings run_tx set_config c extra f = fail (invalid_input m)
    else \<exists>sql args made.
        with_rls_settings run_tx set_config c extra f = run_tx (tryM (set_config sql args) (\<lambda>_. f))
      \<and> set_config_calls sql args = Some made
      \<and> carries_caller c extra made"
    (is "if ?bad then _ else _")
proof (cases ?bad)
  case True
  then have "check_keys (map fst extra) \<noteq> None"
    unfolding check_keys_iff .
  then obtain m where "check_keys (map fst extra) = Some (invalid_input m)"
    using check_keys_Some by blast
  then have "\<exists>m. with_rls_settings run_tx set_config c extra f = fail (invalid_input m)"
    by (auto simp: with_rls_settings_def rls_statement_def)
  with True show ?thesis by (simp only: if_True)
next
  case False
  then have checked: "check_keys (map fst extra) = None"
    unfolding check_keys_iff by simp
  obtain user held where who: "caller_settings c = (user, held)" by fastforce
  let ?keys = "sort (map fst extra)" and ?f = "lookup_extra extra"
  let ?sql = "base_statement @ concat (map (\<lambda>k. '', set_config(?, ?, true)'') ?keys)"
  let ?args = "[user, held] @ concat (map (\<lambda>k. [k, ?f k]) ?keys)"
  let ?made = "map bound_setting ([(''app.user_id'', user), (''app.roles'', held)] @ map (\<lambda>k. (k, ?f k)) ?keys)"
  have runs: "with_rls_settings run_tx set_config c extra f = run_tx (tryM (set_config ?sql ?args) (\<lambda>_. f))"
    by (simp add: with_rls_settings_def rls_statement_def checked who Let_def)
  have made: "set_config_calls ?sql ?args = Some ?made"
    by (rule scan_statement)
  have names: "map st_name ?made = [''app.user_id'', ''app.roles''] @ ?keys"
    by (simp add: comp_def)
  have reserved: "''app.user_id'' \<notin> set ?keys" "''app.roles'' \<notin> set ?keys"
    using False by auto
  with assms names have apart: "distinct (map st_name ?made)"
    by (simp del: list.map map_append)
  have hit: "current_setting (fold make_setting ?made S) k = Some v" if "bound_setting (k, v) \<in> set ?made" for S k v
    using current_fold_hit [OF apart that] by simp
  have other: "current_setting (fold make_setting ?made S) k = current_setting S k"
    if "k \<notin> {''app.user_id'', ''app.roles''} \<union> fst ` set extra" for S k
  proof (rule current_fold_other)
    have "st_name ` set ?made = set (map st_name ?made)"
      by (simp only: set_map)
    also have "\<dots> = {''app.user_id'', ''app.roles''} \<union> fst ` set extra"
      unfolding names by simp
    finally have set_names: "st_name ` set ?made = {''app.user_id'', ''app.roles''} \<union> fst ` set extra" .
    show "k \<notin> st_name ` set ?made" unfolding set_names by (rule that)
  qed
  have "bound_setting (k, v) \<in> set ?made" if "(k, v) \<in> set extra" for k v
    using that assms by (force simp: lookup_extra_def)
  then have extras: "\<forall>(k, v) \<in> set extra. current_setting (fold make_setting ?made S) k = Some v" for S
    using hit by blast
  have "after_end (fold make_setting ?made S) = after_end S" for S
    using session_fold_local [of ?made S] by (simp add: after_end_def list_all_iff)
  moreover have "user = (case from_ctx c of None \<Rightarrow> [] | Some p \<Rightarrow> p_user p)"
    "held = (case from_ctx c of None \<Rightarrow> [] | Some p \<Rightarrow> join '','' (p_roles p))"
    using who by (auto simp: caller_settings_def split: option.splits)
  ultimately have "carries_caller c extra ?made"
    unfolding carries_caller_def Let_def using hit [of "''app.user_id''" user] hit [of "''app.roles''" held] extras other by simp
  with runs made have "\<exists>sql args made.
        with_rls_settings run_tx set_config c extra f = run_tx (tryM (set_config sql args) (\<lambda>_. f))
      \<and> set_config_calls sql args = Some made
      \<and> carries_caller c extra made"
    by blast
  with False show ?thesis by (simp only: if_False)
qed

definition sample_member :: principal where
  "sample_member = \<lparr>p_user = ''u1'', p_session = ''s1'', p_roles = [''a'', ''b''], p_auth_at = 0, p_mfa_at = None,
     p_email = [], p_verified = True\<rparr>"

theorem rls_carries_caller_witness:
  "(\<exists>sql args made. with_rls_settings (\<lambda>p. p) (\<lambda>s a. ret ()) (background\<lparr>cx_principal := Some sample_member\<rparr>)
       [(''app.org'', ''7'')] (ret ()) = tryM (ret ()) (\<lambda>_. ret ())
     \<and> set_config_calls sql args = Some made
     \<and> current_setting (fold make_setting made \<lparr>gs_session = Map.empty, gs_local = Map.empty\<rparr>) ''app.roles'' = Some ''a,b''
     \<and> current_setting (fold make_setting made \<lparr>gs_session = Map.empty, gs_local = Map.empty\<rparr>) ''app.org'' = Some ''7'')
   \<and> (\<exists>m. with_rls_settings (\<lambda>p. p) (\<lambda>s a. ret ()) background [(''app.user_id'', ''u2'')] (ret ())
         = fail (invalid_input m))"
proof -
  have "ident_ok ''org''" by code_simp
  then have good: "\<not> (\<exists>k \<in> fst ` set [(''app.org'', ''7'')].
      \<not> (\<exists>r. k = ''app.'' @ r \<and> ident_ok r) \<or> k = ''app.user_id'' \<or> k = ''app.roles'')"
    by simp
  have caller: "(case from_ctx (background\<lparr>cx_principal := Some sample_member\<rparr>) of None \<Rightarrow> []
      | Some p \<Rightarrow> join '','' (p_roles p)) = ''a,b''"
    by (simp add: from_ctx_def sample_member_def)
  have apart: "distinct (map fst [(''app.org'', ''7'')])" by simp
  obtain sql args made where run: "with_rls_settings (\<lambda>p. p) (\<lambda>s a. ret ()) (background\<lparr>cx_principal := Some sample_member\<rparr>)
       [(''app.org'', ''7'')] (ret ()) = tryM (ret ()) (\<lambda>_. ret ())"
    and calls: "set_config_calls sql args = Some made"
    and carried: "carries_caller (background\<lparr>cx_principal := Some sample_member\<rparr>) [(''app.org'', ''7'')] made"
    using rls_carries_caller [OF apart, of "\<lambda>p. p" "\<lambda>s a. ret ()"
      "background\<lparr>cx_principal := Some sample_member\<rparr>" "ret ()", unfolded if_not_P [OF good]] by blast
  have "\<exists>m. with_rls_settings (\<lambda>p. p) (\<lambda>s a. ret ()) background [(''app.user_id'', ''u2'')] (ret ())
         = fail (invalid_input m)"
    using rls_carries_caller [of "[(''app.user_id'', ''u2'')]" "\<lambda>p. p" "\<lambda>s a. ret ()" background "ret ()"] by simp
  moreover have "current_setting (fold make_setting made S) ''app.roles'' = Some ''a,b''"
    and "current_setting (fold make_setting made S) ''app.org'' = Some ''7''" for S
    using carried unfolding carries_caller_def caller Let_def by simp_all
  ultimately show ?thesis
    using run calls by blast
qed

end
