(* ===== verification/Directive.thy ===== *)
theory Directive
  imports Principal Samples
begin

text \<open>
  The @auth directive of \<open>authz/directive.go\<close>. The rest of the resolver chain is a program
  \<open>next\<close> of the context; the directive either fails before it or runs it. A list argument
  that GraphQL leaves out is \<open>None\<close>, which Go's nil slice and empty slice tell apart only
  for \<open>proves\<close>.
\<close>

definition LevelAnonymous :: string where "LevelAnonymous = ''ANONYMOUS''"
definition LevelAuthenticated :: string where "LevelAuthenticated = ''AUTHENTICATED''"

datatype gql_value = GString string | GOther string  \<comment> \<open>any other Go value, by its type name\<close>

definition unmarshal_level :: "unicode_tables \<Rightarrow> gql_value \<Rightarrow> goerr + string" where
  "unmarshal_level U v =
     (case v of
        GOther ty \<Rightarrow> Inl (Text (''AuthLevel must be a string, got '' @ ty))
      | GString s \<Rightarrow>
          if s = LevelAnonymous \<or> s = LevelAuthenticated then Inr s
          else Inl (Text (go_quote U s @ '' is not a valid AuthLevel'')))"

definition marshal_level :: "unicode_tables \<Rightarrow> string \<Rightarrow> string" where
  "marshal_level U l = go_quote U l"

text \<open>Durations in microseconds.\<close>

definition DefaultMFAWindow :: int where
  "DefaultMFAWindow = 15 * 60 * 1000000"

type_synonym proofs_fn = "ctx \<Rightarrow> string list \<Rightarrow> goerr option"

record directive_options =
  do_mfa_window :: int
  do_bypass :: string
  do_proofs :: "proofs_fn option"

definition any_role :: "unicode_tables \<Rightarrow> string list \<Rightarrow> string list \<Rightarrow> string \<Rightarrow> bool" where
  "any_role U held want bypass \<longleftrightarrow>
     bypass \<noteq> [] \<and> has_role U held bypass \<or> list_ex (has_role U held) want"

definition mfa_window :: "directive_options \<Rightarrow> int" where
  "mfa_window opts = (if do_mfa_window opts = 0 then DefaultMFAWindow else do_mfa_window opts)"

definition invalid_proof :: goerr where
  "invalid_proof = KalErr CodeInvalidProof ''zero-knowledge proof required'' None"

text \<open>
  The checks in their order; \<open>None\<close> lets the field be resolved. \<open>now\<close> is the process clock.
\<close>

definition auth_check ::
  "unicode_tables \<Rightarrow> int \<Rightarrow> directive_options \<Rightarrow> ctx \<Rightarrow> string \<Rightarrow> string list \<Rightarrow> bool option
     \<Rightarrow> string list option \<Rightarrow> goerr option" where
  "auth_check U now opts c requires want mfa proves =
     (if requires \<noteq> LevelAnonymous \<and> requires \<noteq> LevelAuthenticated
      then Some (KalErr CodeForbidden ''not permitted''
                   (Some (Text (''unknown AuthLevel '' @ go_quote U requires))))
      else if proves = Some [] then Some invalid_proof
      else (case from_ctx c of
        None \<Rightarrow>
          if requires = LevelAnonymous \<and> want = [] \<and> mfa \<noteq> Some True \<and> proves = None then None
          else Some (KalErr CodeUnauthenticated ''authentication required'' None)
      | Some p \<Rightarrow>
          if want \<noteq> [] \<and> \<not> any_role U (p_roles p) want (do_bypass opts)
          then Some (KalErr CodeForbidden ''not permitted'' None)
          else if mfa = Some True \<and>
                  (case p_mfa_at p of None \<Rightarrow> True | Some at \<Rightarrow> mfa_window opts < now - at)
          then Some (KalErr CodeMFARequired ''multi-factor authentication required'' None)
          else (case proves of
                  None \<Rightarrow> None
                | Some claims \<Rightarrow>
                    (case do_proofs opts of None \<Rightarrow> Some invalid_proof | Some f \<Rightarrow> f c claims))))"

definition directive ::
  "directive_options \<Rightarrow> (ctx \<Rightarrow> 'a prog) \<Rightarrow> ctx \<Rightarrow> string \<Rightarrow> string list \<Rightarrow> bool option
     \<Rightarrow> string list option \<Rightarrow> 'a prog" where
  "directive opts nxt c requires want mfa proves = (\<lambda>E w.
     case auth_check (unicode E) (proc_clock E (step w)) opts c requires want mfa proves of
       Some e \<Rightarrow> (Inl e, w)
     | None \<Rightarrow> nxt c E w)"

lemmas level_defs = LevelAnonymous_def LevelAuthenticated_def

section \<open>The decision as one predicate\<close>

text \<open>What a caller must bring, requirement by requirement.\<close>

definition holds_roles :: "unicode_tables \<Rightarrow> string \<Rightarrow> principal \<Rightarrow> string list \<Rightarrow> bool" where
  "holds_roles U bypass p want \<longleftrightarrow> want = []
     \<or> (\<exists>r \<in> set (if bypass = [] then want else bypass # want). has_role U (p_roles p) r)"

definition stepped_up :: "int \<Rightarrow> int \<Rightarrow> principal \<Rightarrow> bool option \<Rightarrow> bool" where
  "stepped_up now window p mfa \<longleftrightarrow>
     (mfa = Some True \<longrightarrow> (\<exists>at. p_mfa_at p = Some at \<and> now \<le> at + window))"

definition proved :: "proofs_fn option \<Rightarrow> ctx \<Rightarrow> string list option \<Rightarrow> bool" where
  "proved f c proves \<longleftrightarrow> (case proves of None \<Rightarrow> True
     | Some claims \<Rightarrow> claims \<noteq> [] \<and> (\<exists>g. f = Some g \<and> g c claims = None))"

lemma holds_roles_iff:
  "holds_roles U b p want \<longleftrightarrow> want = [] \<or> any_role U (p_roles p) want b"
  by (auto simp: holds_roles_def any_role_def list_ex_iff)

lemma auth_check_principal:
  assumes "from_ctx c = Some p"
  shows "auth_check U now opts c requires want mfa proves = None \<longleftrightarrow>
     requires \<in> {LevelAnonymous, LevelAuthenticated}
     \<and> holds_roles U (do_bypass opts) p want
     \<and> stepped_up now (mfa_window opts) p mfa
     \<and> proved (do_proofs opts) c proves"
  using assms unfolding auth_check_def
  by (auto simp: holds_roles_iff proved_def stepped_up_def not_less algebra_simps split: option.splits)

lemma auth_check_anonymous:
  assumes "from_ctx c = None"
  shows "auth_check U now opts c requires want mfa proves = None \<longleftrightarrow>
     requires = LevelAnonymous \<and> want = [] \<and> mfa \<noteq> Some True \<and> proves = None"
  using assms by (auto simp: auth_check_def)

section \<open>Properties\<close>

text \<open>Every requirement of the annotation, met.\<close>

definition admitted ::
  "unicode_tables \<Rightarrow> int \<Rightarrow> directive_options \<Rightarrow> ctx \<Rightarrow> string \<Rightarrow> string list \<Rightarrow> bool option
     \<Rightarrow> string list option \<Rightarrow> bool" where
  "admitted U now opts c requires want mfa proves \<longleftrightarrow>
     (case from_ctx c of
        None \<Rightarrow> requires = LevelAnonymous \<and> want = [] \<and> mfa \<noteq> Some True \<and> proves = None
      | Some p \<Rightarrow> requires \<in> {LevelAnonymous, LevelAuthenticated}
          \<and> holds_roles U (do_bypass opts) p want
          \<and> stepped_up now (mfa_window opts) p mfa
          \<and> proved (do_proofs opts) c proves)"

lemma auth_check_None:
  "auth_check U now opts c requires want mfa proves = None \<longleftrightarrow> admitted U now opts c requires want mfa proves"
  by (cases "from_ctx c") (simp_all add: admitted_def auth_check_anonymous auth_check_principal)

text \<open>C5 The @auth decision: the rest of the chain runs, on the same context and world, exactly
  when the level is known and either the caller is anonymous on a field that asks for nothing
  at all, or the caller holds one of the roles (or the bypass role), is stepped up inside the
  window when mfa is asked for, and satisfies a non-empty proof list when one is given.
  Otherwise the field fails and nothing has happened.\<close>

theorem directive_decision:
  "\<exists>e. directive opts nxt c requires want mfa proves E w =
     (if admitted (unicode E) (proc_clock E (step w)) opts c requires want mfa proves
      then nxt c E w else (Inl e, w))"
proof (cases "auth_check (unicode E) (proc_clock E (step w)) opts c requires want mfa proves")
  case None
  then have "admitted (unicode E) (proc_clock E (step w)) opts c requires want mfa proves"
    by (simp flip: auth_check_None)
  with None show ?thesis by (simp add: directive_def)
next
  case (Some e)
  then have "\<not> admitted (unicode E) (proc_clock E (step w)) opts c requires want mfa proves"
    by (simp flip: auth_check_None)
  with Some show ?thesis by (simp add: directive_def)
qed

text \<open>An empty proof list denies everyone: no caller, level, role or factor gets past
  \<open>proves: []\<close>, and the proof module is not consulted.\<close>

theorem empty_proves_denies:
  "\<exists>e. directive opts nxt c requires want mfa (Some []) E w = (Inl e, w)
     \<and> has_code (if requires \<in> {LevelAnonymous, LevelAuthenticated} then CodeInvalidProof else CodeForbidden) e"
  by (auto simp: directive_def auth_check_def invalid_proof_def)

end
