(* ===== verification/Kal.thy ===== *)
theory Kal
  imports Jwt Base_Url Vaults Guard Middleware Rls Directive
begin

text \<open>
  The assembly of \<open>kal.go\<close>: the configuration and what New rejects, the middleware chain,
  the gqlgen extensions, the directive and row-level security as an application mounts them.
  A pointer or function that may be nil is an option; of the pool and the Mailer only whether
  they are there matters. A handler answers with a value of any type.
\<close>

section \<open>Configuration\<close>

type_synonym 'a handler = "ctx \<Rightarrow> request \<Rightarrow> 'a prog"

record 'a config =
  cf_db :: bool
  cf_base_url :: string
  cf_mailer :: bool
  cf_schema :: string
  cf_idle :: int
  cf_absolute :: int
  cf_cookie :: string
  cf_argon2 :: hash_params
  cf_max_hashes :: int
  cf_hasher :: "hasher option"
  cf_bypass :: string
  cf_audit :: bool
  cf_rls :: "(ctx \<Rightarrow> (string \<times> string) list) option"
  cf_mfa_window :: int
  cf_allow_unverified :: bool
  cf_client_ip :: "(request \<Rightarrow> string) option"
  cf_introspection :: "(ctx \<Rightarrow> bool) option"
  cf_sensitive :: "string list option"
  cf_max_aliases :: int
  cf_max_depth :: int
  cf_jwt_issuer :: string
  cf_jwt_keys :: "byte list list"
  cf_proofs :: "proofs_fn option"
  cf_extras :: "('a handler \<Rightarrow> 'a handler) list"
  cf_e2ee :: "vault_options option"

record 'a auth =
  au_sessions :: sessions_cfg
  au_accounts :: accounts
  au_accounts_prefix :: string
  au_roles :: string
  au_hasher :: hasher
  au_jwt :: "jwt option"
  au_vaults :: "vaults_cfg option"
  au_cfg :: "'a config"
  au_mw :: middleware_options

definition zero_params :: hash_params where
  "zero_params = \<lparr>hp_memory = 0, hp_time = 0, hp_parallelism = 0, hp_salt_len = 0, hp_key_len = 0\<rparr>"

section \<open>New\<close>

definition mailer_missing :: goerr where
  "mailer_missing = Text (''kal: Config.Mailer is required '' @ em_dash
     @ '' a silent no-op means password reset fails at 3am with nothing in any log; use kal.LogMailer{} in development'')"

definition hasher_conflict :: goerr where
  "hasher_conflict = Text (''kal: Config.Hasher is set together with Argon2 or MaxConcurrentHashes '' @ em_dash
     @ '' the pre-built hasher already carries both, and silently ignoring a cost parameter is how a deployment ends up hashing at parameters nobody chose'')"

definition keys_missing :: goerr where
  "keys_missing = Text ''kal: Config.JWTIssuer is set but Config.JWTKeys is empty''"

definition issuer_missing :: goerr where
  "issuer_missing = Text (''kal: Config.JWTKeys is set but Config.JWTIssuer is empty '' @ em_dash
     @ '' a token nobody can attribute to an issuer is not verifiable'')"

text \<open>The checks before anything is built.\<close>

definition config_fault :: "'a config \<Rightarrow> goerr option" where
  "config_fault cfg =
     (if \<not> cf_db cfg then Some (Text ''kal: Config.DB is required'')
      else case validate_base_url (cf_base_url cfg) of
        Some e \<Rightarrow> Some e
      | None \<Rightarrow>
          if \<not> cf_mailer cfg then Some mailer_missing
          else if cf_hasher cfg \<noteq> None \<and> (cf_argon2 cfg \<noteq> zero_params \<or> cf_max_hashes cfg \<noteq> 0)
          then Some hasher_conflict
          else None)"

text \<open>A panic of the hash function is not an error New could wrap.\<close>

definition config_hasher :: "int \<Rightarrow> 'a config \<Rightarrow> hasher prog" where
  "config_hasher gomaxprocs cfg =
     (case cf_hasher cfg of
        Some H \<Rightarrow> ret H
      | None \<Rightarrow> bindM (new_hasher gomaxprocs (cf_argon2 cfg) (cf_max_hashes cfg)) (\<lambda>r. case r of
            Inl e \<Rightarrow> fail (if is_panic e then e else Wrapped ''kal: '' e)
          | Inr H \<Rightarrow> ret H))"

definition config_sessions :: "(string \<Rightarrow> string) \<Rightarrow> 'a config \<Rightarrow> goerr + sessions_cfg" where
  "config_sessions append_ident cfg = new_sessions append_ident
     \<lparr>so_idle = cf_idle cfg, so_absolute = cf_absolute cfg, so_schema = cf_schema cfg, so_audit = cf_audit cfg\<rparr>"

definition config_vaults :: "(string \<Rightarrow> string) \<Rightarrow> 'a config \<Rightarrow> goerr + vaults_cfg option" where
  "config_vaults append_ident cfg =
     (case cf_e2ee cfg of
        None \<Rightarrow> Inr None
      | Some opts \<Rightarrow>
          (case new_vaults append_ident (opts\<lparr>vo_schema := cf_schema cfg\<rparr>) of
             Inl e \<Rightarrow> Inl e
           | Inr V \<Rightarrow> Inr (Some V)))"

definition config_accounts ::
  "(string \<Rightarrow> string) \<Rightarrow> 'a config \<Rightarrow> hasher \<Rightarrow> sessions_cfg \<Rightarrow> goerr + accounts \<times> string" where
  "config_accounts append_ident cfg H S = new_accounts append_ident
     \<lparr>ao_hasher = Some H, ao_sessions = Some S, ao_mailer = cf_mailer cfg, ao_base_url = cf_base_url cfg,
      ao_cookie = cf_cookie cfg, ao_schema = cf_schema cfg,
      ao_secret_shape = map_option (\<lambda>_. validate_auth_secret) (cf_e2ee cfg),
      ao_allow_unverified = cf_allow_unverified cfg, ao_audit = cf_audit cfg\<rparr>"

definition config_jwt :: "'a config \<Rightarrow> goerr + jwt option" where
  "config_jwt cfg =
     (if cf_jwt_issuer cfg \<noteq> [] then
        (if cf_jwt_keys cfg = [] then Inl keys_missing
         else case new_jwt (cf_jwt_issuer cfg) (cf_jwt_keys cfg) of Inl e \<Rightarrow> Inl e | Inr J \<Rightarrow> Inr (Some J))
      else if cf_jwt_keys cfg \<noteq> [] then Inl issuer_missing
      else Inr None)"

definition kal_new :: "(string \<Rightarrow> string) \<Rightarrow> int \<Rightarrow> 'a config \<Rightarrow> 'a auth prog" where
  "kal_new append_ident gomaxprocs cfg =
     (case config_fault cfg of
        Some e \<Rightarrow> fail e
      | None \<Rightarrow>
          tryM (config_hasher gomaxprocs cfg) (\<lambda>H.
          tryM (lift (config_sessions append_ident cfg)) (\<lambda>S.
          tryM (lift (config_vaults append_ident cfg)) (\<lambda>vaults.
          tryM (lift (config_accounts append_ident cfg H S)) (\<lambda>(A, prefix).
          tryM (lift (new_roles append_ident (cf_schema cfg))) (\<lambda>roles.
          tryM (lift (config_jwt cfg)) (\<lambda>J.
          ret \<lparr>au_sessions = S, au_accounts = A, au_accounts_prefix = prefix, au_roles = roles, au_hasher = H,
               au_jwt = J, au_vaults = vaults, au_cfg = cfg,
               au_mw = \<lparr>mo_cookie_name = cf_cookie cfg, mo_client_ip = cf_client_ip cfg\<rparr>\<rparr>)))))))"

section \<open>The middleware chain\<close>

text \<open>The extras, first one outermost, around the application's handler.\<close>

definition with_extras :: "('a handler \<Rightarrow> 'a handler) list \<Rightarrow> 'a handler \<Rightarrow> 'a handler" where
  "with_extras extras nxt = foldr (\<lambda>v n. v n) extras nxt"

definition carrying_bypass :: "string \<Rightarrow> 'a handler \<Rightarrow> 'a handler" where
  "carrying_bypass role inner = (if role = [] then inner else (\<lambda>c r. inner (with_bypass_role c role) r))"

definition kal_middleware :: "'a auth \<Rightarrow> 'a handler \<Rightarrow> ctx \<Rightarrow> request \<Rightarrow> 'a response prog" where
  "kal_middleware a nxt = middleware (au_sessions a) (au_mw a)
     (carrying_bypass (cf_bypass (au_cfg a)) (with_extras (cf_extras (au_cfg a)) nxt))"

section \<open>The gqlgen extensions\<close>

record server_setup =
  sv_guard :: guard
  sv_introspection :: "ctx \<Rightarrow> bool"  \<comment> \<open>conditionalIntrospection.allow\<close>
  sv_disable_suggestion :: bool

definition kal_configure :: "'a auth \<Rightarrow> server_setup" where
  "kal_configure a =
     \<lparr>sv_guard = configure_guard (cf_sensitive (au_cfg a)) (cf_max_aliases (au_cfg a)) (cf_max_depth (au_cfg a)),
      sv_introspection = (case cf_introspection (au_cfg a) of None \<Rightarrow> (\<lambda>_. False) | Some f \<Rightarrow> f),
      sv_disable_suggestion = True\<rparr>"

text \<open>MutateOperationContext: the value of DisableIntrospection for an operation.\<close>

definition disable_introspection :: "server_setup \<Rightarrow> ctx \<Rightarrow> bool" where
  "disable_introspection sv c \<longleftrightarrow> \<not> sv_introspection sv c"

definition kal_directive ::
  "'b auth \<Rightarrow> (ctx \<Rightarrow> 'a prog) \<Rightarrow> ctx \<Rightarrow> string \<Rightarrow> string list \<Rightarrow> bool option \<Rightarrow> string list option \<Rightarrow> 'a prog" where
  "kal_directive a = directive \<lparr>do_mfa_window = cf_mfa_window (au_cfg a),
     do_bypass = cf_bypass (au_cfg a), do_proofs = cf_proofs (au_cfg a)\<rparr>"

definition kal_with_rls ::
  "'b auth \<Rightarrow> (unit prog \<Rightarrow> unit prog) \<Rightarrow> (string \<Rightarrow> string list \<Rightarrow> unit prog) \<Rightarrow> ctx \<Rightarrow> unit prog \<Rightarrow> unit prog" where
  "kal_with_rls a run_tx set_config c f =
     (case cf_rls (au_cfg a) of
        None \<Rightarrow> with_rls run_tx set_config c f
      | Some settings \<Rightarrow> with_rls_settings run_tx set_config c (settings c) f)"

end
