(* ===== verification/Error_Codes.thy ===== *)
theory Error_Codes
  imports Password Session_Store
begin

text \<open>
  Which errors a program can return. A class of errors that holds every error without a kal
  code (a lost connection, a violated constraint, the CSPRNG) is closed under the structure
  of programs; the rules below bound the codes an operation answers with.
\<close>

definition raises :: "(goerr \<Rightarrow> bool) \<Rightarrow> env \<Rightarrow> 'a prog \<Rightarrow> bool" where
  "raises P E m \<longleftrightarrow> (\<forall>w e w'. m E w = (Inl e, w') \<longrightarrow> P e)"

lemma raisesI: "(\<And>w e w'. m E w = (Inl e, w') \<Longrightarrow> P e) \<Longrightarrow> raises P E m"
  by (auto simp: raises_def)

lemma raisesD: "raises P E m \<Longrightarrow> m E w = (Inl e, w') \<Longrightarrow> P e"
  by (auto simp: raises_def)

lemma raises_mono: "raises P E m \<Longrightarrow> (\<And>e. P e \<Longrightarrow> Q e) \<Longrightarrow> raises Q E m"
  by (auto simp: raises_def)

text \<open>Postgres reports a failed statement as a driver error.\<close>

definition driver_only :: "'r stmt \<Rightarrow> bool" where
  "driver_only st \<longleftrightarrow> (\<forall>now uid d e. st now uid d = Inl e \<longrightarrow> (\<exists>s. e = Driver s))"

lemma driver_sessions [guar]:
  "driver_only (issue_sql h u i a ua ip)" "driver_only (lookup_sql h i)" "driver_only (rotate_sql h i s)"
  "driver_only (record_mfa_sql s u)" "driver_only (revoke_sql s)" "driver_only (revoke_all_sql u)"
  "driver_only (list_sql u)"
  by (auto simp: driver_only_def session_sql_defs unique_violation_def foreign_key_violation_def
      out_of_range_def Let_def)

lemma driver_authn [guar]:
  "driver_only (login_select_sql U e)" "driver_only (hash_by_id_sql i)"
  "driver_only (update_password_sql n i p)" "driver_only (insert_user_sql U e h)"
  "driver_only (insert_invitee_sql U e)" "driver_only (user_id_by_email_sql U e)"
  "driver_only (email_by_id_sql i)" "driver_only (set_password_sql h i)" "driver_only (mark_verified_sql i)"
  "driver_only (attempts_sql e ip)" "driver_only (record_both_sql e ip)" "driver_only (record_user_sql e)"
  "driver_only (reset_attempts_sql e ip)" "driver_only (insert_token_sql t u p ttl)"
  "driver_only (consume_token_sql t p)"
  by (auto simp: driver_only_def authn_sql_defs unique_violation_def foreign_key_violation_def
      out_of_range_def)

locale error_class =
  fixes P :: "goerr \<Rightarrow> bool"
  assumes plain: "as_kal e = None \<Longrightarrow> P e"
begin

lemma raises_ret: "raises P E (ret x)"
  by (simp add: raises_def ret_def)

lemma raises_fail: "P e \<Longrightarrow> raises P E (fail e)"
  by (simp add: raises_def fail_def)

lemma raises_bindM: "(\<And>r. raises P E (f r)) \<Longrightarrow> raises P E (bindM m f)"
  by (auto simp: raises_def elim!: bindM_run)

text \<open>A bind whose continuation passes the first error on, as it is or under a new code.\<close>

lemma raises_catch:
  assumes "raises P E m" and "\<And>e. P e \<Longrightarrow> raises P E (f e)" and "\<And>a. raises P E (g a)"
  shows "raises P E (bindM m (\<lambda>r. case r of Inl e \<Rightarrow> f e | Inr a \<Rightarrow> g a))"
proof (rule raisesI)
  fix w e w'
  assume "bindM m (\<lambda>r. case r of Inl e \<Rightarrow> f e | Inr a \<Rightarrow> g a) E w = (Inl e, w')"
  then obtain r w1 where "m E w = (r, w1)"
    and "(case r of Inl e \<Rightarrow> f e | Inr a \<Rightarrow> g a) E w1 = (Inl e, w')"
    by (rule bindM_run)
  then show "P e"
    by (cases r) (auto dest: raisesD [OF assms(1)] raisesD [OF assms(2)] raisesD [OF assms(3)])
qed

lemma raises_tryM: "raises P E m \<Longrightarrow> (\<And>a. raises P E (f a)) \<Longrightarrow> raises P E (tryM m f)"
  unfolding tryM_def by (intro raises_catch raises_fail)

lemma raises_with_env: "raises P E (f E) \<Longrightarrow> raises P E (with_env f)"
  by (simp add: raises_def with_env_def)

lemma raises_ignoring: "raises P E n \<Longrightarrow> raises P E (ignoring prefix m n)"
  unfolding ignoring_def by (rule raises_bindM) (auto intro: raises_bindM split: sum.split)

lemma raises_exec:
  assumes "driver_only st"
  shows "raises P E (exec st)"
proof (rule raisesI)
  fix w e w'
  assume "exec st E w = (Inl e, w')"
  then have "e = Driver ''connection'' \<or> st (db_clock E (step w)) (new_uuid E (step w)) (db w) = Inl e"
    by (auto simp: exec_def split: if_splits sum.splits)
  then obtain s where "e = Driver s"
    using assms unfolding driver_only_def by blast
  then show "P e" by (simp add: plain)
qed

lemma raises_query_one: "driver_only st \<Longrightarrow> raises P E (query_one st)"
  unfolding query_one_def
  by (rule raises_tryM [OF raises_exec])
    (auto simp: raises_def lift_def intro!: plain elim: one_row.elims)

lemma raises_effects:
  "raises P E (emit hook e)" "raises P E (send_mail to msg)" "raises P E (rand_read n)"
  "raises P E (add_cookie c)" "raises P E count_hash" "raises P E release_slot" "raises P E (log_printf l)"
  by (auto simp: raises_def log_printf_def emit_def send_mail_def rand_read_def add_cookie_def count_hash_def
      release_slot_def intro!: plain split: if_splits)

lemma raises_if: "(b \<Longrightarrow> raises P E m) \<Longrightarrow> (\<not> b \<Longrightarrow> raises P E n) \<Longrightarrow> raises P E (if b then m else n)"
  by simp

lemma raises_case_option:
  "(r = None \<Longrightarrow> raises P E m) \<Longrightarrow> (\<And>a. r = Some a \<Longrightarrow> raises P E (g a)) \<Longrightarrow>
     raises P E (case r of None \<Rightarrow> m | Some a \<Rightarrow> g a)"
  by (simp split: option.split)

lemma raises_Let: "(\<And>a. raises P E (f a)) \<Longrightarrow> raises P E (Let x f)"
  by (simp add: Let_def)

lemma raises_case_prod: "(\<And>a b. raises P E (f a b)) \<Longrightarrow> raises P E (case p of (a, b) \<Rightarrow> f a b)"
  by (simp split: prod.split)

lemmas raises_rules =
  raises_ret raises_tryM raises_with_env raises_ignoring raises_exec raises_query_one raises_effects
  raises_if raises_case_option raises_case_prod raises_Let raises_catch

lemma raises_within_bound:
  assumes "P try_again" and "raises P E m"
  shows "raises P E (within_bound H m)"
  using assms by (auto simp: raises_def within_bound_eq split: if_splits prod.splits)

lemma raises_id_key: "raises P E (id_key pw salt p)"
  unfolding id_key_def
  by (intro raises_bindM raises_with_env raises_case_option raises_fail raises_ret plain) simp

lemma raises_hashing:
  assumes "P try_again"
  shows "raises P E (hash_password H pw)" "raises P E (verify H pw enc)" "raises P E (verify_dummy H pw)"
proof -
  have stored: "raises P E (verify_stored H pw enc)" for enc
    unfolding verify_stored_def Let_def
    by (intro raises_rules raises_bindM raises_id_key; (auto simp: raises_def lift_def intro!: plain
          dest: parse_phc_error)?)
  show "raises P E (verify H pw enc)" for enc
    unfolding verify_def by (intro raises_within_bound assms stored)
  then show "raises P E (verify_dummy H pw)"
    unfolding verify_dummy_def by (intro raises_tryM raises_ret)
  show "raises P E (hash_password H pw)"
    unfolding hash_password_def hash_bytes_def
    by (intro raises_within_bound raises_tryM raises_id_key raises_effects raises_ret assms)
qed

lemma raises_sessions:
  "raises P E new_token" "raises P E (issue S user mt)" "raises P E (lookup S token)"
  "raises P E (revoke S sid)" "raises P E (revoke_all_for_user S user)" "raises P E (set_cookie c k)"
  "raises P E (list_sessions user)"
  unfolding new_token_def issue_def lookup_def revoke_def revoke_all_for_user_def set_cookie_def list_sessions_def
  by (intro raises_rules raises_fail guar; (simp add: plain)?)+

end

text \<open>The class of one set of codes.\<close>

definition codes_in :: "string set \<Rightarrow> goerr \<Rightarrow> bool" where
  "codes_in C e \<longleftrightarrow> (case as_kal e of None \<Rightarrow> True | Some (c, m) \<Rightarrow> c \<in> C)"

interpretation codes: error_class "codes_in C" for C
  by unfold_locales (simp add: codes_in_def)

lemma codes_in_KalErr [simp]: "codes_in C (KalErr c m i) \<longleftrightarrow> c \<in> C"
  by (simp add: codes_in_def)

lemma codes_in_try_again [simp]: "codes_in C try_again \<longleftrightarrow> CodeRateLimited \<in> C"
  by (simp add: try_again_def)

lemma codes_in_has_code: "codes_in C e \<Longrightarrow> has_code c e \<Longrightarrow> c \<in> C"
  by (auto simp: codes_in_def has_code_def)

end
