(* ===== verification/Account_Facts.thy ===== *)
theory Account_Facts
  imports Account_Tokens Error_Codes
begin

text \<open>
  What the credential and token flows promise: which errors they answer with, what a failed
  login costs and leaves, whom a successful one logs in, what a redeemed token does.
\<close>

section \<open>Error codes of the flows\<close>

context error_class begin

lemma raises_helpers:
  "raises P E (record_failure key ip)" "raises P E (reset_backoff key ip)" "raises P E (notify A to msg)"
  "raises P E (rehash_failed A user e)"
  unfolding record_failure_def reset_backoff_def notify_def rehash_failed_def
  by (intro raises_rules raises_bindM)+

lemma raises_rehash: "P try_again \<Longrightarrow> raises P E (rehash_stored A user password old)"
  unfolding rehash_stored_def
  by (intro raises_rules raises_catch raises_hashing raises_helpers raises_fail guar)

lemma raises_check_backoff: "P rate_limited \<Longrightarrow> raises P E (check_backoff A key ip)"
  unfolding check_backoff_def by (intro raises_rules raises_fail guar)

lemma raises_start_session: "raises P E (start_session A c user)"
  unfolding start_session_def
  by (intro raises_rules raises_sessions raises_fail plain; simp)

lemma raises_secret:
  "(\<And>e. ac_secret_shape A s = Some e \<Longrightarrow> P e) \<Longrightarrow> raises P E (check_secret A s)"
  unfolding check_secret_def by (intro raises_rules raises_fail)

lemma raises_login_known:
  assumes "P try_again" and "\<And>i. P (invalid_credentials i)"
  shows "raises P E (login_known A c email password prior user stored verified)"
  unfolding login_known_def Let_def
  by (intro raises_rules raises_hashing raises_helpers raises_rehash raises_start_session raises_fail assms)

lemma raises_login_nobody:
  assumes "P try_again" and "\<And>i. P (invalid_credentials i)"
  shows "raises P E (login_nobody A email password ip)"
  unfolding login_nobody_def
  by (intro raises_rules raises_hashing raises_helpers raises_fail assms)

lemma raises_login:
  assumes "P try_again" and "P rate_limited" and "\<And>i. P (invalid_credentials i)"
  shows "raises P E (login A c email password)"
  unfolding login_def Let_def
  by (intro raises_rules raises_check_backoff raises_login_known raises_login_nobody raises_fail assms guar)

lemma raises_logout: "raises P E (logout A c)"
  unfolding logout_def by (intro raises_rules raises_sessions)

lemma raises_mint: "raises P E (mint user p)"
  unfolding mint_def by (intro raises_rules raises_sessions guar)

lemma raises_consume:
  assumes "\<And>i. P (KalErr CodeInvalidToken ''this link is invalid or has expired'' i)"
  shows "raises P E (consume token p)"
  unfolding consume_def by (intro raises_rules raises_fail guar) (simp add: assms)

lemma raises_token_flows:
  assumes "\<And>i. P (KalErr CodeInvalidToken ''this link is invalid or has expired'' i)" and "P try_again"
    and "\<And>s e. ac_secret_shape A s = Some e \<Longrightarrow> P e" and "P address_error"
  shows "raises P E (register A email pw)" "raises P E (request_password_reset A email)"
    "raises P E (reset_password A token pw)" "raises P E (verify_email token)"
    "raises P E (accept_invite A token pw)"
  unfolding register_def enrol_def request_password_reset_def reset_password_def recover_def verify_email_def accept_invite_def
    Let_def
  by (intro raises_rules raises_hashing raises_helpers raises_mint raises_consume
      raises_secret [OF assms(3)] raises_sessions raises_fail raises_bindM assms(1,2,4) guar; assumption?)+

end

section \<open>A failed login\<close>

text \<open>Nothing but the failure counters, the trail and the step count has moved.\<close>

definition counted :: "env \<Rightarrow> world \<Rightarrow> world \<Rightarrow> bool" where
  "counted E w w' \<longleftrightarrow> (\<exists>t. db w' = (db w)\<lparr>attempts := t\<rparr>) \<and> hash_runs w' = hash_runs w
     \<and> jar w' = jar w \<and> outbox w' = outbox w"

lemma same_but_attempts [simp]: "\<exists>t. d = d\<lparr>attempts := t\<rparr>"
  by (rule exI [of _ "attempts d"]) simp

interpretation counting: guarantee counted
  by unfold_locales (auto simp: counted_def)

lemma counted_exec:
  assumes "\<And>now uid d r d'. st now uid d = Inr (r, d') \<Longrightarrow> d' = d\<lparr>attempts := attempts d'\<rparr>"
  shows "keeps counted E (exec st)"
proof (rule keepsI)
  fix w r w'
  assume run: "exec st E w = (r, w')"
  then have "\<exists>t. db w' = (db w)\<lparr>attempts := t\<rparr>"
  proof (cases rule: exec_db)
    case kept
    then show ?thesis by simp
  next
    case (applied x)
    from assms [OF this] show ?thesis ..
  qed
  with exec_frame [OF run] show "counted E w w'"
    by (simp add: counted_def)
qed

lemma counted_effects [guar]:
  "keeps counted E (emit hook ev)" "keeps counted E (log_printf l)" "keeps counted E (exec (attempts_sql e ip))"
  "keeps counted E (exec (record_both_sql e ip))" "keeps counted E (exec (record_user_sql e))"
  "keeps counted E (exec (login_select_sql U e))" "keeps counted E (exec (reset_attempts_sql e ip))"
  by ((rule counted_exec, auto simp: authn_sql_defs split: if_splits)
      | (auto simp: keeps_def counted_def emit_def log_printf_def; fail))+

lemma counted_helpers [guar]:
  "keeps counted E (record_failure key ip)" "keeps counted E (check_backoff A key ip)"
  unfolding record_failure_def check_backoff_def if_distrib [of exec] by (intro counting.keeps_rules guar)+

lemma tryM_Inl:
  assumes "tryM m f E w = (Inl e, w')"
  obtains "m E w = (Inl e, w')" | a w1 where "m E w = (Inr a, w1)" and "f a E w1 = (Inl e, w')"
  using assms by (auto simp: prog_defs split: prod.splits sum.splits)

lemma refuse_tail:
  assumes "tryM (record_failure key ip) (\<lambda>_. tryM (emit hook ev) (\<lambda>_. fail x)) E w = (r, w')"
  shows "r = Inl x \<and> counted E w w'"
proof -
  have "keeps counted E (tryM (record_failure key ip) (\<lambda>_. tryM (emit hook ev) (\<lambda>_. fail x)))"
    by (intro counting.keeps_rules guar)
  from keepsD [OF this assms] have "counted E w w'" .
  moreover from assms have "r = Inl x"
    by (auto simp: record_failure_def tryM_def ignoring_def log_printf_def bindM_def emit_def fail_def ret_def
        split: if_splits prod.splits sum.splits)
  ultimately show ?thesis by simp
qed

lemma counted_hashed_db: "counted E (hashed_once n w) w' \<longleftrightarrow>
    (\<exists>t. db w' = (db w)\<lparr>attempts := t\<rparr>) \<and> hash_runs w' = Suc (hash_runs w)
     \<and> jar w' = jar w \<and> outbox w' = outbox w"
  by (simp add: counted_def)

definition blames :: "goerr \<Rightarrow> bool" where
  "blames e \<longleftrightarrow> has_code CodeInvalidCredentials e"

lemma not_coded:
  "raises (codes_in (- {k})) E m \<Longrightarrow> m E w = (Inl e, w') \<Longrightarrow> \<not> has_code k e"
  by (auto dest!: raisesD codes_in_has_code)

lemma code_tryM:
  assumes "tryM m f E w = (Inl e, w')" and "has_code k e" and "raises (codes_in (- {k})) E m"
  obtains a w1 where "m E w = (Inr a, w1)" and "f a E w1 = (Inl e, w')"
  using assms(1) by (rule tryM_Inl) (use assms(2) not_coded [OF assms(3)] that in blast)+

lemmas not_blamed = not_coded [where k = CodeInvalidCredentials, folded blames_def]
  and blame_tryM = code_tryM [where k = CodeInvalidCredentials, folded blames_def]

lemma other_codes [simp]:
  "CodeRateLimited \<noteq> CodeInvalidCredentials" "CodeUnauthenticated \<noteq> CodeInvalidCredentials"
  by (simp_all add: code_defs)

lemma rate_limited_code [simp]: "codes_in C rate_limited \<longleftrightarrow> CodeRateLimited \<in> C"
  by (simp add: rate_limited_def)

text \<open>Wherever the refusal comes from: one hash was computed, only the counters were written.\<close>

lemma login_nobody_blame:
  assumes "(login_nobody A email password ip :: 'a prog) E w = (Inl e, w')" and "blames e"
  shows "e = invalid_credentials None \<and> counted E (hashed_once 1 w) w'"
proof -
  have "raises (codes_in (- {CodeInvalidCredentials})) E (verify_dummy (ac_hasher A) password)"
    by (rule codes.raises_hashing) simp
  with assms(1) [unfolded login_nobody_def] assms(2)
  obtain u w1 where dummy: "verify_dummy (ac_hasher A) password E w = (Inr u, w1)"
    and rest: "tryM (record_failure email ip) (\<lambda>_.
       tryM (emit (ac_audit A) (login_fail_event [] email ip [])) (\<lambda>_. fail (invalid_credentials None) :: 'a prog))
       E w1 = (Inl e, w')"
    by (rule blame_tryM)
  from dummy have "w1 = hashed_once 1 w" by (intro verify_dummy_Inr)
  with refuse_tail [OF rest] show ?thesis by simp
qed

lemma login_known_blame:
  assumes run: "login_known A c email password prior user stored verified E w = (Inl e, w')" and "blames e"
  shows "\<exists>i. e = invalid_credentials i \<and> counted E (hashed_once 1 w) w'"
proof -
  let ?C = "- {CodeInvalidCredentials}"
  let ?ip = "mt_ip (meta_from_context c)"
  let ?H = "ac_hasher A"
  have v: "raises (codes_in ?C) E (verify ?H password stored)"
    by (rule codes.raises_hashing) simp
  obtain a w1 where ver0: "verify ?H password stored E w = (Inr a, w1)" and rest0: "(case a of (ok, b) \<Rightarrow>
(if \<not> ok then
          tryM (record_failure email ?ip) (\<lambda>_.
          tryM (emit (ac_audit A) (login_fail_event user email ?ip ''password'')) (\<lambda>_.
          fail (invalid_credentials None)))
        else if \<not> verified \<and> \<not> ac_allow_unverified A then
          tryM (emit (ac_audit A) (login_fail_event user email ?ip ''unverified'')) (\<lambda>_.
          fail (invalid_credentials (Some (Text ''email not verified''))))
        else
          tryM (if b then rehash_stored A user password stored else ret ()) (\<lambda>_.
          tryM (if suspiciousFailures \<le> prior then notify A email suspicious_login else ret ()) (\<lambda>_.
          tryM (reset_backoff email ?ip) (\<lambda>_.
          tryM (emit (ac_audit A) (no_event\<lparr>ev_kind := ''login.ok'', ev_user := user, ev_email := email,
                  ev_ip := ?ip, ev_detail := [(''prior_failures'', itoa (nat prior))]\<rparr>)) (\<lambda>_.
          start_session A c user)))))) E w1 = (Inl e, w')"
    using run [unfolded login_known_def Let_def] assms(2) v by (rule blame_tryM)
  obtain ok b where a: "a = (ok, b)" by (cases a)
  note ver = ver0 [unfolded a]
  note rest = rest0 [unfolded a prod.case]
  have w1: "w1 = hashed_once 1 w"
    using ver by (rule verify_Inr)
  have "raises (codes_in ?C) E
       (tryM (if b then rehash_stored A user password stored else ret ()) (\<lambda>_.
          tryM (if suspiciousFailures \<le> prior then notify A email suspicious_login else ret ()) (\<lambda>_.
          tryM (reset_backoff email ?ip) (\<lambda>_.
          tryM (emit (ac_audit A) (no_event\<lparr>ev_kind := ''login.ok'', ev_user := user, ev_email := email,
                  ev_ip := ?ip, ev_detail := [(''prior_failures'', itoa (nat prior))]\<rparr>)) (\<lambda>_.
          start_session A c user)))))" (is "raises _ _ ?go")
    by (intro codes.raises_rules codes.raises_rehash codes.raises_helpers codes.raises_start_session) simp
  then have "?go E w1 \<noteq> (Inl e, w')"
    using not_blamed assms(2) by blast
  with rest have "\<not> (ok \<and> (verified \<or> ac_allow_unverified A))"
    by (auto split: if_splits)
  then consider "\<not> ok" | "ok" "\<not> verified" "\<not> ac_allow_unverified A"
    by blast
  then show ?thesis
  proof cases
    case 1
    with rest show ?thesis unfolding w1 by (auto dest: refuse_tail)
  next
    case 2
    with rest show ?thesis unfolding w1
      by (auto simp: tryM_def bindM_def emit_def fail_def counted_def split: if_splits)
  qed
qed

lemma counted_before:
  "keeps counted E m \<Longrightarrow> m E w = (r, w1) \<Longrightarrow> counted E (hashed_once 1 w1) w' \<Longrightarrow>
     counted E (hashed_once 1 w) w'"
  by (drule keepsD, assumption) (auto simp: counted_def)

lemma login_blame:
  assumes run: "login A c email_in password E w = (Inl e, w')" and bl: "blames e"
  shows "\<exists>i. e = invalid_credentials i \<and> counted E (hashed_once 1 w) w'"
proof -
  let ?ip = "mt_ip (meta_from_context c)"
  let ?email = "normalise (unicode E) email_in"
  have gate: "raises (codes_in (- {CodeInvalidCredentials})) E (check_backoff A ?email ?ip)"
    by (rule codes.raises_check_backoff) simp
  obtain prior w1 where b: "check_backoff A ?email ?ip E w = (Inr prior, w1)"
    and rest: "bindM (query_one (login_select_sql (unicode E) ?email)) (\<lambda>r. case r of
       Inl e \<Rightarrow> if is_no_rows e then login_nobody A ?email password ?ip else fail e
     | Inr (user, stored, verified) \<Rightarrow>
         if stored = [] then login_nobody A ?email password ?ip
         else login_known A c ?email password prior user stored verified) E w1 = (Inl e, w')"
    using run [unfolded login_def with_env_def Let_def] bl gate by (rule blame_tryM)
  from rest obtain r w2 where q: "query_one (login_select_sql (unicode E) ?email) E w1 = (r, w2)"
    and cont: "(case r of
       Inl e \<Rightarrow> if is_no_rows e then login_nobody A ?email password ?ip else fail e
     | Inr (user, stored, verified) \<Rightarrow>
         if stored = [] then login_nobody A ?email password ?ip
         else login_known A c ?email password prior user stored verified) E w2 = (Inl e, w')"
    by (rule bindM_run)
  have sel: "\<not> blames x" if "query_one (login_select_sql (unicode E) ?email) E w1 = (Inl x, w2)" for x
    using codes.raises_query_one [OF driver_authn(1)] that by (rule not_blamed)
  have "(login_nobody A ?email password ?ip :: principal prog) E w2 = (Inl e, w')
      \<or> (\<exists>user stored verified. login_known A c ?email password prior user stored verified E w2 = (Inl e, w'))"
    using cont q sel bl by (fastforce simp: fail_def split: sum.splits if_splits)
  then have "\<exists>i. e = invalid_credentials i \<and> counted E (hashed_once 1 w2) w'"
    using login_nobody_blame [OF _ bl] login_known_blame [OF _ bl] by blast
  moreover have "keeps counted E (check_backoff A ?email ?ip)"
    and "keeps counted E (query_one (login_select_sql (unicode E) ?email))"
    by (intro counting.keeps_rules guar)+
  ultimately show ?thesis
    using counted_before b q by metis
qed

section \<open>The sample accounts\<close>

definition sample_accounts :: accounts where
  "sample_accounts = \<lparr>ac_hasher = (sample_hasher 0)\<lparr>h_dummy := ''$2none''\<rparr>, ac_sessions = sample_cfg,
     ac_base_url = ''https://x.io'', ac_cookie = DefaultCookieName, ac_secret_shape = validate_password,
     ac_allow_unverified = False, ac_audit = True\<rparr>"

lemma sample_accounts_simps [simp]:
  "ac_sessions sample_accounts = sample_cfg" "ac_secret_shape sample_accounts = validate_password"
  "ac_audit sample_accounts" "\<not> ac_allow_unverified sample_accounts"
  "h_limit (ac_hasher sample_accounts) = 4" "h_dummy (ac_hasher sample_accounts) = ''$2none''"
  "h_params (ac_hasher sample_accounts) = h_params (sample_hasher 0)"
  by (simp_all add: sample_accounts_def)

lemma sample_normalised [simp]: "normalise U ''a@x.io'' = ''a@x.io''" "normalise U ''b@x.io'' = ''b@x.io''"
  by (simp_all add: normalise_def to_lower_def trim_space_def trim_left.simps trim_right.simps
      space_len_def space_suffix_def is_ascii_def ascii_char_def lower_char_def ascii_space_def)

lemma sample_live [simp]:
  "live_email U ''a@x.io'' sample_user" "\<not> live_email U ''b@x.io'' sample_user"
  by (simp_all add: live_email_def email_key_def)

section \<open>Properties of login\<close>

lemma sample_login_wrong:
  "\<exists>w'. login sample_accounts background ''a@x.io'' ''guess'' sample_env (world_of sample_db)
     = (Inl (invalid_credentials None), w')"
  by (simp add: login_def login_known_def check_backoff_def with_env_def tryM_def bindM_def exec_def
      query_one_def attempts_sql_def login_select_sql_def lift_def ret_def fail_def coalesce_text_def
      verify_def within_bound_eq busy_def verify_stored_def count_hash_def record_failure_def ignoring_def log_printf_def
      record_user_sql_def at_max_def emit_def meta_from_context_def background_def no_meta_def Let_def)

text \<open>C3 A successful login is a proof of the password: it returns the principal of a live account
  with that address whose stored hash matches the password and whose address is verified (or
  need not be), and the one cookie it queues carries a token that resolves to that principal,
  from the moment Login returns until the idle window that began with it ends.\<close>

theorem login_sound:
  assumes "login A c email password E w = (Inr p, w')" and "wf_db (unicode E) (db w)"
    and "mono (db_clock E)" and "0 < ss_idle (ac_sessions A)"
    and "ss_idle (ac_sessions A) \<le> ss_absolute (ac_sessions A)"
  shows "\<exists>u stored token. u \<in> set (users (db w)) \<and> live_email (unicode E) (normalise (unicode E) email) u
    \<and> u_hash u = Some stored \<and> matches E password stored \<and> (u_verified u \<or> ac_allow_unverified A)
    \<and> p_user p = u_id u \<and> jar w' = jar w @ [session_cookie (ac_cookie A) token]
    \<and> (\<forall>now. db_clock E (step w') \<le> now \<and> now < db_clock E (step w) + ss_idle (ac_sessions A)
          \<longrightarrow> resolve now (db w') token = Some p)"
proof -
  obtain u stored w1 where u: "u \<in> set (users (db w))" "live_email (unicode E) (normalise (unicode E) email) u"
    "u_hash u = Some stored" "matches E password stored" "u_verified u \<or> ac_allow_unverified A"
    and calm: "settled E w w1" and start: "start_session A c (u_id u) E w1 = (Inr p, w')"
    using assms(1) by (rule login_Inr)
  have wf: "wf_db (unicode E) (db w1)" and j: "jar w1 = jar w" and t: "db_clock E (step w) \<le> db_clock E (step w1)"
    using calm assms(2,3) by (simp_all add: settled_def)
  obtain token where jar: "jar w' = jar w1 @ [session_cookie (ac_cookie A) token]" and p: "p_user p = u_id u"
    using start_session_Inr [OF start wf assms(3,4)] by blast
  have "resolve now (db w') token = Some p"
    if "db_clock E (step w') \<le> now" "now < db_clock E (step w) + ss_idle (ac_sessions A)" for now
    using start_session_lasts [OF start wf assms(3,5) that(1)] that(2) t jar by (auto simp: session_cookie_def)
  with u j jar p show ?thesis by auto
qed

lemma sample_login_run:
  "\<exists>p w'. login sample_accounts (background\<lparr>cx_jar := True\<rparr>) ''a@x.io'' ''pass'' sample_env (world_of sample_db)
     = (Inr p, w') \<and> step w' < 100"
  by (simp add: login_def login_known_def check_backoff_def with_env_def tryM_def bindM_def exec_def
      query_one_def attempts_sql_def login_select_sql_def lift_def ret_def fail_def coalesce_text_def
      verify_def within_bound_eq busy_def verify_stored_def count_hash_def record_failure_def ignoring_def log_printf_def
      rehash_stored_def hash_password_def hash_bytes_def rand_read_def id_key_def sample_argon2_def
      update_password_sql_def update_where_def reset_backoff_def reset_attempts_sql_def
      backoff_consts start_session_def from_ctx_def issue_def new_token_def issue_sql_def has_user_def
      lookup_def lookup_sql_def lookup_rows_def live_session_def principal_of_def set_cookie_def add_cookie_def
      live_user_def seconds_def
      at_max_def emit_def meta_from_context_def background_def no_meta_def Let_def
      del: upt_Suc upt_rec_numeral sample_env_simps(7))

theorem login_sound_witness:
  "\<exists>p w' token. login sample_accounts (background\<lparr>cx_jar := True\<rparr>) ''a@x.io'' ''pass'' sample_env
       (world_of sample_db) = (Inr p, w')
     \<and> p_user p = ''u1'' \<and> jar w' = [session_cookie DefaultCookieName token]
     \<and> resolve (1000 + int (step w')) (db w') token = Some p"
proof -
  obtain p w' where run: "login sample_accounts (background\<lparr>cx_jar := True\<rparr>) ''a@x.io'' ''pass'' sample_env
      (world_of sample_db) = (Inr p, w')" and small: "step w' < 100"
    using sample_login_run by blast
  have "wf_db (unicode sample_env) (db (world_of sample_db))"
    by (simp add: sample_wf)
  from login_sound [OF run this sample_clock_mono] run small show ?thesis
    by (auto simp: sample_accounts_def)
qed

text \<open>C24 An open backoff window stops a login before anything is spent: while a failure counter of
  the address or of the caller's IP is inside its delay, login computes no hash, changes no
  table and queues no cookie, and unless the counter query itself fails it answers RATE_LIMITED.\<close>

theorem open_window_costs_nothing:
  assumes "a \<in> set (attempts (db w))"
    and "attempt_hit (normalise (unicode E) email) (mt_ip (meta_from_context c)) a"
    and "db_clock E (step w) - a_last a < delay_for (a_scope a) (a_failures a)"
    and "0 < delay_for (a_scope a) (a_failures a)"
  shows "\<exists>e w'. login A c email password E w = (Inl e, w') \<and> hash_runs w' = hash_runs w \<and> db w' = db w
    \<and> jar w' = jar w \<and> (db_fails E (step w) \<or> e = rate_limited)"
proof -
  let ?rows = "map (\<lambda>a. (a_scope a, a_failures a, db_clock E (step w) - a_last a))
    (filter (attempt_hit (normalise (unicode E) email) (mt_ip (meta_from_context c))) (attempts (db w)))"
  have "snd (scan_counters 0 ?rows) \<noteq> None"
    unfolding scan_counters_open using assms by force
  then obtain seen counter failures where "scan_counters 0 ?rows = (seen, Some (counter, failures))"
    by (cases "scan_counters 0 ?rows") auto
  then show ?thesis
    by (simp add: login_def with_env_def Let_def check_backoff_def tryM_def bindM_def exec_def
        attempts_sql_def fail_def emit_def)
qed

theorem open_window_costs_nothing_witness:
  "\<exists>e w'. login sample_accounts background ''a@x.io'' ''pass'' sample_env
      (world_of (sample_db\<lparr>attempts := [\<lparr>a_scope = ''user'', a_key = ''a@x.io'', a_failures = 3, a_last = 0\<rparr>]\<rparr>))
     = (Inl e, w') \<and> hash_runs w' = 0 \<and> e = rate_limited"
proof -
  let ?a = "\<lparr>a_scope = ''user'', a_key = ''a@x.io'', a_failures = 3, a_last = 0\<rparr>"
  let ?w = "world_of (sample_db\<lparr>attempts := [?a]\<rparr>)"
  have d: "delay_for ''user'' 3 = 2000000"
    by (simp add: delay_for_def backoff_consts)
  from open_window_costs_nothing [of ?a ?w sample_env "''a@x.io''" background sample_accounts "''pass''"]
  show ?thesis
    by (simp add: d attempt_hit_def) blast
qed

text \<open>A wrong password's event names the account.\<close>

lemma login_fail_names_account:
  assumes "verify (ac_hasher A) password stored E w = (Inr (False, b), w1)" and "ac_audit A"
  shows "\<exists>w'. login_known A c email password prior user stored verified E w = (Inl (invalid_credentials None), w')
    \<and> ev_kind (last (trail w')) = ''login.fail'' \<and> ev_user (last (trail w')) = user"
proof -
  obtain w2 where "record_failure email (mt_ip (meta_from_context c)) E w1 = (Inr (), w2)"
    using counters_return(1) by blast
  with assms show ?thesis
    by (simp add: login_known_def Let_def tryM_def bindM_def fail_def emit_def login_fail_event_def)
qed

section \<open>Logout and password change\<close>

lemma notify_run: "notify A to msg E w = (r, w') \<Longrightarrow> r = Inr () \<and> db w' = db w \<and> jar w' = jar w"
  by (auto simp: notify_def bindM_def send_mail_def emit_def ret_def split: if_splits)

text \<open>Logging out ends the session: the token the caller came with stands for nobody from then
  on, under any schedule of statements, and the browser is told to drop the cookie.\<close>

theorem logout_ends_session:
  assumes "logout A c E w = (Inr (), w')" and "from_ctx c = Some p" and "wf_db U (db w)"
    and "s \<in> set (sessions (db w))" and "s_id s = p_session p" and "s_token s = hash_token token"
    and "schedule U t (db w') xs t' d'"
  shows "resolve t' d' token = None \<and> (\<exists>j. jar w' = j @ [clear_cookie (ac_cookie A)])"
proof -
  obtain w1 where r: "revoke (ac_sessions A) (p_session p) E w = (Inr (), w1)"
    and w': "w' = w1\<lparr>jar := jar w1 @ [clear_cookie (ac_cookie A)]\<rparr>"
    using assms(1,2) unfolding logout_def by (auto simp: tryM_Inr_iff dest: set_cookie_Inr)
  have "resolve t' d' token = None"
    by (rule revoked_rows_final [OF revoke_Inr [OF r] assms(3,4) _ assms(6)])
      (use assms(5,7) w' in simp_all)
  then show ?thesis by (simp add: w')
qed

definition session_ctx :: ctx where
  "session_ctx = background\<lparr>cx_principal := Some \<lparr>p_user = ''u1'', p_session = ''s1'', p_roles = [],
     p_auth_at = 0, p_mfa_at = None, p_email = ''a@x.io'', p_verified = True\<rparr>, cx_jar := True\<rparr>"

lemma session_ctx_principal [simp]:
  "from_ctx session_ctx = Some \<lparr>p_user = ''u1'', p_session = ''s1'', p_roles = [],
     p_auth_at = 0, p_mfa_at = None, p_email = ''a@x.io'', p_verified = True\<rparr>" "cx_jar session_ctx"
  by (simp_all add: session_ctx_def from_ctx_def background_def)

theorem logout_ends_session_witness:
  "\<exists>w'. logout sample_accounts session_ctx sample_env (world_of session_db) = (Inr (), w')
     \<and> resolve 9 (db w') ''tok'' = None"
proof -
  obtain w' where run: "logout sample_accounts session_ctx sample_env (world_of session_db) = (Inr (), w')"
    by (simp add: logout_def revoke_def tryM_def bindM_def exec_def revoke_sql_def emit_def set_cookie_def
        add_cookie_def fail_def)
  have idle: "schedule sample_tables 0 (db w') [] 9 (db w')"
    by (rule schedule.wait) simp
  show ?thesis
    using logout_ends_session [OF run session_ctx_principal(1) session_world_wf, of sample_session "''tok''"
        sample_tables 0 "[]" 9 "db w'"] run idle by auto
qed

lemma hash_by_id_row:
  assumes "query_one (hash_by_id_sql i) E w = (Inr (stored, email), w')" and "stored \<noteq> []"
  shows "w' = tick w"
    and "\<exists>u \<in> set (users (db w)). u_id u = i \<and> live_user u \<and> u_hash u = Some stored \<and> u_email u = email"
proof -
  from assms(1) obtain u where "filter (\<lambda>u. u_id u = i \<and> live_user u) (users (db w)) = [u]"
    and row: "stored = coalesce_text (u_hash u)" "email = u_email u" and w': "w' = tick w"
    by (elim query_one_Inr) (auto simp: hash_by_id_sql_def tick_def)
  then have "u \<in> set (filter (\<lambda>u. u_id u = i \<and> live_user u) (users (db w)))"
    by simp
  with row assms(2)
  show "\<exists>u \<in> set (users (db w)). u_id u = i \<and> live_user u \<and> u_hash u = Some stored \<and> u_email u = email"
    by (auto simp: coalesce_text_def split: option.splits)
  from w' show "w' = tick w" .
qed

lemma swap_password_Inr:
  assumes "swap_password A c p stored email nxt E w = (Inr (), w')"
  obtains enc w1 n w2 token w3 where "hash_password (ac_hasher A) nxt E w = (Inr enc, w1)"
    and "exec (update_password_sql enc (p_user p) stored) E w1 = (Inr n, w2)" and "n \<noteq> 0"
    and "rotate (ac_sessions A) (p_session p) E w2 = (Inr token, w3)"
    and "db w' = db w3" and "jar w' = jar w3 @ [session_cookie (ac_cookie A) token]"
  using assms unfolding swap_password_def
  by (auto simp: tryM_Inr_iff split: if_splits dest!: set_cookie_Inr notify_run)

lemma change_password_Inr:
  assumes "change_password A c current nxt E w = (Inr (), w')"
  obtains p stored email b w2 where "from_ctx c = Some p" and "ac_secret_shape A nxt = None"
    and "query_one (hash_by_id_sql (p_user p)) E w = (Inr (stored, email), tick w)" and "stored \<noteq> []"
    and "verify (ac_hasher A) current stored E (tick w) = (Inr (True, b), w2)"
    and "swap_password A c p stored email nxt E w2 = (Inr (), w')"
proof -
  from assms obtain p where p: "from_ctx c = Some p" "ac_secret_shape A nxt = None"
    and run: "bindM (query_one (hash_by_id_sql (p_user p))) (\<lambda>r. case r of
       Inl e \<Rightarrow> fail (if is_no_rows e
                     then KalErr CodeUnauthenticated ''authentication required'' (Some e) else e)
     | Inr (stored, email) \<Rightarrow>
         if stored = [] then fail (invalid_credentials (Some (Text ''account has no password'')))
         else tryM (verify (ac_hasher A) current stored) (\<lambda>(ok, rehash).
           if \<not> ok then
             with_env (\<lambda>E. tryM (record_failure (to_lower (unicode E) email) (mt_ip (meta_from_context c)))
               (\<lambda>_. fail (invalid_credentials None)))
           else swap_password A c p stored email nxt)) E w = (Inr (), w')"
    by (auto simp: change_password_def check_secret_def require_def split: option.splits)
  from run obtain stored email w1 ok b w2 where q: "query_one (hash_by_id_sql (p_user p)) E w = (Inr (stored, email), w1)"
    and ne: "stored \<noteq> []" and v: "verify (ac_hasher A) current stored E w1 = (Inr (ok, b), w2)"
    and rest: "ok" "swap_password A c p stored email nxt E w2 = (Inr (), w')"
    by (elim bindM_run) (auto simp: with_env_def tryM_Inr_iff split: sum.splits if_splits)
  from q ne have "w1 = tick w" by (rule hash_by_id_row)
  with p q ne v rest show thesis
    by (intro that [of p stored email b w2]) auto
qed

text \<open>C14 A successful password change is authorised, exact and rotates: the current password matched
  the caller's stored hash and the new one passed the policy; exactly the caller's hash is
  replaced, by one the new password matches; the caller's session carries a new token, which is
  the one in the cookie.\<close>

theorem password_change_exact:
  assumes "change_password A c current nxt E w = (Inr (), w')"
    and "argon2_ok E" and "envelope (h_params (ac_hasher A))"
  shows "\<exists>p stored enc now token. from_ctx c = Some p \<and> ac_secret_shape A nxt = None
    \<and> (\<exists>u \<in> set (users (db w)). u_id u = p_user p \<and> live_user u \<and> u_hash u = Some stored)
    \<and> matches E current stored \<and> matches E nxt enc
    \<and> users (db w') = update_where (\<lambda>u. u_id u = p_user p \<and> u_hash u = Some stored)
          (\<lambda>u. u\<lparr>u_hash := Some enc, u_updated := now\<rparr>) (users (db w))
    \<and> jar w' = jar w @ [session_cookie (ac_cookie A) token]
    \<and> list_ex (\<lambda>s. s_id s = p_session p \<and> s_token s = hash_token token) (sessions (db w'))"
proof -
  obtain p stored email b w2 where p: "from_ctx c = Some p" "ac_secret_shape A nxt = None"
    and q: "query_one (hash_by_id_sql (p_user p)) E w = (Inr (stored, email), tick w)" "stored \<noteq> []"
    and v: "verify (ac_hasher A) current stored E (tick w) = (Inr (True, b), w2)"
    and swap: "swap_password A c p stored email nxt E w2 = (Inr (), w')"
    using assms(1) by (rule change_password_Inr)
  obtain enc w3 n w4 token w5 where h: "hash_password (ac_hasher A) nxt E w2 = (Inr enc, w3)"
    and upd: "exec (update_password_sql enc (p_user p) stored) E w3 = (Inr n, w4)"
    and rot: "rotate (ac_sessions A) (p_session p) E w4 = (Inr token, w5)"
    and w': "db w' = db w5" "jar w' = jar w5 @ [session_cookie (ac_cookie A) token]"
    using swap by (rule swap_password_Inr)
  note vm = verify_Inr [OF v] and hm = hash_password_matches [OF h assms(2,3)] and r = rotate_Inr [OF rot]
  have w4: "db w4 = (db w)\<lparr>users := update_where (\<lambda>u. u_id u = p_user p \<and> u_hash u = Some stored)
          (\<lambda>u. u\<lparr>u_hash := Some enc, u_updated := db_clock E (step w3)\<rparr>) (users (db w))\<rparr>"
    using upd vm(2) hm(2) by (auto elim!: exec_Inr simp: update_password_sql_def)
  have j: "jar w5 = jar w"
    using keepsD [OF jars_session(3) rot] keepsD [OF jars_effects(1) upd] vm(2) hm(2)
    by (simp add: same_jar_def)
  have "list_ex (\<lambda>s. s_id s = p_session p \<and> s_token s = hash_token token) (sessions (db w5))"
    unfolding r(3) by (simp, rule list_ex_update_where [OF r(1)]) simp
  then show ?thesis
    using p hash_by_id_row(2) [OF q] vm(1) hm(1) w4 r(3) w' j
    by (intro exI [of _ p] exI [of _ stored] exI [of _ enc] exI [of _ "db_clock E (step w3)"] exI [of _ token])
      auto
qed

lemma sample_secret: "validate_password ''a new secret'' = None"
  by (simp add: validate_password_def rune_count_def runes.simps rune_width_def Let_def in_range_def
      MinPasswordLen_def MaxPasswordLen_def)

lemma sample_change_run:
  "\<exists>w'. change_password sample_accounts session_ctx ''pass'' ''a new secret'' sample_env (world_of session_db)
     = (Inr (), w')"
  by (simp add: change_password_def swap_password_def require_def check_secret_def sample_secret
      with_env_def tryM_def bindM_def exec_def
      query_one_def hash_by_id_sql_def lift_def ret_def fail_def coalesce_text_def
      verify_def within_bound_eq busy_def verify_stored_def count_hash_def
      hash_password_def hash_bytes_def rand_read_def id_key_def sample_argon2_def
      update_password_sql_def update_where_def rotate_def new_token_def rotate_sql_def
      live_session_def set_cookie_def add_cookie_def notify_def send_mail_def
      live_user_def seconds_def emit_def Let_def
      del: upt_Suc upt_rec_numeral sample_env_simps(7))

theorem password_change_exact_witness:
  "\<exists>w' enc now. change_password sample_accounts session_ctx ''pass'' ''a new secret'' sample_env
       (world_of session_db) = (Inr (), w')
     \<and> users (db w') = [sample_user\<lparr>u_hash := Some enc, u_updated := now\<rparr>] \<and> matches sample_env ''a new secret'' enc"
proof -
  obtain w' where run: "change_password sample_accounts session_ctx ''pass'' ''a new secret'' sample_env
      (world_of session_db) = (Inr (), w')"
    using sample_change_run by blast
  have "envelope (h_params (ac_hasher sample_accounts))"
    by (simp add: envelope_def sample_hasher_def params_defaults_def)
  from password_change_exact [OF run sample_argon2_ok this] run show ?thesis
    by (auto simp: update_where_def)
qed

end
