(* ===== verification/Vault_Facts.thy ===== *)
theory Vault_Facts
  imports Vaults Account_Facts Histories
begin

text \<open>
  What the vaults promise about writes: one that was based on an old version never lands, a
  vault and its salt outlive everything but its owner's discard, and a derived secret has one
  spelling. What is read back is in \<open>Vault_Rounds\<close>.
\<close>

section \<open>Derived secrets\<close>

lemma validate_auth_secret_run:
  "validate_auth_secret s = None \<longleftrightarrow> (\<exists>rest raw. s = authSecretPrefix @ rest \<and> length rest = authSecretChars
     \<and> b64_decode url_alphabet True rest = Some raw \<and> length raw = authSecretBytes)"
  by (auto simp: validate_auth_secret_def cut_prefix_Some [symmetric] split: option.splits if_splits)

lemma decoded_whole:
  assumes "b64_decode A True s = Some raw" and "length raw = 32" and "length s = 43"
  shows "\<forall>c \<in> set s. \<not> skipped c"
proof -
  obtain vs where "digits_of A (filter (\<lambda>c. \<not> skipped c) s) = Some vs" and "dec_groups True vs = Some raw"
    using assms(1) by (auto simp: b64_decode_def bind_eq_Some_conv)
  then have "length (filter (\<lambda>c. \<not> skipped c) s) = 43"
    using length_digits_of length_dec_groups [of True vs raw] assms(2) by fastforce
  then have "filter (\<lambda>c. \<not> skipped c) s = s"
    using assms(3) by (metis length_filter_less nat_neq_iff filter_id_conv)
  then show ?thesis by (simp add: filter_id_conv)
qed

text \<open>A derived secret has exactly one spelling: the shape check accepts a string precisely when
  it is the prefix followed by the unpadded base64url text of some 32 bytes.\<close>

theorem auth_secret_canonical:
  "validate_auth_secret s = None \<longleftrightarrow>
     (\<exists>raw. length raw = 32 \<and> s = ''kal1.'' @ b64_encode url_alphabet raw)"
proof
  assume "validate_auth_secret s = None"
  then obtain rest raw where r: "s = ''kal1.'' @ rest" "length rest = 43"
    "b64_decode url_alphabet True rest = Some raw" "length raw = 32"
    by (auto simp: validate_auth_secret_run authSecretPrefix_def authSecretChars_def authSecretBytes_def)
  then have "rest = b64_encode url_alphabet raw"
    by (intro b64_strict_canonical decoded_whole) auto
  with r show "\<exists>raw. length raw = 32 \<and> s = ''kal1.'' @ b64_encode url_alphabet raw" by blast
next
  assume "\<exists>raw. length raw = 32 \<and> s = ''kal1.'' @ b64_encode url_alphabet raw"
  then obtain raw where "length raw = 32" "s = ''kal1.'' @ b64_encode url_alphabet raw" by blast
  then show "validate_auth_secret s = None"
    unfolding validate_auth_secret_run
    by (intro exI [of _ "b64_encode url_alphabet raw"] exI [of _ raw])
      (simp add: authSecretPrefix_def authSecretChars_def authSecretBytes_def length_b64_encode b64_roundtrip)
qed

section \<open>A sample\<close>

definition sample_vaults :: vaults_cfg where
  "sample_vaults = \<lparr>vc_pepper = replicate 32 7, vc_default = with_defaults (basic_params 65536 3) (basic_params 65536 3),
     vc_floor = with_defaults (basic_params 19456 2) (basic_params 19456 2), vc_max_blob = 8192,
     vc_allow_no_recovery = False, vc_prefix = []\<rparr>"

definition sample_vault_row :: vault_row where
  "sample_vault_row = \<lparr>v_user = ''u1'', v_kdf = KDFArgon2id, v_salt = vault_salt sample_vaults ''a@x.io'',
     v_memory = 65536, v_iterations = 3, v_parallelism = 1, v_wrapped = Some [1], v_recovery = Some [2],
     v_wrapped_for = None, v_version = 1, v_updated = 0\<rparr>"

definition vault_db :: database where
  "vault_db = session_db\<lparr>vaults := [sample_vault_row]\<rparr>"

lemma vault_db_simps [simp]:
  "users vault_db = [sample_user]" "vaults vault_db = [sample_vault_row]" "v_user sample_vault_row = ''u1''"
  "v_version sample_vault_row = 1" "v_salt sample_vault_row = vault_salt sample_vaults ''a@x.io''"
  by (simp_all add: vault_db_def sample_vault_row_def)

lemma vault_wf: "wf_db U vault_db"
  using session_wf [of U]
  by (simp add: wf_db_def wf_defs has_user_def vault_db_def sample_vault_row_def)

section \<open>Writing\<close>

text \<open>What a put that succeeds found and wrote.\<close>

lemma put_vault_Inr:
  assumes "put_vault V c v E w = (Inr (), w')"
  obtains p u new where "from_ctx c = Some p" and "check_vault V v = None"
    and "u \<in> set (users (db w))" and "u_id u = p_user p" and "live_user u"
    and "v_user new = p_user p" and "v_salt new = vault_salt V (to_lower (unicode E) (trim_space (p_email p)))"
    and "v_wrapped new = Some (the (vt_wrapped v))" and "v_recovery new = vt_recovery v"
    and "v_wrapped_for new = Some (fingerprint u)" and "v_version new = 1"
    and "kdf_of new = (let q = with_defaults (vt_params v) (vc_default V) in
           (vp_kdf q, v_salt new, uint (vp_memory q), uint (vp_iterations q), 1))"
    and "case find (\<lambda>x. v_user x = p_user p) (vaults (db w)) of
           None \<Rightarrow> db w' = (db w)\<lparr>vaults := vaults (db w) @ [new]\<rparr>
         | Some old \<Rightarrow> v_version old = vt_version v \<and> v_version old < int4_max
             \<and> db w' = (db w)\<lparr>vaults := update_where (\<lambda>x. v_user x = p_user p) (overwrite_vault new) (vaults (db w))\<rparr>"
proof -
  let ?prm = "with_defaults (vt_params v) (vc_default V)"
  from assms obtain p where p: "from_ctx c = Some p" "check_vault V v = None"
    by (auto simp: put_vault_def with_env_def require_def tryM_Inr_iff split: option.splits)
  let ?salt = "vault_salt V (to_lower (unicode E) (trim_space (p_email p)))"
  from assms p obtain ver where q: "query_one (put_vault_sql (vp_kdf ?prm) ?salt (uint (vp_memory ?prm))
      (uint (vp_iterations ?prm)) (the (vt_wrapped v)) (vt_recovery v) (p_user p) (vt_version v)) E w = (Inr ver, w')"
    by (auto simp: put_vault_def with_env_def require_def Let_def ret_def elim!: bindM_run split: sum.splits)
  from q obtain d where st: "put_vault_sql (vp_kdf ?prm) ?salt (uint (vp_memory ?prm))
      (uint (vp_iterations ?prm)) (the (vt_wrapped v)) (vt_recovery v) (p_user p) (vt_version v)
      (db_clock E (step w)) (new_uuid E (step w)) (db w) = Inr ([ver], d)" and w': "w' = (tick w)\<lparr>db := d\<rparr>"
    by (rule query_one_Inr)
  from st obtain u where u: "find (\<lambda>u. u_id u = p_user p \<and> live_user u) (users (db w)) = Some u"
    by (auto simp: put_vault_sql_def split: if_splits option.splits)
  let ?new = "put_row (vp_kdf ?prm) ?salt (uint (vp_memory ?prm)) (uint (vp_iterations ?prm))
    (the (vt_wrapped v)) (vt_recovery v) u (db_clock E (step w))"
  show thesis
    by (rule that [of p u ?new])
      (use p st w' u find_SomeD [OF u] in \<open>auto simp: put_row_def put_vault_sql_def kdf_of_def Let_def
        split: if_splits option.splits\<close>)
qed

lemma overwrite_simps [simp]:
  "v_user (overwrite_vault new old) = v_user old" "v_salt (overwrite_vault new old) = v_salt old"
  "v_version (overwrite_vault new old) = v_version old + 1"
  by (simp_all add: overwrite_vault_def)

text \<open>The first write of an account goes through whatever version it claims to replace.\<close>

lemma insert_ignores_version:
  assumes "find (\<lambda>v. v_user v = user) (vaults d) = None"
  shows "put_vault_sql kdf salt mem iter wrapped recovery user expected now uid d
    = put_vault_sql kdf salt mem iter wrapped recovery user 0 now uid d"
  unfolding put_vault_sql_def assms by (simp add: Let_def split: option.split)

definition sample_blob :: vault where
  "sample_blob = \<lparr>vt_wrapped = Some [1, 2, 3], vt_recovery = Some [4], vt_params = basic_params 65536 3,
     vt_version = 1, vt_stale = False\<rparr>"

lemma sample_vaults_simps [simp]:
  "vc_max_blob sample_vaults = 8192" "\<not> vc_allow_no_recovery sample_vaults"
  "vp_memory (vc_floor sample_vaults) = 19456" "vp_iterations (vc_floor sample_vaults) = 2"
  "vt_version sample_blob = 1"
  by (simp_all add: sample_vaults_def with_defaults_def basic_params_def sample_blob_def)

lemma sample_blob_ok: "check_vault sample_vaults sample_blob = None"
  by (simp add: check_vault_def sample_blob_def blob_len_def Let_def)
    (simp add: with_defaults_def basic_params_def KDFArgon2id_def)

lemma sample_put_run:
  assumes "users d = [sample_user]" and "vaults d = [] \<or> vaults d = [sample_vault_row]"
  shows "\<exists>w'. put_vault sample_vaults session_ctx sample_blob sample_env (world_of d) = (Inr (), w')"
proof -
  have small: "uint (vp_memory (with_defaults (vt_params sample_blob) (vc_default sample_vaults))) = 65536"
    "uint (vp_iterations (with_defaults (vt_params sample_blob) (vc_default sample_vaults))) = 3"
    by (simp_all add: with_defaults_def sample_blob_def basic_params_def)
  from assms show ?thesis
    by (auto simp: put_vault_def with_env_def require_def Let_def sample_blob_ok bindM_def tryM_def query_one_def
        exec_def put_vault_sql_def small int4_def int4_max_def lift_def ret_def)
qed

text \<open>C33 No update is lost: of two writes that start from the same version of an existing vault at
  most one lands. After one has, and whatever else happens short of discarding the vault, the other
  fails and leaves the tables alone.\<close>

theorem stale_put_loses:
  assumes "put_vault V c v E w = (Inr (), w1)" and "from_ctx c = Some p" and "wf_db (unicode E) (db w)"
    and "old \<in> set (vaults (db w))" and "v_user old = p_user p"
    and "schedule U t (db w1) xs t' (db w2)" and "list_all (\<lambda>x. x \<noteq> Delete_vault (p_user p)) xs"
    and "from_ctx c2 = Some p2" and "p_user p2 = p_user p" and "vt_version v2 = vt_version v"
    and "wf_db (unicode E2) (db w2)"
  shows "\<exists>e w3. put_vault V2 c2 v2 E2 w2 = (Inl e, w3) \<and> db w3 = db w2"
proof -
  let ?of = "\<lambda>x. v_user x = p_user p"
  obtain new where upd: "case find ?of (vaults (db w)) of
           None \<Rightarrow> db w1 = (db w)\<lparr>vaults := vaults (db w) @ [new]\<rparr>
         | Some old \<Rightarrow> v_version old = vt_version v \<and> v_version old < int4_max
             \<and> db w1 = (db w)\<lparr>vaults := update_where ?of (overwrite_vault new) (vaults (db w))\<rparr>"
    using assms(1,2) by (elim put_vault_Inr) auto
  have "find ?of (vaults (db w)) = Some old"
    using find_key_Some [of v_user "vaults (db w)" old] assms(3-5) by (simp add: wf_db_def wf_vaults_def)
  with upd have ver: "v_version old = vt_version v"
    and w1: "db w1 = (db w)\<lparr>vaults := update_where ?of (overwrite_vault new) (vaults (db w))\<rparr>"
    by auto
  have "overwrite_vault new old \<in> set (vaults (db w1))"
    using assms(4,5) by (force simp: w1 set_update_where)
  from schedule_vault [OF assms(6) this] assms(5,7)
  obtain now where now: "now \<in> set (vaults (db w2))" "v_user now = p_user p" "vt_version v < v_version now"
    by (auto simp: vault_later_def ver)
  have "find ?of (vaults (db w2)) = Some now"
    using find_key_Some [of v_user "vaults (db w2)" now] assms(11) now by (simp add: wf_db_def wf_vaults_def)
  with now assms(8-10) show ?thesis
    by (auto simp: put_vault_def with_env_def require_def Let_def tryM_def bindM_def query_one_def exec_def
        apply_stmt_def put_vault_sql_def fail_def lift_def split: option.splits)
qed

theorem stale_put_loses_witness:
  "\<exists>w1 e w3. put_vault sample_vaults session_ctx sample_blob sample_env (world_of vault_db) = (Inr (), w1)
     \<and> put_vault sample_vaults session_ctx sample_blob sample_env w1 = (Inl e, w3)"
proof -
  obtain w1 where run: "put_vault sample_vaults session_ctx sample_blob sample_env (world_of vault_db) = (Inr (), w1)"
    using sample_put_run [of vault_db] by auto
  have idle: "schedule sample_tables 0 (db w1) [] 0 (db w1)"
    by (rule schedule.wait) simp
  have wf: "wf_db (unicode sample_env) (db (world_of vault_db))"
    by (simp add: vault_wf)
  have wf1: "wf_db (unicode sample_env) (db w1)"
    by (rule via_wf [where ok = "\<lambda>_. True" and m = "put_vault sample_vaults session_ctx sample_blob"])
      (use run wf sample_clock_mono in \<open>auto intro: guar\<close>)
  from stale_put_loses [OF run session_ctx_principal(1) wf, where old = sample_vault_row, OF _ _ idle _
      session_ctx_principal(1) _ _ wf1, of sample_blob sample_vaults] run
  show ?thesis by auto
qed

text \<open>A vault outlives everything but its owner's discard: under any schedule without that, the
  row is there, its salt has not moved, its version has not gone down, and while the version is
  the same so is every byte of the row.\<close>

theorem vault_survives:
  assumes "schedule U t d xs t' d'" and "v \<in> set (vaults d)"
    and "list_all (\<lambda>x. x \<noteq> Delete_vault (v_user v)) xs"
  shows "\<exists>v' \<in> set (vaults d'). v_user v' = v_user v \<and> v_salt v' = v_salt v \<and> v_version v \<le> v_version v'
    \<and> (v_version v' = v_version v \<longrightarrow> v' = v)"
  using schedule_vault [OF assms] by (simp add: vault_later_def)

theorem vault_survives_witness:
  "\<exists>d'. apply_op sample_tables (Set_password ''new'' ''u1'') 5 [] vault_db = Some d'
     \<and> (\<exists>v' \<in> set (vaults d'). v_salt v' = vault_salt sample_vaults ''a@x.io'')"
proof -
  obtain d' where x: "apply_op sample_tables (Set_password ''new'' ''u1'') 5 [] vault_db = Some d'"
    by (simp add: set_password_sql_def)
  have "schedule sample_tables 0 vault_db [Set_password ''new'' ''u1''] 5 d'"
    by (rule schedule.act [OF _ x]) (auto intro: schedule.wait)
  from vault_survives [OF this, of sample_vault_row] x show ?thesis by auto
qed

end
