(* ===== verification/Kal_Facts.thy ===== *)
theory Kal_Facts
  imports Kal Account_Facts Vault_Facts
begin

text \<open>
  Properties of the assembled library: what New guarantees about the parts it wires together,
  and requests followed through the middleware chain, the directive and the credential flows.
\<close>

section \<open>What New builds\<close>

lemma config_fault_None:
  "config_fault cfg = None \<longleftrightarrow> cf_db cfg \<and> validate_base_url (cf_base_url cfg) = None \<and> cf_mailer cfg
     \<and> (cf_hasher cfg = None \<or> cf_argon2 cfg = zero_params \<and> cf_max_hashes cfg = 0)"
  by (auto simp: config_fault_def split: option.splits)

lemma new_sessions_Inr:
  "new_sessions append_ident opts = Inr S \<Longrightarrow> ss_idle S \<le> ss_absolute S
     \<and> schema_prefix append_ident (so_schema opts) = Some (ss_prefix S)
     \<and> ss_idle S = (if so_idle opts = 0 then DefaultIdle else so_idle opts)
     \<and> ss_absolute S = (if so_absolute opts = 0 then DefaultAbsolute else so_absolute opts)
     \<and> ss_audit S = so_audit opts"
  by (auto simp: new_sessions_def Let_def split: if_splits option.splits)

lemma new_vaults_Inr:
  "new_vaults append_ident opts = Inr V \<Longrightarrow> minPepperLen \<le> length (vc_pepper V) \<and> vc_pepper V = vo_pepper opts
     \<and> schema_prefix append_ident (vo_schema opts) = Some (vc_prefix V)"
  by (auto simp: new_vaults_def split: if_splits option.splits)

lemma config_vaults_Inr:
  assumes "config_vaults append_ident cfg = Inr vs"
  shows "(vs = None \<longleftrightarrow> cf_e2ee cfg = None)
    \<and> (\<forall>V. vs = Some V \<longrightarrow> minPepperLen \<le> length (vc_pepper V)
         \<and> map_option vo_pepper (cf_e2ee cfg) = Some (vc_pepper V)
         \<and> schema_prefix append_ident (cf_schema cfg) = Some (vc_prefix V))"
  using assms
  by (auto simp: config_vaults_def split: option.splits sum.splits dest!: new_vaults_Inr)

lemma config_accounts_Inr:
  assumes "config_accounts append_ident cfg H S = Inr (A, prefix)"
  shows "schema_prefix append_ident (cf_schema cfg) = Some prefix \<and> ac_hasher A = H \<and> ac_sessions A = S
    \<and> ac_cookie A = (if cf_cookie cfg = [] then DefaultCookieName else cf_cookie cfg)
    \<and> ac_secret_shape A = (if cf_e2ee cfg = None then validate_password else validate_auth_secret)
    \<and> ac_allow_unverified A = cf_allow_unverified cfg \<and> ac_audit A = cf_audit cfg
    \<and> ac_base_url A = trim_right_char CHR ''/'' (cf_base_url cfg)"
  using assms by (auto simp: config_accounts_def new_accounts_Inr split: option.splits)

lemma config_jwt_Inr:
  "config_jwt cfg = Inr J \<Longrightarrow> (J = None \<longleftrightarrow> cf_jwt_issuer cfg = []) \<and> (cf_jwt_issuer cfg = [] \<longleftrightarrow> cf_jwt_keys cfg = [])
     \<and> (\<forall>j. J = Some j \<longrightarrow> jw_issuer j = cf_jwt_issuer cfg \<and> jw_keys j = cf_jwt_keys cfg
          \<and> jw_kids j = map (\<lambda>k. thumbprint (public_of k)) (cf_jwt_keys cfg))"
  by (auto simp: config_jwt_def new_jwt_Inr split: if_splits sum.splits)

lemma kal_new_Inr:
  assumes "kal_new append_ident gomaxprocs cfg E w = (Inr a, w')"
  obtains H where "config_fault cfg = None"
    and "config_hasher gomaxprocs cfg E w = (Inr H, w')" and "au_hasher a = H"
    and "config_sessions append_ident cfg = Inr (au_sessions a)"
    and "config_vaults append_ident cfg = Inr (au_vaults a)"
    and "config_accounts append_ident cfg H (au_sessions a) = Inr (au_accounts a, au_accounts_prefix a)"
    and "new_roles append_ident (cf_schema cfg) = Inr (au_roles a)"
    and "config_jwt cfg = Inr (au_jwt a)" and "au_cfg a = cfg"
    and "au_mw a = \<lparr>mo_cookie_name = cf_cookie cfg, mo_client_ip = cf_client_ip cfg\<rparr>"
  using assms unfolding kal_new_def
  by (auto simp: tryM_Inr_iff ret_def split: option.splits)

text \<open>C27 New wires one consistent library: all four services qualify their tables with the
  configured schema; Login sets the cookie the middleware reads; the credential flows hash with the
  hasher and issue sessions under the limits that are exposed; the idle timeout is within the
  absolute one; with client-side encryption on, and only then, there is a vault service with
  the configured pepper, of 32 bytes or more, and the flows take derived secrets instead of
  passwords; there is a token minter exactly when an issuer is configured, and it then mints for
  that issuer and has every configured key, in the order configured and under its own thumbprint;
  a given hasher is used as it is; the timeouts are those given, or 12 hours and 14 days; and the
  audit hook, the exemption from verified addresses and the base URL are those of the configuration.\<close>

theorem new_is_consistent:
  assumes "kal_new append_ident gomaxprocs cfg E w = (Inr a, w')"
  shows "schema_prefix append_ident (cf_schema cfg) = Some (au_roles a)
    \<and> ss_prefix (au_sessions a) = au_roles a \<and> au_accounts_prefix a = au_roles a
    \<and> (\<forall>V. au_vaults a = Some V \<longrightarrow> vc_prefix V = au_roles a \<and> 32 \<le> length (vc_pepper V)
         \<and> map_option vo_pepper (cf_e2ee cfg) = Some (vc_pepper V))
    \<and> ac_cookie (au_accounts a) = cookie_name (au_mw a)
    \<and> ac_hasher (au_accounts a) = au_hasher a \<and> ac_sessions (au_accounts a) = au_sessions a
    \<and> ss_idle (au_sessions a) \<le> ss_absolute (au_sessions a)
    \<and> (au_vaults a = None \<longleftrightarrow> cf_e2ee cfg = None)
    \<and> ac_secret_shape (au_accounts a) = (if cf_e2ee cfg = None then validate_password else validate_auth_secret)
    \<and> ss_idle (au_sessions a) = (if cf_idle cfg = 0 then hours 12 else cf_idle cfg)
    \<and> ss_absolute (au_sessions a) = (if cf_absolute cfg = 0 then hours (14 * 24) else cf_absolute cfg)
    \<and> ac_audit (au_accounts a) = cf_audit cfg \<and> ss_audit (au_sessions a) = cf_audit cfg
    \<and> ac_allow_unverified (au_accounts a) = cf_allow_unverified cfg
    \<and> ac_base_url (au_accounts a) = trim_right_char CHR ''/'' (cf_base_url cfg)
    \<and> (au_jwt a = None \<longleftrightarrow> cf_jwt_issuer cfg = []) \<and> (au_jwt a = None \<longleftrightarrow> cf_jwt_keys cfg = [])
    \<and> (\<forall>J. au_jwt a = Some J \<longrightarrow> jw_issuer J = cf_jwt_issuer cfg \<and> jw_keys J = cf_jwt_keys cfg
         \<and> jw_kids J = map (\<lambda>k. thumbprint (public_of k)) (cf_jwt_keys cfg))
    \<and> (\<forall>H. cf_hasher cfg = Some H \<longrightarrow> au_hasher a = H)"
proof -
  obtain H where H: "config_hasher gomaxprocs cfg E w = (Inr H, w')" "au_hasher a = H"
    and S: "config_sessions append_ident cfg = Inr (au_sessions a)"
    and V: "config_vaults append_ident cfg = Inr (au_vaults a)"
    and A: "config_accounts append_ident cfg H (au_sessions a) = Inr (au_accounts a, au_accounts_prefix a)"
    and R: "new_roles append_ident (cf_schema cfg) = Inr (au_roles a)"
    and J: "config_jwt cfg = Inr (au_jwt a)"
    and mw: "au_mw a = \<lparr>mo_cookie_name = cf_cookie cfg, mo_client_ip = cf_client_ip cfg\<rparr>"
    using assms by (rule kal_new_Inr) blast
  have roles: "schema_prefix append_ident (cf_schema cfg) = Some (au_roles a)"
    using R by (simp add: new_roles_def split: option.splits)
  have given: "cf_hasher cfg = Some H' \<Longrightarrow> au_hasher a = H'" for H'
    using H by (simp add: config_hasher_def ret_def)
  show ?thesis
    using new_sessions_Inr [OF S [unfolded config_sessions_def]] config_vaults_Inr [OF V]
      config_accounts_Inr [OF A] config_jwt_Inr [OF J] roles given H(2)
    by (auto simp: mw cookie_name_def minPepperLen_def DefaultIdle_def DefaultAbsolute_def)
qed

text \<open>The smallest configuration: the required fields, and a hasher built beforehand.\<close>

definition sample_config :: "string config" where
  "sample_config = \<lparr>cf_db = True, cf_base_url = ''https://x.io/'', cf_mailer = True, cf_schema = [],
     cf_idle = 0, cf_absolute = 0, cf_cookie = [], cf_argon2 = zero_params, cf_max_hashes = 0,
     cf_hasher = Some (ac_hasher sample_accounts), cf_bypass = ''root'', cf_audit = False, cf_rls = None,
     cf_mfa_window = 0, cf_allow_unverified = False, cf_client_ip = None, cf_introspection = None,
     cf_sensitive = None, cf_max_aliases = 0, cf_max_depth = 0, cf_jwt_issuer = [], cf_jwt_keys = [],
     cf_proofs = None, cf_extras = [], cf_e2ee = None\<rparr>"

lemma sample_base: "validate_base_url ''https://x.io/'' = None"
  by (simp add: validate_base_url_None sample_url no_url_def)

definition sample_auth :: "string auth" where
  "sample_auth = \<lparr>au_sessions = \<lparr>ss_idle = DefaultIdle, ss_absolute = DefaultAbsolute, ss_audit = False, ss_prefix = []\<rparr>,
     au_accounts = \<lparr>ac_hasher = ac_hasher sample_accounts,
       ac_sessions = \<lparr>ss_idle = DefaultIdle, ss_absolute = DefaultAbsolute, ss_audit = False, ss_prefix = []\<rparr>,
       ac_base_url = trim_right_char CHR ''/'' ''https://x.io/'', ac_cookie = DefaultCookieName,
       ac_secret_shape = validate_password, ac_allow_unverified = False, ac_audit = False\<rparr>,
     au_accounts_prefix = [], au_roles = [], au_hasher = ac_hasher sample_accounts, au_jwt = None,
     au_vaults = None, au_cfg = sample_config, au_mw = \<lparr>mo_cookie_name = [], mo_client_ip = None\<rparr>\<rparr>"

lemma sample_new_run: "kal_new id 4 sample_config E w = (Inr sample_auth, w)"
  by (simp add: kal_new_def config_fault_def sample_base config_hasher_def config_sessions_def
      new_sessions_def schema_prefix_def config_vaults_def config_accounts_def new_accounts_def
      new_roles_def config_jwt_def sample_config_def sample_auth_def DefaultIdle_def DefaultAbsolute_def hours_def seconds_def)
    (simp add: ret_def)

theorem new_is_consistent_witness:
  "ac_cookie (au_accounts sample_auth) = cookie_name (au_mw sample_auth)
     \<and> ss_idle (au_sessions sample_auth) \<le> ss_absolute (au_sessions sample_auth)"
  using new_is_consistent [OF sample_new_run [of sample_env "world_of empty_db"]] by blast

section \<open>Requests\<close>

lemma from_carrying [simp]: "from_ctx (with_bypass_role c role) = from_ctx c"
  by (simp add: with_bypass_role_def from_ctx_def)

lemma from_request_ctx [simp]: "from_ctx (request_ctx opts c r) = from_ctx c"
  by (simp add: request_ctx_def with_meta_def from_ctx_def)

text \<open>A lookup that runs, on a token that resolves, puts the principal in the context.\<close>

lemma identify_resolved:
  assumes "wf_db U (db v)" and "map_of (rq_cookies r) (cookie_name opts) = Some token" and "token \<noteq> []"
    and "\<not> db_fails F (step v)" and "resolve (db_clock F (step v)) (db v) token = Some p"
  shows "\<exists>v'. identify S opts c r F v = (Inr (with_principal c (Some p)), v')"
proof -
  have "\<exists>v'. lookup S token F v = (Inr (Some p), v')"
    using assms(4,5) lookup_rows_resolve [OF assms(1), of token "db_clock F (step v)"]
    by (auto simp: lookup_def bindM_def query_one_def tryM_def exec_def lookup_sql_def ret_def
        lift_def resolve_def split: option.splits)
  with assms(2,3) show ?thesis
    by (auto simp: identify_def lookup_cookie_def bindM_def ret_def)
qed

lemma session_cookie_fields [simp]:
  "ck_name (session_cookie name token) = name" "ck_value (session_cookie name token) = token"
  by (simp_all add: session_cookie_def)

text \<open>C9 From login to the next request: on a library New built, after a successful Login the
  request that brings back the one cookie Login queued, inside the idle window and on a
  database nobody else has touched, reaches the application's handler chain with exactly the
  principal Login returned - the bypass role added, the extra middleware inside.\<close>

theorem login_reaches_handler:
  assumes new: "kal_new append_ident gomaxprocs cfg E0 w0 = (Inr a, w0')"
    and login: "login (au_accounts a) c email password E w = (Inr p, w')"
    and wf: "wf_db (unicode E) (db w)" and mono: "mono (db_clock E)"
    and cookie: "rq_cookies r = [(ck_name (last (jar w')), ck_value (last (jar w')))]"
    and guard: "rq_method r = ''OPTIONS'' \<or> passes_transport_guard (unicode F) r"
    and db: "db v = db w'" "\<not> db_fails F (step v)"
    and later: "db_clock E (step w') \<le> db_clock F (step v)"
    and window: "db_clock F (step v) < db_clock E (step w) + ss_idle (au_sessions a)"
  shows "\<exists>v'. kal_middleware a nxt c0 r F v =
    tryM (carrying_bypass (cf_bypass cfg) (with_extras (cf_extras cfg) nxt)
            (with_principal (request_ctx (au_mw a) c0 r) (Some p)) r) (\<lambda>x. ret (Served x)) F v'"
proof -
  obtain H where S: "config_sessions append_ident cfg = Inr (au_sessions a)"
    and A: "config_accounts append_ident cfg H (au_sessions a) = Inr (au_accounts a, au_accounts_prefix a)"
    and cfg: "au_cfg a = cfg" and mw: "au_mw a = \<lparr>mo_cookie_name = cf_cookie cfg, mo_client_ip = cf_client_ip cfg\<rparr>"
    using new by (rule kal_new_Inr) blast
  note acc = config_accounts_Inr [OF A]
  have limits: "ss_idle (au_sessions a) \<le> ss_absolute (au_sessions a)"
    using new_sessions_Inr [OF S [unfolded config_sessions_def]] by blast
  obtain u :: user_row and w1 where calm: "settled E w w1" and start: "start_session (au_accounts a) c (u_id u) E w1 = (Inr p, w')"
    using login by (rule login_Inr)
  have wf1: "wf_db (unicode E) (db w1)"
    using calm wf mono by (simp add: settled_def)
  have "db_clock F (step v) < db_clock E (step w1) + ss_idle (au_sessions a)"
    using window calm mono by (auto simp: settled_def)
  with start_session_lasts [OF start wf1 mono] limits later acc obtain token
    where jar: "jar w' = jar w1 @ [session_cookie (ac_cookie (au_accounts a)) token]"
    and res: "resolve (db_clock F (step v)) (db w') token = Some p"
    and ne: "token \<noteq> []" and wf': "wf_db (unicode E) (db w')"
    by auto
  have "map_of (rq_cookies r) (cookie_name (au_mw a)) = Some token"
    using cookie jar acc by (simp add: mw cookie_name_def)
  then obtain v' where "identify (au_sessions a) (au_mw a) (request_ctx (au_mw a) c0 r) r F v
      = (Inr (with_principal (request_ctx (au_mw a) c0 r) (Some p)), v')"
    using identify_resolved res db ne wf' by metis
  then show ?thesis
    using guard by (auto simp: kal_middleware_def middleware_def with_env_def tryM_def bindM_def cfg)
qed

lemma sample_kal_login:
  "\<exists>p w'. login (au_accounts sample_auth) (background\<lparr>cx_jar := True\<rparr>) ''a@x.io'' ''pass'' sample_env
     (world_of sample_db) = (Inr p, w') \<and> step w' < 100"
  by (simp add: sample_auth_def login_def login_known_def check_backoff_def with_env_def tryM_def bindM_def exec_def
      query_one_def attempts_sql_def login_select_sql_def lift_def ret_def fail_def coalesce_text_def
      verify_def within_bound_eq busy_def verify_stored_def count_hash_def record_failure_def ignoring_def log_printf_def
      rehash_stored_def hash_password_def hash_bytes_def rand_read_def id_key_def sample_argon2_def
      update_password_sql_def update_where_def reset_backoff_def reset_attempts_sql_def
      backoff_consts start_session_def from_ctx_def issue_def new_token_def issue_sql_def has_user_def
      lookup_def lookup_sql_def lookup_rows_def live_session_def principal_of_def set_cookie_def add_cookie_def
      live_user_def seconds_def hours_def DefaultIdle_def DefaultAbsolute_def
      at_max_def emit_def meta_from_context_def background_def no_meta_def Let_def
      del: upt_Suc upt_rec_numeral sample_env_simps(7))

theorem login_reaches_handler_witness:
  "\<exists>p w' v'. login (au_accounts sample_auth) (background\<lparr>cx_jar := True\<rparr>) ''a@x.io'' ''pass'' sample_env
       (world_of sample_db) = (Inr p, w')
     \<and> kal_middleware sample_auth (\<lambda>c r. ret []) background
         (sample_request\<lparr>rq_method := ''OPTIONS'', rq_cookies := [(ck_name (last (jar w')), ck_value (last (jar w')))]\<rparr>)
         sample_env w' = (Inr (Served []), v')"
proof -
  obtain p w' where run: "login (au_accounts sample_auth) (background\<lparr>cx_jar := True\<rparr>) ''a@x.io'' ''pass'' sample_env
      (world_of sample_db) = (Inr p, w')" and small: "step w' < 100"
    using sample_kal_login by blast
  have "wf_db (unicode sample_env) (db (world_of sample_db))"
    by (simp add: sample_wf)
  from login_reaches_handler [OF sample_new_run [of sample_env "world_of empty_db"] run this sample_clock_mono,
      where F = sample_env and v = w' and nxt = "\<lambda>c r. ret []" and ?c0.0 = background
        and r = "sample_request\<lparr>rq_method := ''OPTIONS'', rq_cookies := [(ck_name (last (jar w')), ck_value (last (jar w')))]\<rparr>"]
    small run
  show ?thesis
    by (auto simp: sample_auth_def sample_config_def carrying_bypass_def with_extras_def DefaultIdle_def
        hours_def seconds_def) (simp add: ret_def)
qed

lemma identify_unresolved:
  assumes "wf_db U (db v)" and "identify S opts c r F v = (Inr c', v')"
    and "\<And>t. map_of (rq_cookies r) (cookie_name opts) = Some t \<Longrightarrow> resolve (db_clock F (step v)) (db v) t = None"
  shows "c' = c"
  using identify_Inr [OF assms(1,2)] assms(3) by force

lemma directive_anonymous:
  assumes "from_ctx c = None"
  shows "kal_directive a field c LevelAuthenticated want mfa None F v
    = (Inl (KalErr CodeUnauthenticated ''authentication required'' None), v)"
  using assms by (simp add: kal_directive_def directive_def auth_check_def level_defs)

text \<open>C10 No session, no field: with no ExtraMiddleware and no principal already on the outer context,
  on a request whose cookie, if there is one, resolves to nobody -
  it expired, idled out, was revoked by a logout or a password change, or was made up - a
  field annotated for authenticated callers answers UNAUTHENTICATED, and its resolver is not
  run: the answer and the state left behind are the same for every resolver.\<close>

theorem no_session_no_field:
  fixes a :: "'a auth"
  assumes "wf_db U (db v)" and "rq_method r = ''OPTIONS'' \<or> passes_transport_guard (unicode F) r"
    and "from_ctx c0 = None" and "cf_extras (au_cfg a) = []"
    and "\<And>t. map_of (rq_cookies r) (cookie_name (au_mw a)) = Some t
           \<Longrightarrow> resolve (db_clock F (step v)) (db v) t = None"
  shows "\<exists>e v'. has_code CodeUnauthenticated e
    \<and> (\<forall>field. kal_middleware a (\<lambda>c r. kal_directive a field c LevelAuthenticated want mfa None) c0 r F v = (Inl e, v'))"
proof -
  obtain c' v' where i: "identify (au_sessions a) (au_mw a) (request_ctx (au_mw a) c0 r) r F v = (Inr c', v')"
    using identify_total by blast
  then have "c' = request_ctx (au_mw a) c0 r"
    using identify_unresolved [OF assms(1) i assms(5)] by blast
  then have anon: "from_ctx c' = None" "from_ctx (with_bypass_role c' b) = None" for b
    using assms(3) by simp_all
  have "kal_middleware a (\<lambda>c r. kal_directive a field c LevelAuthenticated want mfa None) c0 r F v
      = (Inl (KalErr CodeUnauthenticated ''authentication required'' None), v')" for field :: "ctx \<Rightarrow> 'a prog"
    using assms(2) i anon
    by (auto simp: kal_middleware_def middleware_def with_env_def assms(4) with_extras_def carrying_bypass_def
        tryM_def bindM_def directive_anonymous fail_def)
  then show ?thesis
    by (intro exI conjI allI) auto
qed

theorem no_session_no_field_witness:
  "\<exists>e v'. has_code CodeUnauthenticated e \<and>
     kal_middleware sample_auth (\<lambda>c r. kal_directive sample_auth (\<lambda>c. ret ''secret'') c LevelAuthenticated [] None None)
       background (sample_request\<lparr>rq_method := ''OPTIONS''\<rparr>) sample_env (world_of session_db) = (Inl e, v')"
  using no_session_no_field [OF session_world_wf, of "sample_request\<lparr>rq_method := ''OPTIONS''\<rparr>" sample_env background
      sample_auth "[]" None]
  by (force simp: background_def from_ctx_def sample_auth_def sample_config_def)

text \<open>The extra middleware is entered in the order configured, the first one outermost, and
  each sees the bypass role on the context it is given.\<close>

theorem extras_see_bypass:
  "carrying_bypass role (with_extras (v # vs) nxt) c r = v (with_extras vs nxt) (with_bypass_role c role) r
    \<and> bypass_from (with_bypass_role c role) = (if role = [] then bypass_from c else Some role)"
  by (simp add: carrying_bypass_def with_extras_def with_bypass_role_def bypass_from_def)

end
