(* ===== verification/Login_Live.thy ===== *)
theory Login_Live
  imports Account_Facts
begin

text \<open>
  The other half of what Login promises: with nothing failing around it, the right password of
  a live account logs in. The steps that may not stop a login are shown to return whatever
  happens to them, and the whole is then followed forwards.
\<close>

section \<open>What the steps before the session leave alone\<close>

definition identities :: "database \<Rightarrow> (string \<times> bool) list" where
  "identities d = map (\<lambda>u. (u_id u, live_user u)) (users d)"

definition session_keys :: "database \<Rightarrow> (string \<times> byte list) list" where
  "session_keys d = map (\<lambda>s. (s_id s, s_token s)) (sessions d)"

definition login_frame :: "env \<Rightarrow> world \<Rightarrow> world \<Rightarrow> bool" where
  "login_frame E w w' \<longleftrightarrow> session_keys (db w') = session_keys (db w) \<and> identities (db w') = identities (db w)
     \<and> in_flight w' = in_flight w \<and> (wf_db (unicode E) (db w) \<longrightarrow> mono (db_clock E) \<longrightarrow> wf_db (unicode E) (db w'))"

interpretation framing: guarantee login_frame
  by unfold_locales (simp_all add: login_frame_def)

lemma framing_untouched:
  assumes "keeps same_db E m" and "keeps same_slots E m"
  shows "keeps login_frame E m"
  using assms by (simp add: keeps_def login_frame_def same_db_def same_slots_def)

lemma framing_pure [guar]:
  "keeps login_frame E (emit hook e)" "keeps login_frame E (send_mail to msg)"
  "keeps login_frame E (hash_password H pw)" "keeps login_frame E (verify H pw enc)" "keeps login_frame E (log_printf l)"
  by (intro framing_untouched guar)+

lemma framing_exec:
  assumes "keeps (via (\<lambda>_. True)) E (exec st)"
    and "\<And>now uid d r d'. st now uid d = Inr (r, d') \<Longrightarrow> session_keys d' = session_keys d \<and> identities d' = identities d"
  shows "keeps login_frame E (exec st)"
proof (rule keepsI)
  fix w r w'
  assume run: "exec st E w = (r, w')"
  have "session_keys (db w') = session_keys (db w) \<and> identities (db w') = identities (db w) \<and> in_flight w' = in_flight w"
    using run by (cases rule: exec_db) (use assms(2) exec_frame [OF run] in auto)
  moreover have "wf_db (unicode E) (db w) \<longrightarrow> mono (db_clock E) \<longrightarrow> wf_db (unicode E) (db w')"
    using via_run [OF assms(1) run] schedule_wf by metis
  ultimately show "login_frame E w w'" by (simp add: login_frame_def)
qed

lemma framing_statements [guar]:
  "keeps login_frame E (exec (reset_attempts_sql key ip))"
  "keeps login_frame E (exec (update_password_sql new user old))"
  "keeps login_frame E (exec (revoke_sql sid))"
  by (intro framing_exec guar TrueI; auto simp: reset_attempts_sql_def update_password_sql_def revoke_sql_def
      identities_def session_keys_def update_where_def live_user_def)+

lemma framing_helpers [guar]:
  "keeps login_frame E (notify A to msg)" "keeps login_frame E (reset_backoff key ip)"
  "keeps login_frame E (rehash_stored A user password old)" "keeps login_frame E (revoke S sid)"
  unfolding notify_def reset_backoff_def rehash_stored_def rehash_failed_def revoke_def
  by (intro framing.keeps_rules guar)+

section \<open>Steps that always return\<close>

definition returns :: "env \<Rightarrow> unit prog \<Rightarrow> bool" where
  "returns E m \<longleftrightarrow> (\<forall>w. fst (m E w) = Inr ())"

lemma returns_run:
  assumes "returns E m" and "keeps login_frame E m"
  obtains w' where "m E w = (Inr (), w')" and "login_frame E w w'"
  using assms by (metis returns_def keepsD prod.collapse)

lemma returns_then: "returns E m \<Longrightarrow> (\<And>x. returns E (f x)) \<Longrightarrow> returns E (tryM m f)"
  by (simp add: returns_def tryM_def bindM_def split: prod.split) (metis fst_conv sum.case(2))

lemma returns_simple:
  "returns E (ret ())" "returns E (emit hook e)" "returns E (reset_backoff key ip)" "returns E (notify A to msg)"
proof -
  show "returns E (ret ())" "returns E (emit hook e)" "returns E (notify A to msg)"
    by (simp_all add: returns_def ret_def emit_def bindM_def notify_def send_mail_def)
  show "returns E (reset_backoff key ip)"
    unfolding returns_def using counters_return(2) by (metis fst_conv)
qed

lemma revoke_returns: "(\<And>n. \<not> db_fails E n) \<Longrightarrow> returns E (revoke S sid)"
  by (simp add: returns_def revoke_def tryM_def bindM_def exec_def revoke_sql_def emit_def ret_def)

definition runnable :: "hash_params \<Rightarrow> bool" where
  "runnable p \<longleftrightarrow> 0 < unat (hp_time p) \<and> 0 < unat (hp_parallelism p)"

lemma argon2_runs:
  assumes "argon2_ok E" and "runnable p"
  obtains key where "argon2 E pw salt (unat (hp_time p)) (unat (hp_memory p)) (unat (hp_parallelism p))
    (unat (hp_key_len p)) = Some key"
proof -
  let ?key = "argon2 E pw salt (unat (hp_time p)) (unat (hp_memory p)) (unat (hp_parallelism p)) (unat (hp_key_len p))"
  have "case ?key of None \<Rightarrow> unat (hp_time p) = 0 \<or> unat (hp_parallelism p) = 0
    | Some k \<Rightarrow> 0 < unat (hp_time p) \<and> 0 < unat (hp_parallelism p) \<and> length k = unat (hp_key_len p)"
    using assms(1) unfolding argon2_ok_def by blast
  with assms(2) that show thesis by (cases ?key) (auto simp: runnable_def)
qed

text \<open>The hasher panics only when Argon2 is given no pass or no lane.\<close>

lemma hash_bytes_no_panic:
  assumes "argon2_ok E" and "runnable p" and "hash_bytes p pw E w = (Inl e, w')"
  shows "\<not> is_panic e"
proof (cases "rand_fails E (step w)")
  case True
  with assms(3) show ?thesis
    by (auto simp: hash_bytes_def tryM_def bindM_def rand_read_def fail_def is_panic_def)
next
  case False
  let ?salt = "map (rand_byte E (step w)) [0..<unat (hp_salt_len p)]"
  let ?key = "argon2 E pw ?salt (unat (hp_time p)) (unat (hp_memory p)) (unat (hp_parallelism p)) (unat (hp_key_len p))"
  obtain key where "?key = Some key"
    using assms(1,2) by (rule argon2_runs)
  with False assms(3) show ?thesis
    by (simp add: hash_bytes_def id_key_def tryM_def bindM_def rand_read_def with_env_def count_hash_def
        ret_def del: upt_Suc upt_rec_numeral)
qed

lemma hash_no_panic:
  assumes "argon2_ok E" and "runnable (h_params H)" and "hash_password H pw E w = (Inl e, w')"
  shows "\<not> is_panic e"
proof (cases "busy H E w")
  case True
  with assms(3) show ?thesis
    unfolding hash_password_def within_bound_eq by (auto simp: try_again_def is_panic_def)
next
  case False
  then obtain w1 where "hash_bytes (h_params H) (bytes_of pw) E (took_slot w) = (Inl e, w1)"
    using assms(3) unfolding hash_password_def within_bound_eq by (auto split: prod.splits)
  with assms(1,2) show ?thesis by (rule hash_bytes_no_panic)
qed

lemma rehash_returns:
  assumes "argon2_ok E" and "runnable (h_params (ac_hasher A))"
  shows "returns E (rehash_stored A user password old)"
  unfolding returns_def
proof
  fix w
  obtain r w1 where run: "hash_password (ac_hasher A) password E w = (r, w1)" by fastforce
  have after: "fst (rehash_failed A user e E v) = Inr ()" for e v
    by (simp add: rehash_failed_def emit_def)
  show "fst (rehash_stored A user password old E w) = Inr ()"
  proof (cases r)
    case (Inl e)
    with run hash_no_panic [OF assms] have "\<not> is_panic e" by blast
    with run Inl after show ?thesis by (simp add: rehash_stored_def bindM_def)
  next
    case (Inr h)
    with run after show ?thesis
      by (simp add: rehash_stored_def bindM_def ret_def split: prod.split sum.split)
  qed
qed

section \<open>The start of the session, forwards\<close>

text \<open>Statements run, the random source answers, no acquire times out, the clock runs on.\<close>

definition quiet :: "env \<Rightarrow> bool" where
  "quiet E \<longleftrightarrow> (\<forall>n. \<not> db_fails E n \<and> \<not> rand_fails E n \<and> \<not> slot_times_out E n) \<and> mono (db_clock E)"

text \<open>No row holds an id or a token hash the environment is about to make up.\<close>

definition new_keys :: "env \<Rightarrow> database \<Rightarrow> bool" where
  "new_keys E d \<longleftrightarrow> (\<forall>(i, t) \<in> set (session_keys d). \<forall>n. i \<noteq> new_uuid E n
     \<and> t \<noteq> hash_token (b64_encode url_alphabet (map (rand_byte E n) [0..<32])))"

lemma issue_runs:
  assumes "quiet E" and "has_user (db w) user" and "new_keys E (db w)"
  shows "\<exists>token w'. issue S user mt E w = (Inr token, w')"
proof -
  let ?hash = "hash_token (b64_encode url_alphabet (map (rand_byte E (step w)) [0..<32]))"
  have "\<not> list_ex (\<lambda>s. s_token s = ?hash \<or> s_id s = new_uuid E (Suc (step w))) (sessions (db w))"
    using assms(3) by (auto simp: new_keys_def session_keys_def list_ex_iff)
  with assms(1,2) show ?thesis
    by (simp add: issue_def new_token_def tryM_def bindM_def rand_read_def query_one_def exec_def lift_def
        issue_sql_def ret_def Let_def quiet_def del: upt_Suc upt_rec_numeral)
qed

lemma lookup_runs:
  assumes "quiet E" and "wf_db U (db w)"
  shows "\<exists>w'. lookup S token E w = (Inr (resolve (db_clock E (step w)) (db w) token), w')"
  using assms lookup_rows_resolve [OF assms(2), of token "db_clock E (step w)"]
  by (auto simp: quiet_def lookup_def bindM_def query_one_def tryM_def exec_def lookup_sql_def ret_def fail_def
      lift_def resolve_def split: option.splits)

lemma start_session_runs:
  assumes "quiet E" and "wf_db (unicode E) (db w)" and "new_keys E (db w)" and "cx_jar c"
    and user: "(user, True) \<in> set (identities (db w))"
    and tick: "\<And>n. db_clock E (Suc n) < db_clock E n + ss_idle (ac_sessions A)"
    and limits: "ss_idle (ac_sessions A) \<le> ss_absolute (ac_sessions A)"
  shows "\<exists>p w'. start_session A c user E w = (Inr p, w')"
proof -
  let ?S = "ac_sessions A"
  let ?prior = "case from_ctx c of None \<Rightarrow> ret () | Some prior \<Rightarrow> revoke ?S (p_session prior)"
  have mono: "mono (db_clock E)" and quiet: "\<And>n. \<not> db_fails E n"
    using assms(1) by (simp_all add: quiet_def)
  have "returns E ?prior" "keeps login_frame E ?prior"
    by (auto intro: returns_simple revoke_returns [OF quiet] framing.keeps_rules guar split: option.split)
  then obtain w1 where r: "?prior E w = (Inr (), w1)" and f: "login_frame E w w1"
    by (rule returns_run)
  have wf1: "wf_db (unicode E) (db w1)" and keys: "new_keys E (db w1)" and ids: "identities (db w1) = identities (db w)"
    using f assms(2,3) mono by (auto simp: login_frame_def new_keys_def)
  have "has_user (db w1) user"
    using user unfolding ids [symmetric] by (auto simp: has_user_iff identities_def)
  then obtain token w2 where i: "issue ?S user (meta_from_context c) E w1 = (Inr token, w2)"
    using issue_runs [OF assms(1) _ keys] by blast
  have wf2: "wf_db (unicode E) (db w2)"
    using via_run [OF via_issue [where ok = "\<lambda>_. True"] i mono] wf1 schedule_wf by metis
  obtain row where row: "s_token row = hash_token token" "s_user row = user"
    "s_created row = db_clock E (Suc (step w1))" "s_idle_exp row = s_created row + ss_idle ?S"
    "s_exp row = s_created row + ss_absolute ?S" "s_revoked row = None"
    and db: "db w2 = (db w1)\<lparr>sessions := sessions (db w1) @ [row]\<rparr>" and step: "step w2 = Suc (Suc (step w1))"
    using i by (rule issue_Inr) blast
  have live: "live_session (db_clock E (step w2)) row"
    using tick [of "Suc (step w1)"] limits row step by (simp add: live_session_def)
  have "(user, True) \<in> set (identities (db w2))"
    using user ids by (simp add: db identities_def)
  then obtain u where u: "u \<in> set (users (db w2))" "u_id u = user" "live_user u"
    by (auto simp: identities_def)
  have "find (\<lambda>v. u_id v = s_user row) (users (db w2)) = Some u"
    using find_key_Some [of u_id "users (db w2)" u] u row(2) wf2 by (simp add: wf_db_def wf_users_def)
  moreover have "row \<in> set (sessions (db w2))" by (simp add: db)
  ultimately obtain p where "resolve (db_clock E (step w2)) (db w2) token = Some p"
    using resolve_alive [OF wf2 _ row(1) live] u(3) by auto
  with lookup_runs [OF assms(1) wf2, of ?S token] obtain w3 where l: "lookup ?S token E w2 = (Inr (Some p), w3)"
    by auto
  show ?thesis
    using r i l assms(4) by (simp add: start_session_def tryM_def bindM_def set_cookie_def add_cookie_def ret_def)
qed

section \<open>The whole login, forwards\<close>

lemma verify_runs:
  assumes "matches E pw stored" and "\<not> busy H E w"
  shows "\<exists>b. verify H pw stored E w = (Inr (True, b), hashed_once 1 w)"
proof (cases "has_prefix stored ''$2''")
  case True
  with assms show ?thesis
    unfolding verify_def within_bound_eq
    by (intro exI [of _ True]) (simp add: verify_stored_def matches_def tryM_def bindM_def with_env_def count_hash_def ret_def
        hashed_once_def tick_def)
next
  case False
  with assms(1) obtain p salt key where "parse_phc (unicode E) stored = Inr (p, salt, key)"
    "argon2 E (bytes_of pw) salt (unat (hp_time p)) (unat (hp_memory p))
       (unat (hp_parallelism p)) (unat (hp_key_len p)) = Some key"
    by (auto simp: matches_def split: sum.splits prod.splits)
  with False assms(2) show ?thesis
    unfolding verify_def within_bound_eq
    by (simp add: verify_stored_def id_key_def tryM_def bindM_def with_env_def count_hash_def lift_def ret_def
        hashed_once_def tick_def)
qed

lemma login_known_runs:
  assumes "quiet E" and "argon2_ok E" and "runnable (h_params (ac_hasher A))"
    and "wf_db (unicode E) (db w)" and "new_keys E (db w)" and "cx_jar c" and "(user, True) \<in> set (identities (db w))"
    and "matches E password stored" and "verified \<or> ac_allow_unverified A" and "in_flight w < h_limit (ac_hasher A)"
    and "\<And>n. db_clock E (Suc n) < db_clock E n + ss_idle (ac_sessions A)"
    and "ss_idle (ac_sessions A) \<le> ss_absolute (ac_sessions A)"
  shows "\<exists>p w'. login_known A c email password prior user stored verified E w = (Inr p, w')"
proof -
  let ?w = "hashed_once 1 w"
  have "\<not> busy (ac_hasher A) E w"
    using assms(1,10) by (simp add: busy_def quiet_def)
  then obtain b where v: "verify (ac_hasher A) password stored E w = (Inr (True, b), ?w)"
    using verify_runs [OF assms(8)] by blast
  have "returns E (if b then rehash_stored A user password stored else ret ())"
    "keeps login_frame E (if b then rehash_stored A user password stored else ret ())"
    by (auto intro: returns_simple rehash_returns [OF assms(2,3)] framing.keeps_rules guar)
  then obtain w1 where r1: "(if b then rehash_stored A user password stored else ret ()) E ?w = (Inr (), w1)"
    and f1: "login_frame E ?w w1" by (rule returns_run)
  have "returns E (if suspiciousFailures \<le> prior then notify A email suspicious_login else ret ())"
    "keeps login_frame E (if suspiciousFailures \<le> prior then notify A email suspicious_login else ret ())"
    by (auto intro: returns_simple framing.keeps_rules guar)
  then obtain w2 where r2: "(if suspiciousFailures \<le> prior then notify A email suspicious_login else ret ()) E w1 = (Inr (), w2)"
    and f2: "login_frame E w1 w2" by (rule returns_run)
  obtain w3 where r3: "reset_backoff email (mt_ip (meta_from_context c)) E w2 = (Inr (), w3)" and f3: "login_frame E w2 w3"
    by (rule returns_run [OF returns_simple(3) framing_helpers(2)])
  obtain w4 where r4: "emit (ac_audit A) (no_event\<lparr>ev_kind := ''login.ok'', ev_user := user, ev_email := email,
      ev_ip := mt_ip (meta_from_context c), ev_detail := [(''prior_failures'', itoa (nat prior))]\<rparr>) E w3 = (Inr (), w4)"
    and f4: "login_frame E w3 w4"
    by (rule returns_run [OF returns_simple(2) framing_pure(1)])
  have "login_frame E ?w w4"
    using f1 f2 f3 f4 by (blast intro: framing.trans)
  then have "wf_db (unicode E) (db w4)" "new_keys E (db w4)" "(user, True) \<in> set (identities (db w4))"
    using assms(1,4,5,7) by (simp_all add: login_frame_def new_keys_def quiet_def)
  then obtain p w' where "start_session A c user E w4 = (Inr p, w')"
    using start_session_runs [OF assms(1) _ _ assms(6) _ assms(11,12)] by blast
  then show ?thesis
    using v r1 r2 r3 r4 assms(9) by (auto simp: login_known_def Let_def tryM_def bindM_def)
qed

lemma matches_empty: "\<not> matches E pw []"
  by (simp add: matches_def parse_phc_def)

text \<open>No counter inside its delay: the gate lets the login through.\<close>

lemma backoff_passes:
  assumes "\<not> db_fails E (step w)"
    and closed: "\<And>a. a \<in> set (attempts (db w)) \<Longrightarrow> attempt_hit key ip a \<Longrightarrow>
      delay_for (a_scope a) (a_failures a) \<le> db_clock E (step w) - a_last a"
  obtains prior where "check_backoff A key ip E w = (Inr prior, tick w)"
proof -
  let ?rows = "map (\<lambda>a. (a_scope a, a_failures a, db_clock E (step w) - a_last a)) (filter (attempt_hit key ip) (attempts (db w)))"
  have "snd (scan_counters 0 ?rows) = None"
    using closed scan_counters_open [of 0 ?rows] by force
  with assms(1) have "check_backoff A key ip E w = (Inr (fst (scan_counters 0 ?rows)), tick w)"
    by (cases "scan_counters 0 ?rows")
      (simp add: check_backoff_def tryM_def bindM_def exec_def attempts_sql_def ret_def tick_def)
  then show thesis by (rule that)
qed

text \<open>The whole login, once nothing around it fails.\<close>

lemma login_runs:
  assumes "quiet E" and "argon2_ok E" and "runnable (h_params (ac_hasher A))"
    and "wf_db (unicode E) (db w)" and "new_keys E (db w)" and "cx_jar c"
    and u: "u \<in> set (users (db w))" "live_email (unicode E) (normalise (unicode E) email) u" "u_hash u = Some stored"
    and "matches E password stored" and "u_verified u \<or> ac_allow_unverified A"
    and "in_flight w < h_limit (ac_hasher A)"
    and closed: "\<And>a. a \<in> set (attempts (db w)) \<Longrightarrow>
      attempt_hit (normalise (unicode E) email) (mt_ip (meta_from_context c)) a \<Longrightarrow>
      delay_for (a_scope a) (a_failures a) \<le> db_clock E (step w) - a_last a"
    and tick: "\<And>n. db_clock E (Suc n) < db_clock E n + ss_idle (ac_sessions A)"
    and "ss_idle (ac_sessions A) \<le> ss_absolute (ac_sessions A)"
  shows "\<exists>p w'. login A c email password E w = (Inr p, w') \<and> p_user p = u_id u"
proof -
  let ?email = "normalise (unicode E) email" and ?ip = "mt_ip (meta_from_context c)"
  have up: "\<And>n. \<not> db_fails E n"
    using assms(1) by (simp add: quiet_def)
  obtain prior where b: "check_backoff A ?email ?ip E w = (Inr prior, tick w)"
    using backoff_passes [OF up closed] .
  have "filter (live_email (unicode E) ?email) (users (db w)) = [u]"
    using live_email_unique [OF _ u(1,2)] assms(4) by (simp add: wf_db_def)
  then have q: "query_one (login_select_sql (unicode E) ?email) E (tick w) = (Inr (u_id u, stored, u_verified u), tick (tick w))"
    using up u(3) by (simp add: query_one_def tryM_def bindM_def exec_def login_select_sql_def coalesce_text_def lift_def)
  have "(u_id u, True) \<in> set (identities (db w))"
    using u(1,2) by (force simp: identities_def live_email_def)
  then have "\<exists>p w'. login_known A c ?email password prior (u_id u) stored (u_verified u) E
      (tick (tick w)) = (Inr p, w')"
    using assms by (intro login_known_runs) auto
  moreover have "stored \<noteq> []"
    using assms(10) matches_empty by blast
  ultimately obtain p w' where run: "login A c email password E w = (Inr p, w')"
    using b q by (auto simp: login_def with_env_def Let_def tryM_def bindM_def)
  then obtain v w1 where v: "v \<in> set (users (db w))" "live_email (unicode E) ?email v"
    and st: "settled E w w1" and start: "start_session A c (u_id v) E w1 = (Inr p, w')"
    by (rule login_Inr) blast
  have "v = u"
    using live_email_unique [OF _ u(1,2)] live_email_unique [OF _ v] assms(4) by (simp add: wf_db_def)
  moreover have "db_clock E 0 \<le> db_clock E (Suc 0)"
    using assms(1) by (simp add: quiet_def monoD)
  then have "0 < ss_idle (ac_sessions A)"
    using tick [of 0] by linarith
  ultimately show ?thesis
    using run start_session_Inr [OF start] st assms(1,4) by (auto simp: settled_def quiet_def)
qed

text \<open>C4 The right password of a live account logs in: when statements, the random source and the
  hashing slots answer, no failure counter of the address or the IP is inside its delay, and the
  account is verified or need not be, Login returns the principal of that account - whether or
  not the audit hook is there, the mail goes out, the counters can be cleared or a weak hash
  replaced, and whatever session the request came with.\<close>

theorem login_completes:
  assumes "quiet E" and "argon2_ok E" and "runnable (h_params (ac_hasher A))"
    and "wf_db (unicode E) (db w)" and "new_keys E (db w)" and "cx_jar c"
    and u: "u \<in> set (users (db w))" "live_email (unicode E) (normalise (unicode E) email) u" "u_hash u = Some stored"
    and "matches E password stored" and "u_verified u \<or> ac_allow_unverified A"
    and "in_flight w < h_limit (ac_hasher A)"
    and closed: "\<And>a. a \<in> set (attempts (db w)) \<Longrightarrow>
      attempt_hit (normalise (unicode E) email) (mt_ip (meta_from_context c)) a \<Longrightarrow>
      delay_for (a_scope a) (a_failures a) \<le> db_clock E (step w) - a_last a"
    and tick: "\<And>n. db_clock E (Suc n) < db_clock E n + ss_idle (ac_sessions A)"
    and "ss_idle (ac_sessions A) \<le> ss_absolute (ac_sessions A)"
  shows "\<exists>p w'. login A c email password E w = (Inr p, w') \<and> p_user p = u_id u"
  using assms by (rule login_runs)

theorem login_completes_witness:
  "\<exists>p w'. login sample_accounts (background\<lparr>cx_jar := True\<rparr>) ''a@x.io'' ''pass'' sample_env (world_of sample_db)
     = (Inr p, w') \<and> p_user p = ''u1''"
proof -
  have q: "quiet sample_env"
    by (simp add: quiet_def sample_clock_mono)
  have r: "runnable (h_params (ac_hasher sample_accounts))"
    by (simp add: runnable_def sample_hasher_def params_defaults_def)
  have m: "matches sample_env ''pass'' ''$2pass''"
    by (simp add: matches_def)
  have n: "new_keys sample_env (db (world_of sample_db))"
    by (simp add: new_keys_def session_keys_def)
  from login_completes [OF q sample_argon2_ok r _ n, of "background\<lparr>cx_jar := True\<rparr>" sample_user "''a@x.io''" "''$2pass''" "''pass''"]
  show ?thesis
    by (simp add: m sample_wf sample_cfg_def sample_hasher_def)
qed

end
