(* ===== verification/Crud.thy ===== *)
theory Crud
  imports Principal
begin

text \<open>
  The scoped helpers of \<open>scoped.go\<close>. luima's own four are outside the repository: the record
  \<open>luima\<close> is what they do to the consumer's table, a list of rows, given one query option.
  \<open>honours_luima\<close> is what their documentation promises of the option.
\<close>

record ('q, 'row) luima =
  lu_list :: "('q \<Rightarrow> 'q) \<Rightarrow> 'row list \<Rightarrow> goerr + 'row list"
  lu_get :: "'row \<Rightarrow> ('q \<Rightarrow> 'q) \<Rightarrow> 'row list \<Rightarrow> goerr + 'row option"
  lu_update :: "'row \<Rightarrow> string \<Rightarrow> ('q \<Rightarrow> 'q) \<Rightarrow> 'row list \<Rightarrow> goerr + 'row \<times> 'row list"
  lu_delete :: "'row \<Rightarrow> ('q \<Rightarrow> 'q) \<Rightarrow> 'row list \<Rightarrow> goerr + bool \<times> 'row list"

section \<open>List, Get, Update, Delete\<close>

definition kal_list ::
  "unicode_tables \<Rightarrow> 'q query_api \<Rightarrow> ('q, 'row) luima \<Rightarrow> ctx \<Rightarrow> string \<Rightarrow> ('q \<Rightarrow> 'q) list
     \<Rightarrow> 'row list \<Rightarrow> goerr + 'row list" where
  "kal_list U Q L c column opts = lu_list L (scoped U Q c column opts)"

definition kal_get ::
  "unicode_tables \<Rightarrow> 'q query_api \<Rightarrow> ('q, 'row) luima \<Rightarrow> ctx \<Rightarrow> string \<Rightarrow> 'row \<Rightarrow> ('q \<Rightarrow> 'q) list
     \<Rightarrow> 'row list \<Rightarrow> goerr + 'row option" where
  "kal_get U Q L c column key opts = lu_get L key (scoped U Q c column opts)"

definition kal_update ::
  "unicode_tables \<Rightarrow> 'q query_api \<Rightarrow> ('q, 'row) luima \<Rightarrow> ctx \<Rightarrow> string \<Rightarrow> 'row \<Rightarrow> string \<Rightarrow> ('q \<Rightarrow> 'q) list
     \<Rightarrow> 'row list \<Rightarrow> goerr + 'row \<times> 'row list" where
  "kal_update U Q L c column m label opts = lu_update L m label (scoped U Q c column opts)"

definition kal_delete ::
  "unicode_tables \<Rightarrow> 'q query_api \<Rightarrow> ('q, 'row) luima \<Rightarrow> ctx \<Rightarrow> string \<Rightarrow> 'row \<Rightarrow> ('q \<Rightarrow> 'q) list
     \<Rightarrow> 'row list \<Rightarrow> goerr + bool \<times> 'row list" where
  "kal_delete U Q L c column key opts = lu_delete L key (scoped U Q c column opts)"

section \<open>What luima promises\<close>

text \<open>
  \<open>q0\<close> is the query a helper starts from, before its option, and \<open>sat\<close> reads which rows a
  query selects: reads return selected rows, writes leave every other row in the table.
\<close>

definition honours_luima :: "('q, 'row) luima \<Rightarrow> 'q \<Rightarrow> ('q \<Rightarrow> 'row \<Rightarrow> bool) \<Rightarrow> bool" where
  "honours_luima L q0 sat \<longleftrightarrow>
     (\<forall>f t rows. lu_list L f t = Inr rows \<longrightarrow> (\<forall>r \<in> set rows. r \<in> set t \<and> sat (f q0) r))
   \<and> (\<forall>k f t r. lu_get L k f t = Inr (Some r) \<longrightarrow> r \<in> set t \<and> sat (f q0) r)
   \<and> (\<forall>m l f t m' t'. lu_update L m l f t = Inr (m', t') \<longrightarrow> (\<forall>r \<in> set t. \<not> sat (f q0) r \<longrightarrow> r \<in> set t'))
   \<and> (\<forall>k f t b t'. lu_delete L k f t = Inr (b, t') \<longrightarrow> (\<forall>r \<in> set t. \<not> sat (f q0) r \<longrightarrow> r \<in> set t'))"

text \<open>The rows a caller may see: his own.\<close>

definition owned_by :: "(string \<Rightarrow> 'row \<Rightarrow> string) \<Rightarrow> ctx \<Rightarrow> string \<Rightarrow> 'row \<Rightarrow> bool" where
  "owned_by col c column r = (case from_ctx c of None \<Rightarrow> False | Some p \<Rightarrow> p_user p \<noteq> [] \<and> col column r = p_user p)"

lemma scoped_owned:
  assumes "honours_where Q q0 sat col" and "\<not> bypasses U c" and "sat (scoped U Q c column opts q0) r"
  shows "owned_by col c column r"
  using scope_owner [OF assms(1) scoped_within_scope [OF assms(1,3)] assms(2)]
  by (auto simp: owned_by_def)

section \<open>Properties\<close>

text \<open>C15 The four scoped helpers act inside the caller's rows, whatever options the resolver adds:
  a caller without the bypass role is given only rows of his own, and after his updates and
  deletes every row of anybody else is still in the table as it was. An anonymous caller
  reads and changes nothing.\<close>

theorem crud_only_own_rows:
  assumes Q: "honours_where Q q0 sat col" and L: "honours_luima L q0 sat" and c: "\<not> bypasses U c"
  shows "(\<forall>rows. kal_list U Q L c column opts t = Inr rows \<longrightarrow> list_all (owned_by col c column) rows)
    \<and> (\<forall>r. kal_get U Q L c column key opts t = Inr (Some r) \<longrightarrow> owned_by col c column r)
    \<and> (\<forall>m' t'. kal_update U Q L c column m label opts t = Inr (m', t')
         \<longrightarrow> (\<forall>r \<in> set t. \<not> owned_by col c column r \<longrightarrow> r \<in> set t'))
    \<and> (\<forall>b t'. kal_delete U Q L c column key opts t = Inr (b, t')
         \<longrightarrow> (\<forall>r \<in> set t. \<not> owned_by col c column r \<longrightarrow> r \<in> set t'))"
proof -
  note own = scoped_owned [OF Q c, of column opts]
  have reads: "sat (f q0) r" if "lu_list L f t = Inr rows" "r \<in> set rows" for f rows r
    using L that by (fastforce simp: honours_luima_def)
  have one: "sat (f q0) r" if "lu_get L key f t = Inr (Some r)" for f r
    using L that by (fastforce simp: honours_luima_def)
  have updates: "r \<in> set t'" if "lu_update L m label f t = Inr (m', t')" "r \<in> set t" "\<not> sat (f q0) r" for f m' t' r
    using L that by (fastforce simp: honours_luima_def)
  have deletes: "r \<in> set t'" if "lu_delete L key f t = Inr (b, t')" "r \<in> set t" "\<not> sat (f q0) r" for f b t' r
    using L that by (fastforce simp: honours_luima_def)
  show ?thesis
    unfolding kal_list_def kal_get_def kal_update_def kal_delete_def list_all_iff
    using own reads one updates deletes by blast
qed

text \<open>A table of rows read by column, its key in the column \<open>id\<close>.\<close>

type_synonym text_row = "string \<Rightarrow> string"

definition hits :: "((text_row \<Rightarrow> bool) \<Rightarrow> text_row \<Rightarrow> bool) \<Rightarrow> text_row \<Rightarrow> text_row \<Rightarrow> bool" where
  "hits f key r \<longleftrightarrow> r ''id'' = key ''id'' \<and> f every_row r"

definition sample_luima :: "(text_row \<Rightarrow> bool, text_row) luima" where
  "sample_luima = \<lparr>lu_list = (\<lambda>f t. Inr (filter (f every_row) t)),
     lu_get = (\<lambda>k f t. Inr (find (hits f k) t)),
     lu_update = (\<lambda>m l f t. if list_ex (hits f m) t then Inr (m, map (\<lambda>r. if hits f m r then m else r) t)
                            else Inl (Text (l @ '' not found''))),
     lu_delete = (\<lambda>k f t. Inr (list_ex (hits f k) t, filter (\<lambda>r. \<not> hits f k r) t))\<rparr>"

lemma sample_luima_honest: "honours_luima sample_luima every_row selects"
  unfolding honours_luima_def
  by (auto simp: sample_luima_def selects_def hits_def image_iff split: if_splits dest!: find_SomeD)

definition others_row :: text_row where
  "others_row c = (if c = ''id'' then ''7'' else ''u2'')"

theorem crud_only_own_rows_witness:
  "\<exists>b t'. kal_delete undefined predicate_query sample_luima owner_ctx ''owner_id'' others_row [or_any] [others_row]
     = Inr (b, t') \<and> others_row \<in> set t'"
proof -
  have api: "honours_where predicate_query every_row selects cell_of"
    by (simp add: honours_where_def predicate_query_def selects_def cell_of_def every_row_def)
  have caller: "\<not> bypasses undefined owner_ctx" and other: "\<not> owned_by cell_of owner_ctx ''owner_id'' others_row"
    by (simp_all add: bypasses_def owner_ctx_def background_def from_ctx_def bypass_from_def owned_by_def
        cell_of_def others_row_def)
  obtain b t' where "kal_delete undefined predicate_query sample_luima owner_ctx ''owner_id'' others_row [or_any]
      [others_row] = Inr (b, t')"
    by (simp add: kal_delete_def sample_luima_def)
  with crud_only_own_rows [OF api sample_luima_honest caller, of "''owner_id''" "[or_any]" "[others_row]"
      others_row others_row "''row''"] other
  show ?thesis by auto
qed

end
