(* ===== verification/Migrate.thy ===== *)
theory Migrate
  imports Principal
begin

text \<open>
  Applying the migrations: \<open>migrate.go\<close> and \<open>migrations/migrations.go\<close>. The embedded files
  are an association list of names and contents; executing DDL and go-pg's transaction are
  parameters.
\<close>

section \<open>The files\<close>

definition migration_files :: "(string \<times> string) list \<Rightarrow> string list" where
  "migration_files fs = sort (map fst fs)"

definition read_file :: "(string \<times> string) list \<Rightarrow> string \<Rightarrow> goerr + string" where
  "read_file fs name = (case map_of fs name of
     None \<Rightarrow> Inl (Text (''open '' @ name @ '': file does not exist'')) | Some sql \<Rightarrow> Inr sql)"

definition migration_tables :: "string list" where
  "migration_tables = [''auth_users'', ''auth_sessions'', ''auth_tokens'', ''auth_roles'', ''auth_user_roles'',
     ''auth_login_attempts'', ''auth_zk_commitments'', ''auth_zk_challenges'', ''auth_zk_nodes'',
     ''auth_zk_credentials'', ''auth_zk_roots'', ''auth_zk_nullifiers'', ''auth_zk_claims'',
     ''auth_zk_session_claims'', ''auth_e2ee_vaults'']"

section \<open>Applying them\<close>

text \<open>
  An action on a connection, whatever the connection's state is; \<open>run\<close> executes a statement
  with its bound arguments on it.
\<close>

type_synonym ('s, 'a) action = "'s \<Rightarrow> (goerr + 'a) \<times> 's"

text \<open>\<open>if err != nil { return fmt.Errorf(\<dots>) }\<close>.\<close>

definition wrapping :: "string \<Rightarrow> ('s, 'a) action \<Rightarrow> ('a \<Rightarrow> ('s, 'b) action) \<Rightarrow> ('s, 'b) action" where
  "wrapping msg m f = (\<lambda>s. case m s of
     (Inl e, s1) \<Rightarrow> (Inl (Wrapped msg e), s1)
   | (Inr a, s1) \<Rightarrow> f a s1)"

fun apply_files :: "(string \<Rightarrow> goerr + string) \<Rightarrow> (string \<Rightarrow> ('s, unit) action) \<Rightarrow> string list \<Rightarrow> ('s, unit) action" where
  "apply_files rd run [] = Pair (Inr ())"
| "apply_files rd run (name # names) =
     wrapping (''kal: reading migration '' @ name @ '': '') (Pair (rd name)) (\<lambda>sql.
     wrapping (''kal: applying migration '' @ name @ '': '') (run sql) (\<lambda>_.
     apply_files rd run names))"

definition migrate :: "(string \<times> string) list \<Rightarrow> (string \<Rightarrow> ('s, unit) action) \<Rightarrow> ('s, unit) action" where
  "migrate fs run = apply_files (read_file fs) run (migration_files fs)"

definition set_search_path :: string where
  "set_search_path = ''select set_config('' @ [CHR 0x27] @ ''search_path'' @ [CHR 0x27] @ '', ?, true)''"

definition create_schema_text :: "(string \<Rightarrow> string) \<Rightarrow> string \<Rightarrow> string" where
  "create_schema_text append_ident schema = ''create schema if not exists '' @ append_ident schema"

definition migrate_schema ::
  "(string \<Rightarrow> string) \<Rightarrow> (('s, unit) action \<Rightarrow> ('s, unit) action) \<Rightarrow> (string \<times> string) list
     \<Rightarrow> (string \<Rightarrow> string list \<Rightarrow> ('s, unit) action) \<Rightarrow> string \<Rightarrow> ('s, unit) action" where
  "migrate_schema append_ident run_tx fs run schema =
     (if \<not> ident_ok schema then Pair (Inl schema_error)
      else run_tx (
        wrapping (''kal: creating schema '' @ schema @ '': '')
          (run (create_schema_text append_ident schema) []) (\<lambda>_.
        wrapping (''kal: setting search_path to '' @ schema @ '': '')
          (run set_search_path [schema]) (\<lambda>_.
        migrate fs (\<lambda>sql. run sql [])))))"

section \<open>Lemmas\<close>

lemma apply_files_append:
  assumes "apply_files rd run pre w = (Inr (), w1)"
  shows "apply_files rd run (pre @ post) w = apply_files rd run post w1"
  using assms
proof (induction pre arbitrary: w)
  case (Cons n pre)
  from Cons.prems obtain sql w2 where "rd n = Inr sql" and "run sql w = (Inr (), w2)"
    and "apply_files rd run pre w2 = (Inr (), w1)"
    by (auto simp: wrapping_def split: prod.splits sum.splits)
  with Cons.IH show ?case by (simp add: wrapping_def)
qed simp

lemma apply_files_Inl:
  assumes "apply_files rd run names w = (Inl e, w')"
  shows "\<exists>pre name post cause w1. names = pre @ name # post \<and> apply_files rd run pre w = (Inr (), w1)
    \<and> ((e = Wrapped (''kal: reading migration '' @ name @ '': '') cause \<and> rd name = Inl cause \<and> w' = w1)
       \<or> (e = Wrapped (''kal: applying migration '' @ name @ '': '') cause
            \<and> (\<exists>sql. rd name = Inr sql \<and> run sql w1 = (Inl cause, w'))))"
  using assms
proof (induction names arbitrary: w)
  case (Cons n names)
  show ?case
  proof (cases "rd n")
    case (Inl cause)
    with Cons.prems show ?thesis
      by (intro exI [of _ "[]"] exI [of _ n] exI [of _ names]) (auto simp: wrapping_def)
  next
    case (Inr sql)
    obtain res w2 where r: "run sql w = (res, w2)" by fastforce
    show ?thesis
    proof (cases res)
      case (Inl cause)
      with Cons.prems Inr r show ?thesis
        by (intro exI [of _ "[]"] exI [of _ n] exI [of _ names]) (auto simp: wrapping_def)
    next
      case ok: (Inr u)
      with Cons.prems Inr r have "apply_files rd run names w2 = (Inl e, w')"
        by (simp add: wrapping_def)
      from Cons.IH [OF this] obtain pre name post cause w1 where "names = pre @ name # post"
        and "apply_files rd run pre w2 = (Inr (), w1)"
        and "(e = Wrapped (''kal: reading migration '' @ name @ '': '') cause \<and> rd name = Inl cause \<and> w' = w1)
           \<or> (e = Wrapped (''kal: applying migration '' @ name @ '': '') cause
            \<and> (\<exists>sql. rd name = Inr sql \<and> run sql w1 = (Inl cause, w')))"
        by blast
      with Inr r ok show ?thesis
        by (intro exI [of _ "n # pre"] exI [of _ name] exI [of _ post] exI [of _ cause] exI [of _ w1])
          (simp add: wrapping_def)
    qed
  qed
qed simp

section \<open>Properties\<close>

text \<open>A migration that fails stops the run there: the files before it in name order have been
  applied, the error names the file and wraps the driver's own, and what is left behind is
  exactly what that statement left - no later file has run.\<close>

theorem migrate_stops_at_failure:
  assumes "migrate fs run w = (Inl e, w')"
  shows "\<exists>pre name post cause w1 sql. sort (map fst fs) = pre @ name # post
    \<and> apply_files (read_file fs) run pre w = (Inr (), w1)
    \<and> e = Wrapped (''kal: applying migration '' @ name @ '': '') cause
    \<and> map_of fs name = Some sql \<and> run sql w1 = (Inl cause, w')"
proof -
  obtain pre name post cause w1 where names: "sort (map fst fs) = pre @ name # post"
    and pre: "apply_files (read_file fs) run pre w = (Inr (), w1)"
    and last: "(e = Wrapped (''kal: reading migration '' @ name @ '': '') cause \<and> read_file fs name = Inl cause \<and> w' = w1)
       \<or> (e = Wrapped (''kal: applying migration '' @ name @ '': '') cause
            \<and> (\<exists>sql. read_file fs name = Inr sql \<and> run sql w1 = (Inl cause, w')))"
    using apply_files_Inl [OF assms [unfolded migrate_def migration_files_def]] by blast
  have "name \<in> set (map fst fs)"
    using names by (metis in_set_conv_decomp set_sort)
  then obtain sql where "map_of fs name = Some sql"
    by (metis map_of_eq_None_iff not_Some_eq list.set_map)
  with names pre last show ?thesis
    by (auto simp: read_file_def)
qed

definition refusing :: "string \<Rightarrow> (string list, unit) action" where
  "refusing sql = (\<lambda>ran. if sql = ''b'' then (Inl (Driver ''exists''), ran) else (Inr (), ran @ [sql]))"

theorem migrate_stops_at_failure_witness:
  "\<exists>pre name post. sort [''0002'', ''0001''] = pre @ name # post
     \<and> migrate [(''0002'', ''b''), (''0001'', ''a'')] refusing []
         = (Inl (Wrapped (''kal: applying migration '' @ name @ '': '') (Driver ''exists'')), [''a''])"
proof -
  have run: "migrate [(''0002'', ''b''), (''0001'', ''a'')] refusing []
      = (Inl (Wrapped ''kal: applying migration 0002: '' (Driver ''exists'')), [''a''])"
    by (simp add: migrate_def migration_files_def wrapping_def read_file_def refusing_def)
  from migrate_stops_at_failure [OF run] run show ?thesis by auto
qed

end
