(* ===== verification/Coverage.thy ===== *)
theory Coverage
  imports Directive "HOL-Library.Multiset"
begin

text \<open>
  The two wiring checks of \<open>authz/coverage.go\<close>. The schema's types are a Go map, so they
  come in no particular order: a list here, whose order the result turns out not to depend on.
\<close>

datatype def_kind = KObject | KInterface | KInputObject | KEnum | KScalar | KUnion

record field_def =
  f_name :: string
  f_directives :: "string list"

record type_def =
  d_kind :: def_kind
  d_name :: string
  d_directives :: "string list"
  d_fields :: "field_def list"

definition has_auth :: "string list \<Rightarrow> bool" where
  "has_auth ds \<longleftrightarrow> ''auth'' \<in> set ds"

definition is_selectable_type :: "type_def \<Rightarrow> bool" where
  "is_selectable_type d \<longleftrightarrow>
     (if d_kind d \<noteq> KObject \<and> d_kind d \<noteq> KInterface then False
      else \<not> has_prefix (d_name d) ''__'')"

definition uncovered_of :: "string list \<Rightarrow> type_def \<Rightarrow> string list" where
  "uncovered_of exempt d =
     (if \<not> is_selectable_type d \<or> has_auth (d_directives d) then []
      else map (\<lambda>f. d_name d @ ''.'' @ f_name f)
             (filter (\<lambda>f. \<not> has_prefix (f_name f) ''__''
                          \<and> \<not> (d_name d @ ''.'' @ f_name f \<in> set exempt \<or> has_auth (f_directives f)))
                (d_fields d)))"

definition newline_tab :: string where
  "newline_tab = [CHR 0x0A, CHR 0x09]"

definition coverage_error :: "string list \<Rightarrow> goerr" where
  "coverage_error paths = Text
     (''authz: '' @ itoa (length paths) @ '' field(s) reachable without an @auth annotation:'' @ newline_tab
      @ join newline_tab paths @ [CHR 0x0A]
      @ ''Annotate each with @auth(...), mark it @auth(requires: ANONYMOUS) if it is deliberately public, ''
      @ ''or pass its path to AssertAuthCoverage as an exemption'')"

text \<open>The argument: no executable schema, one without an AST, or the types of its AST.\<close>

definition assert_auth_coverage :: "type_def list option option \<Rightarrow> string list \<Rightarrow> goerr option" where
  "assert_auth_coverage schema exempt =
     (case schema of
        None \<Rightarrow> Some (Text ''authz: AssertAuthCoverage got a nil schema'')
      | Some None \<Rightarrow> Some (Text ''authz: the schema has no AST'')
      | Some (Some types) \<Rightarrow>
          (let uncovered = concat (map (uncovered_of exempt) types) in
           if uncovered = [] then None else Some (coverage_error (sort uncovered))))"

text \<open>
  The specification: the paths of the fields a client can select on a type the application
  declares, object or interface, that carry no auth directive, are not on a type that does, and
  are not exempted. Names that begin with two underscores are GraphQL's own.
\<close>

definition introspective :: "string \<Rightarrow> bool" where
  "introspective n \<longleftrightarrow> take 2 n = ''__''"

definition open_paths :: "type_def list \<Rightarrow> string list \<Rightarrow> string set" where
  "open_paths types exempt = {p. \<exists>d \<in> set types. \<exists>f \<in> set (d_fields d).
     (d_kind d = KObject \<or> d_kind d = KInterface) \<and> \<not> introspective (d_name d) \<and> \<not> introspective (f_name f)
     \<and> ''auth'' \<notin> set (d_directives d) \<and> ''auth'' \<notin> set (f_directives f)
     \<and> p = d_name d @ ''.'' @ f_name f \<and> p \<notin> set exempt}"

lemma has_prefix_introspective: "has_prefix n ''__'' \<longleftrightarrow> introspective n"
  by (cases n; cases "tl n") (auto simp: introspective_def)

lemma uncovered_open:
  "set (concat (map (uncovered_of exempt) types)) = open_paths types exempt"
  by (auto simp: uncovered_of_def open_paths_def is_selectable_type_def has_auth_def has_prefix_introspective
      split: if_splits)

section \<open>Directives wired\<close>

text \<open>
  What reflection sees: a pointer, nil or to an address, a struct whose fields are funcs or not,
  or anything else. What the addresses hold is a function of its own, for nothing in Go keeps a
  pointer from leading back to itself (\<open>type P *P; var p P; p = &p\<close>).
\<close>

datatype field_value = FuncField bool  \<comment> \<open>nil or not\<close> | OtherField

datatype go_value =
    NilPointer
  | Pointer nat
  | Struct "(string \<times> field_value) list"
  | OtherValue

type_synonym heap = "nat \<Rightarrow> go_value"

text \<open>The loop over \<open>v.Elem()\<close>: \<open>None\<close> when it does not come to an end.\<close>

partial_function (option) deref :: "heap \<Rightarrow> go_value \<Rightarrow> go_value option" where
  "deref h v = (case v of Pointer a \<Rightarrow> deref h (h a) | _ \<Rightarrow> Some v)"

definition missing_directives :: "(string \<times> field_value) list \<Rightarrow> string list" where
  "missing_directives fs = sort (map fst (filter (\<lambda>f. snd f = FuncField True) fs))"

text \<open>\<open>type_name\<close> is what \<open>%T\<close> prints for the argument.\<close>

definition wired_verdict :: "string \<Rightarrow> go_value \<Rightarrow> goerr option" where
  "wired_verdict type_name v =
     (case v of
        NilPointer \<Rightarrow> Some (Text ''authz: AssertDirectivesWired got a nil pointer'')
      | Struct fs \<Rightarrow>
          (if missing_directives fs = [] then None
           else Some (Text (''authz: directive(s) not wired: '' @ join '', '' (missing_directives fs)
             @ '' '' @ em_dash @ '' every annotated field fails at request time with '' @ [CHR 0x22]
             @ ''directive is not implemented'' @ [CHR 0x22]
             @ '', and gqlgen validates none of this at startup'')))
      | _ \<Rightarrow> Some (Text (''authz: AssertDirectivesWired wants a DirectiveRoot struct, got '' @ type_name)))"

definition assert_directives_wired :: "heap \<Rightarrow> string \<Rightarrow> go_value \<Rightarrow> goerr option option" where
  "assert_directives_wired h type_name v = map_option (wired_verdict type_name) (deref h v)"

lemma set_missing_directives: "set (missing_directives fs) = {n. (n, FuncField True) \<in> set fs}"
  by (auto simp: missing_directives_def intro: rev_image_eqI)

lemma missing_directives_empty: "missing_directives fs = [] \<longleftrightarrow> (\<forall>n. (n, FuncField True) \<notin> set fs)"
  by (simp add: set_missing_directives flip: set_empty)

text \<open>One turn of the loop, as a function on values that stays where it is when the loop would stop.\<close>

fun hop :: "heap \<Rightarrow> go_value \<Rightarrow> go_value" where
  "hop h (Pointer a) = h a"
| "hop h v = v"

definition is_pointer :: "go_value \<Rightarrow> bool" where
  "is_pointer v \<longleftrightarrow> (\<exists>a. v = Pointer a)"

lemma is_pointer_simps [simp]:
  "is_pointer (Pointer a)" "\<not> is_pointer NilPointer" "\<not> is_pointer (Struct fs)" "\<not> is_pointer OtherValue"
  by (simp_all add: is_pointer_def)

lemma deref_simps [simp]:
  "deref h (Pointer a) = deref h (h a)" "\<not> is_pointer v \<Longrightarrow> deref h v = Some v"
  by (subst deref.simps, simp) (cases v; subst deref.simps; simp)

lemma hop_stays [simp]: "\<not> is_pointer v \<Longrightarrow> (hop h ^^ n) v = v"
  by (induction n) (cases v; simp)+

lemma deref_hops: "\<not> is_pointer ((hop h ^^ n) v) \<Longrightarrow> deref h v = Some ((hop h ^^ n) v)"
proof (induction n arbitrary: v)
  case (Suc n)
  then show ?case by (cases v) (simp_all add: funpow_Suc_right del: funpow.simps)
qed simp

lemma deref_Some:
  assumes "deref h v = Some u"
  shows "\<not> is_pointer u \<and> (\<exists>n. u = (hop h ^^ n) v)"
proof (rule deref.raw_induct [where P = "\<lambda>h v u. \<not> is_pointer u \<and> (\<exists>n. u = (hop h ^^ n) v)", OF _ assms])
  fix d h v u
  assume IH: "\<And>h v u. d h v = Some u \<Longrightarrow> \<not> is_pointer u \<and> (\<exists>n. u = (hop h ^^ n) v)"
    and eq: "(case v of Pointer a \<Rightarrow> d h (h a) | _ \<Rightarrow> Some v) = Some u"
  show "\<not> is_pointer u \<and> (\<exists>n. u = (hop h ^^ n) v)"
  proof (cases v)
    case (Pointer a)
    with eq IH [of h "h a" u] obtain n where "\<not> is_pointer u" and "u = (hop h ^^ n) (h a)" by auto
    then have "u = (hop h ^^ Suc n) v" by (simp add: Pointer funpow_Suc_right del: funpow.simps)
    with \<open>\<not> is_pointer u\<close> show ?thesis by blast
  qed (use eq in \<open>auto intro: exI [of _ 0]\<close>)
qed

lemma deref_ends: "deref h v = None \<longleftrightarrow> (\<forall>n. is_pointer ((hop h ^^ n) v))"
  using deref_hops deref_Some by (metis not_None_eq)

text \<open>In a memory of finitely many cells a chain that does not end comes back to where it was.\<close>

lemma hops_repeat:
  assumes "(hop h ^^ i) v = (hop h ^^ (i + k)) v"
  shows "(hop h ^^ (i + m * k)) v = (hop h ^^ i) v"
proof (induction m)
  case (Suc m)
  have "(hop h ^^ (i + Suc m * k)) v = (hop h ^^ (m * k)) ((hop h ^^ (i + k)) v)"
    by (simp add: funpow_add [symmetric, THEN fun_cong, unfolded comp_def] algebra_simps)
  also have "\<dots> = (hop h ^^ (i + m * k)) v"
    by (simp add: assms [symmetric] funpow_add [symmetric, THEN fun_cong, unfolded comp_def] algebra_simps)
  finally show ?case using Suc.IH by simp
qed simp

section \<open>Properties\<close>

lemma mset_concat_map: "mset (concat (map f xs)) = (\<Sum>x \<in># mset xs. mset (f x))"
  by (induction xs) simp_all

text \<open>C30 The coverage check passes exactly the schemas in which every field of every object
  and interface the application declares is annotated, on an annotated type, or exempted by
  its path; when it fails, its error lists, in order, exactly the paths that are not; and it does
  not depend on the order in which Go ranges over the types.\<close>

theorem coverage_complete:
  "(assert_auth_coverage (Some (Some types)) exempt = None \<longleftrightarrow> open_paths types exempt = {})
   \<and> (open_paths types exempt \<noteq> {} \<longrightarrow> (\<exists>paths. sorted paths \<and> set paths = open_paths types exempt
        \<and> assert_auth_coverage (Some (Some types)) exempt = Some (coverage_error paths)))
   \<and> (mset types = mset types' \<longrightarrow>
        assert_auth_coverage (Some (Some types)) exempt = assert_auth_coverage (Some (Some types')) exempt)"
proof (intro conjI impI)
  let ?open = "concat (map (uncovered_of exempt) types)"
  have verdict: "assert_auth_coverage (Some (Some types)) exempt = (if ?open = [] then None else Some (coverage_error (sort ?open)))"
    by (simp add: assert_auth_coverage_def Let_def)
  have none: "?open = [] \<longleftrightarrow> open_paths types exempt = {}"
    by (metis set_empty uncovered_open)
  show "assert_auth_coverage (Some (Some types)) exempt = None \<longleftrightarrow> open_paths types exempt = {}"
    unfolding verdict none by simp
  show "\<exists>paths. sorted paths \<and> set paths = open_paths types exempt
        \<and> assert_auth_coverage (Some (Some types)) exempt = Some (coverage_error paths)" if "open_paths types exempt \<noteq> {}"
    unfolding verdict none using that uncovered_open [of exempt types] by (intro exI [of _ "sort ?open"]) simp
  assume "mset types = mset types'"
  then have "mset (concat (map (uncovered_of exempt) types)) = mset (concat (map (uncovered_of exempt) types'))"
    by (simp only: mset_concat_map)
  then have "sort (concat (map (uncovered_of exempt) types)) = sort (concat (map (uncovered_of exempt) types'))"
    and "concat (map (uncovered_of exempt) types) = [] \<longleftrightarrow> concat (map (uncovered_of exempt) types') = []"
    by (metis mset_sort properties_for_sort sorted_sort, metis mset_zero_iff)
  then show "assert_auth_coverage (Some (Some types)) exempt = assert_auth_coverage (Some (Some types')) exempt"
    by (simp only: assert_auth_coverage_def option.case Let_def)
qed

theorem coverage_complete_witness:
  "assert_auth_coverage (Some (Some [\<lparr>d_kind = KObject, d_name = ''Query'', d_directives = [],
      d_fields = [\<lparr>f_name = ''me'', f_directives = [''auth'']\<rparr>]\<rparr>])) [] = None
   \<and> assert_auth_coverage (Some (Some [\<lparr>d_kind = KInterface, d_name = ''Node'', d_directives = [],
      d_fields = [\<lparr>f_name = ''id'', f_directives = []\<rparr>]\<rparr>])) [] = Some (coverage_error [''Node.id''])"
proof
  show "assert_auth_coverage (Some (Some [\<lparr>d_kind = KObject, d_name = ''Query'', d_directives = [],
      d_fields = [\<lparr>f_name = ''me'', f_directives = [''auth'']\<rparr>]\<rparr>])) [] = None"
    using coverage_complete [of "[\<lparr>d_kind = KObject, d_name = ''Query'', d_directives = [],
      d_fields = [\<lparr>f_name = ''me'', f_directives = [''auth'']\<rparr>]\<rparr>]" "[]"]
    by (simp add: open_paths_def)
  let ?node = "[\<lparr>d_kind = KInterface, d_name = ''Node'', d_directives = [], d_fields = [\<lparr>f_name = ''id'', f_directives = []\<rparr>]\<rparr>]"
  have "uncovered_of [] (hd ?node) = [''Node.id'']"
    by (simp add: uncovered_of_def is_selectable_type_def has_auth_def)
  then show "assert_auth_coverage (Some (Some ?node)) [] = Some (coverage_error [''Node.id''])"
    by (simp add: assert_auth_coverage_def)
qed

text \<open>C36 AssertDirectivesWired returns unless its argument is a pointer that leads back to itself,
  however long the chain of pointers; what it returns is nil exactly when the chain ends at a
  struct none of whose func fields is unset.\<close>

theorem directives_wired:
  assumes "finite cells" and "\<And>a. h a \<noteq> NilPointer \<Longrightarrow> a \<in> cells"
  shows "(assert_directives_wired h type_name v = None \<longleftrightarrow>
      (\<exists>i k. 0 < k \<and> is_pointer ((hop h ^^ i) v) \<and> (hop h ^^ (i + k)) v = (hop h ^^ i) v))
    \<and> (assert_directives_wired h type_name v = Some None \<longleftrightarrow>
      (\<exists>i fs. (hop h ^^ i) v = Struct fs \<and> (\<forall>n. (n, FuncField True) \<notin> set fs)))"
proof
  let ?v = "\<lambda>i. (hop h ^^ i) v"
  have none: "assert_directives_wired h type_name v = None \<longleftrightarrow> (\<forall>i. is_pointer (?v i))"
    by (simp add: assert_directives_wired_def deref_ends)
  show "assert_directives_wired h type_name v = None \<longleftrightarrow> (\<exists>i k. 0 < k \<and> is_pointer (?v i) \<and> ?v (i + k) = ?v i)"
  proof
    assume "assert_directives_wired h type_name v = None"
    then have ptr: "is_pointer (?v i)" for i by (simp add: none)
    have "?v i \<in> Pointer ` cells" for i
    proof -
      from ptr [of i] obtain a where a: "?v i = Pointer a" by (auto simp: is_pointer_def)
      with ptr [of "Suc i"] have "h a \<noteq> NilPointer" by auto
      with a assms(2) show ?thesis by blast
    qed
    then have "range ?v \<subseteq> Pointer ` cells" by blast
    then have "finite (range ?v)" using assms(1) by (meson finite_imageI finite_subset)
    then have "\<not> inj ?v" using finite_imageD infinite_UNIV_nat by blast
    then obtain i j where "i < j" and "?v i = ?v j" by (metis injI linorder_neq_iff)
    then have "0 < j - i" "?v (i + (j - i)) = ?v i" by simp_all
    with ptr show "\<exists>i k. 0 < k \<and> is_pointer (?v i) \<and> ?v (i + k) = ?v i" by blast
  next
    assume "\<exists>i k. 0 < k \<and> is_pointer (?v i) \<and> ?v (i + k) = ?v i"
    then obtain i k where "0 < k" and ptr: "is_pointer (?v i)" and again: "?v i = ?v (i + k)" by metis
    have "is_pointer (?v n)" for n
    proof (rule ccontr)
      assume "\<not> is_pointer (?v n)"
      then have "\<not> is_pointer ((hop h ^^ m) (?v n))" for m by simp
      then have late: "\<not> is_pointer (?v (m + n))" for m by (simp add: funpow_add)
      have "n \<le> i + n * k" using \<open>0 < k\<close> by (cases k) simp_all
      then obtain m where "i + n * k = m + n" by (metis add.commute le_add_diff_inverse)
      with late [of m] hops_repeat [OF again, of n] ptr show False by simp
    qed
    then show "assert_directives_wired h type_name v = None" by (simp add: none)
  qed
next
  have nil: "wired_verdict type_name u = None \<longleftrightarrow> (\<exists>fs. u = Struct fs \<and> (\<forall>n. (n, FuncField True) \<notin> set fs))" for u
    by (cases u) (auto simp: wired_verdict_def missing_directives_empty)
  have struct: "deref h v = Some (Struct fs) \<longleftrightarrow> (\<exists>i. (hop h ^^ i) v = Struct fs)" for fs
    using deref_Some [of h v "Struct fs"] by (metis deref_hops is_pointer_simps(3))
  show "assert_directives_wired h type_name v = Some None \<longleftrightarrow>
      (\<exists>i fs. (hop h ^^ i) v = Struct fs \<and> (\<forall>n. (n, FuncField True) \<notin> set fs))"
    unfolding assert_directives_wired_def map_option_eq_Some nil using struct by blast
qed

text \<open>A pointer to a pointer to a struct returns; a pointer to itself does not.\<close>

theorem directives_wired_witness:
  "assert_directives_wired ((\<lambda>_. NilPointer)(0 := Pointer 1, 1 := Struct [(''Auth'', FuncField False)])) [] (Pointer 0) = Some None
   \<and> assert_directives_wired ((\<lambda>_. NilPointer)(0 := Pointer 0)) [] (Pointer 0) = None"
proof
  let ?h = "(\<lambda>_. NilPointer)(0 := Pointer 1, 1 := Struct [(''Auth'', FuncField False)])"
  have "(hop ?h ^^ 2) (Pointer 0) = Struct [(''Auth'', FuncField False)]"
    by (simp add: numeral_2_eq_2)
  then have ends: "\<exists>i fs. (hop ?h ^^ i) (Pointer 0) = Struct fs \<and> (\<forall>n. (n, FuncField True) \<notin> set fs)"
    by (intro exI [of _ 2] exI [of _ "[(''Auth'', FuncField False)]"]) simp
  have cells: "?h a \<noteq> NilPointer \<Longrightarrow> a \<in> {0, 1}" for a
    by (simp split: if_splits)
  show "assert_directives_wired ?h [] (Pointer 0) = Some None"
    by (rule directives_wired [OF _ cells, THEN conjunct2, THEN iffD2, OF _ _ ends]) simp_all
next
  let ?h = "(\<lambda>_. NilPointer)((0::nat) := Pointer 0)"
  have "0 < (1::nat) \<and> is_pointer ((hop ?h ^^ 0) (Pointer 0)) \<and> (hop ?h ^^ (0 + 1)) (Pointer 0) = (hop ?h ^^ 0) (Pointer 0)"
    by simp
  then have loops: "\<exists>i k. 0 < k \<and> is_pointer ((hop ?h ^^ i) (Pointer 0)) \<and> (hop ?h ^^ (i + k)) (Pointer 0) = (hop ?h ^^ i) (Pointer 0)"
    by blast
  have cells: "?h a \<noteq> NilPointer \<Longrightarrow> a \<in> {0}" for a
    by (simp split: if_splits)
  show "assert_directives_wired ?h [] (Pointer 0) = None"
    by (rule directives_wired [OF _ cells, THEN conjunct1, THEN iffD2, OF _ _ loops]) simp_all
qed

end
