(* ===== verification/Token_Facts.thy ===== *)
theory Token_Facts
  imports Account_Facts Histories
begin

text \<open>
  What the emailed-token flows promise: a link works once, for its purpose, before its
  deadline; recovery replaces the password and ends every session; asking changes nothing
  and answers everyone alike.
\<close>

section \<open>Redeeming\<close>

definition bad_link :: "goerr \<Rightarrow> bool" where
  "bad_link e \<longleftrightarrow> has_code CodeInvalidToken e"

lemma consume_run:
  assumes "consume token p E w = (r, w')"
  defines "hit \<equiv> redeemable (hash_token token) (purpose_text p) (db_clock E (step w))"
  shows "db_fails E (step w) \<and> r = Inl (Driver ''connection'')
      \<and> (w' = tick w \<or> db_applied E (step w)
          \<and> w' = (tick w)\<lparr>db := (db w)\<lparr>tokens := update_where hit
              (t_consumed_update (\<lambda>_. Some (db_clock E (step w)))) (tokens (db w))\<rparr>\<rparr>)
    \<or> \<not> db_fails E (step w)
      \<and> w' = (tick w)\<lparr>db := (db w)\<lparr>tokens := update_where hit
              (t_consumed_update (\<lambda>_. Some (db_clock E (step w)))) (tokens (db w))\<rparr>\<rparr>
      \<and> (case one_row (map t_user (filter hit (tokens (db w)))) of
           Inr user \<Rightarrow> r = Inr user
         | Inl e \<Rightarrow> r = Inl (if is_no_rows e
             then KalErr CodeInvalidToken ''this link is invalid or has expired'' (Some e) else e))"
  using assms(1) unfolding hit_def
  by (auto simp: consume_def query_one_def tryM_def bindM_def exec_def apply_stmt_def consume_token_sql_def lift_def
      ret_def fail_def tick_def split: if_splits sum.splits)

lemma consume_frame:
  "consume token p E w = (r, w') \<Longrightarrow> users (db w') = users (db w) \<and> sessions (db w') = sessions (db w)"
  by (drule consume_run) auto

lemma consume_Inr:
  assumes "consume token p E w = (Inr user, w')"
  obtains t where "t \<in> set (tokens (db w))" and "t_user t = user"
    and "redeemable (hash_token token) (purpose_text p) (db_clock E (step w)) t"
    and "consume_token_sql (hash_token token) (purpose_text p) (db_clock E (step w)) [] (db w) = Inr ([user], db w')"
    and "w' = (tick w)\<lparr>db := (db w)\<lparr>tokens := tokens (db w')\<rparr>\<rparr>"
proof -
  let ?hit = "redeemable (hash_token token) (purpose_text p) (db_clock E (step w))"
  have w': "w' = (tick w)\<lparr>db := (db w)\<lparr>tokens := update_where ?hit
              (t_consumed_update (\<lambda>_. Some (db_clock E (step w)))) (tokens (db w))\<rparr>\<rparr>"
    and one: "map t_user (filter ?hit (tokens (db w))) = [user]"
    using consume_run [OF assms] by (auto simp: one_row_Inr split: sum.splits if_splits)
  from one obtain t where "filter ?hit (tokens (db w)) = [t]" and "t_user t = user"
    by auto
  then have "t \<in> set (filter ?hit (tokens (db w)))" by simp
  with \<open>t_user t = user\<close> w' one show thesis
    by (intro that [of t]) (auto simp: consume_token_sql_def)
qed

lemma consume_spent:
  assumes "spent (hash_token token) (purpose_text p) (db_clock E (step w)) (db w)"
  shows "\<exists>e. fst (consume token p E w) = Inl e \<and> (db_fails E (step w) \<or> bad_link e)"
  using consume_run [of token p E w "fst (consume token p E w)" "snd (consume token p E w)"] assms
  by (auto simp: spent_def list_all_iff filter_empty_conv bad_link_def split: sum.splits)

text \<open>A row whose hash is taken is spent for every purpose once it is consumed for one.\<close>

lemma consumed_spent_all:
  assumes "wf_tokens (db w)" and "consume token p E w = (Inr user, w')"
  shows "spent (hash_token token) q (db_clock E (step w)) (db w')"
proof -
  obtain t where t: "t \<in> set (tokens (db w))"
    "redeemable (hash_token token) (purpose_text p) (db_clock E (step w)) t"
    and st: "consume_token_sql (hash_token token) (purpose_text p) (db_clock E (step w)) [] (db w) = Inr ([user], db w')"
    using assms(2) by (rule consume_Inr)
  show ?thesis
  proof (cases "q = purpose_text p")
    case True
    with consume_spends [OF st] show ?thesis by simp
  next
    case False
    have "spent (t_hash t) q (db_clock E (step w)) (db w)"
      by (rule spent_other_purpose [OF assms(1) t(1)]) (use t(2) False in \<open>auto simp: redeemable_def\<close>)
    moreover have "t_hash t = hash_token token"
      using t(2) by (simp add: redeemable_def)
    moreover have "apply_op U (Consume (hash_token token) (purpose_text p)) (db_clock E (step w)) [] (db w)
        = Some (db w')" for U
      using st by simp
    ultimately show ?thesis
      using apply_op_spent [where x = "Consume (hash_token token) (purpose_text p)"] by fastforce
  qed
qed

section \<open>Properties of the links\<close>

text \<open>C11 A link works once: after a token has been redeemed, no schedule of statements that does
  not issue the same token again makes it redeemable, for this purpose or any other; every
  later attempt is INVALID_TOKEN (or a failed query) and names no account.\<close>

theorem link_works_once:
  assumes "consume token p E w = (Inr user, w1)" and "wf_tokens (db w)"
    and "schedule U (db_clock E (step w)) (db w1) xs (db_clock E' (step w2)) (db w2)"
    and "list_all (\<lambda>x. \<not> reissues (hash_token token) x) xs"
  shows "\<exists>e. fst (consume token q E' w2) = Inl e \<and> (db_fails E' (step w2) \<or> has_code CodeInvalidToken e)"
  using consume_spent [OF schedule_spent [OF assms(3,4) consumed_spent_all [OF assms(2,1)]]]
  by (simp add: bad_link_def)

text \<open>A link works only for what it was mailed for: a token redeemed under another purpose is
  INVALID_TOKEN, names no account and leaves the tables as they were, so the real link still works.\<close>

theorem link_keeps_its_purpose:
  assumes "wf_tokens (db w)" and "r \<in> set (tokens (db w))" and "t_hash r = hash_token token"
    and "t_purpose r \<noteq> purpose_text p"
  shows "(\<exists>e. fst (consume token p E w) = Inl e \<and> (db_fails E (step w) \<or> has_code CodeInvalidToken e))
    \<and> db (snd (consume token p E w)) = db w"
proof -
  let ?hit = "redeemable (hash_token token) (purpose_text p) (db_clock E (step w))"
  have sp: "spent (hash_token token) (purpose_text p) (db_clock E (step w)) (db w)"
    using spent_other_purpose [OF assms(1,2)] assms(3,4) by metis
  then have "update_where ?hit f (tokens (db w)) = tokens (db w)" for f
    by (auto simp: spent_def list_all_iff update_where_def intro: map_idI)
  with consume_spent [OF sp] show ?thesis
    using consume_run [of token p E w "fst (consume token p E w)" "snd (consume token p E w)"]
    by (auto simp: bad_link_def)
qed

definition token_db :: database where
  "token_db = session_db\<lparr>tokens := [\<lparr>t_hash = hash_token ''tk'', t_user = ''u1'', t_purpose = ''reset'',
     t_expires = 5000000, t_consumed = None, t_created = 0\<rparr>]\<rparr>"

lemma token_db_simps [simp]:
  "users token_db = [sample_user]" "sessions token_db = [sample_session]"
  "tokens token_db = [\<lparr>t_hash = hash_token ''tk'', t_user = ''u1'', t_purpose = ''reset'',
     t_expires = 5000000, t_consumed = None, t_created = 0\<rparr>]"
  by (simp_all add: token_db_def)

lemma token_wf: "wf_db U token_db"
  using session_wf [of U] by (simp add: wf_db_def wf_defs has_user_def token_db_def)

lemma token_wf_tokens: "wf_tokens token_db"
  using token_wf by (simp add: wf_db_def)

lemma sample_consume_run:
  "consume ''tk'' PurposeReset sample_env (world_of token_db) = (Inr ''u1'', (tick (world_of token_db))
     \<lparr>db := token_db\<lparr>tokens := update_where (\<lambda>_. True) (t_consumed_update (\<lambda>_. Some 1000)) (tokens token_db)\<rparr>\<rparr>)"
  by (simp add: consume_def query_one_def tryM_def bindM_def exec_def consume_token_sql_def lift_def
      ret_def redeemable_def update_where_def)

theorem link_works_once_witness:
  "\<exists>w1 e. consume ''tk'' PurposeReset sample_env (world_of token_db) = (Inr ''u1'', w1)
     \<and> fst (consume ''tk'' PurposeReset sample_env w1) = Inl e \<and> has_code CodeInvalidToken e"
proof -
  obtain w1 where run: "consume ''tk'' PurposeReset sample_env (world_of token_db) = (Inr ''u1'', w1)"
    and st: "step w1 = 1"
    by (simp add: sample_consume_run)
  have "schedule sample_tables (db_clock sample_env (step (world_of token_db))) (db w1) []
      (db_clock sample_env (step w1)) (db w1)"
    by (rule schedule.wait) (simp add: st)
  from link_works_once [OF run _ this, of PurposeReset] run token_wf_tokens show ?thesis by auto
qed

theorem link_keeps_its_purpose_witness:
  "\<exists>e. fst (consume ''tk'' PurposeVerify sample_env (world_of token_db)) = Inl e \<and> has_code CodeInvalidToken e"
  using link_keeps_its_purpose [of "world_of token_db" "hd (tokens token_db)" "''tk''" PurposeVerify sample_env]
    token_wf_tokens by auto

section \<open>Recovery\<close>

lemma reset_password_Inr:
  assumes "reset_password A token pw E w = (Inr (), w')"
  obtains user w1 enc w2 w3 w4 where "ac_secret_shape A pw = None"
    and "consume token PurposeReset E w = (Inr user, w1)"
    and "hash_password (ac_hasher A) pw E w1 = (Inr enc, w2)"
    and "exec (set_password_sql enc user) E w2 = (Inr (), w3)"
    and "revoke_all_for_user (ac_sessions A) user E w3 = (Inr (), w4)"
    and "db w' = db w4" and "jar w' = jar w4"
proof -
  have shape: "ac_secret_shape A pw = None"
    using assms by (cases "ac_secret_shape A pw") (simp_all add: reset_password_def check_secret_def)
  with assms obtain user w1 enc w2 w3 w4 r w5 where parts:
    "consume token PurposeReset E w = (Inr user, w1)" "hash_password (ac_hasher A) pw E w1 = (Inr enc, w2)"
    "exec (set_password_sql enc user) E w2 = (Inr (), w3)"
    "revoke_all_for_user (ac_sessions A) user E w3 = (Inr (), w4)"
    and q: "query_one (email_by_id_sql user) E w4 = (r, w5)"
    and last: "(case r of Inr email \<Rightarrow> notify A email password_reset_mail | Inl e \<Rightarrow> ret ()) E w5 = (Inr (), w')"
    unfolding reset_password_def recover_def check_secret_def
    by (auto simp: tryM_Inr_iff elim!: bindM_run)
  have "db w5 = db w4 \<and> jar w5 = jar w4"
    using q by (auto simp: query_one_def tryM_def bindM_def exec_def email_by_id_sql_def lift_def fail_def
        split: if_splits sum.splits)
  moreover have "db w' = db w5 \<and> jar w' = jar w5"
    using last by (auto simp: ret_def split: sum.splits dest: notify_run)
  ultimately show thesis
    using shape parts by (intro that [of user w1 enc w2 w3 w4]) auto
qed

text \<open>C13 Recovery replaces the password and ends every session: a reset that returns has redeemed a
  live reset token, set exactly its owner's hash to one the new password matches, queued no
  cookie, and from then on no token the owner had resolves, under any schedule.\<close>

theorem recovery_replaces_credentials:
  assumes "reset_password A token pw E w = (Inr (), w')" and "wf_db U (db w)"
    and "argon2_ok E" and "envelope (h_params (ac_hasher A))"
    and "schedule U t (db w') xs t' d'"
  shows "\<exists>row enc now. row \<in> set (tokens (db w))
    \<and> redeemable (hash_token token) ''reset'' (db_clock E (step w)) row
    \<and> users (db w') = update_where (\<lambda>u. u_id u = t_user row)
          (\<lambda>u. u\<lparr>u_hash := Some enc, u_updated := now\<rparr>) (users (db w))
    \<and> matches E pw enc \<and> jar w' = jar w
    \<and> (\<forall>s old. s \<in> set (sessions (db w)) \<and> s_user s = t_user row \<and> s_token s = hash_token old
          \<longrightarrow> resolve t' d' old = None)"
proof -
  obtain user w1 enc w2 w3 w4 where c: "consume token PurposeReset E w = (Inr user, w1)"
    and h: "hash_password (ac_hasher A) pw E w1 = (Inr enc, w2)"
    and sp: "exec (set_password_sql enc user) E w2 = (Inr (), w3)"
    and rv: "revoke_all_for_user (ac_sessions A) user E w3 = (Inr (), w4)"
    and w': "db w' = db w4" "jar w' = jar w4"
    using assms(1) by (rule reset_password_Inr)
  obtain row where row: "row \<in> set (tokens (db w))" "t_user row = user"
    "redeemable (hash_token token) ''reset'' (db_clock E (step w)) row"
    and w1: "w1 = (tick w)\<lparr>db := (db w)\<lparr>tokens := tokens (db w1)\<rparr>\<rparr>"
    and st: "consume_token_sql (hash_token token) ''reset'' (db_clock E (step w)) [] (db w) = Inr ([user], db w1)"
    using c by (elim consume_Inr) simp
  note hm = hash_password_matches [OF h assms(3,4)] and r = revoke_all_Inr [OF rv]
  have w3: "db w3 = (db w1)\<lparr>users := update_where (\<lambda>u. u_id u = user)
      (\<lambda>u. u\<lparr>u_hash := Some enc, u_updated := db_clock E (step w2)\<rparr>) (users (db w1))\<rparr>"
    using sp hm(2) by (auto elim!: exec_Inr simp: set_password_sql_def)
  have d1: "users (db w1) = users (db w)" "sessions (db w1) = sessions (db w)"
    using consume_frame [OF c] by simp_all
  have "wf_db U (db w1)"
    by (rule apply_op_wf [OF assms(2), where x = "Consume (hash_token token) ''reset''" and
          now = "db_clock E (step w)" and uid = "[]"]) (simp add: st)
  then have wf3: "wf_db U (db w3)"
    by (rule apply_op_wf [where x = "Set_password enc user" and now = "db_clock E (step w2)"])
      (simp add: w3 set_password_sql_def)
  have "resolve t' d' old = None" if "s \<in> set (sessions (db w))" "s_user s = user" "s_token s = hash_token old" for s old
    by (rule revoked_rows_final [OF r wf3]) (use that assms(5) d1 w' in \<open>auto simp: w3\<close>)
  moreover have "jar w4 = jar w"
  proof -
    have "jar w4 = jar w2"
      using keepsD [OF jars_effects(1) sp] keepsD [OF jars_session(6) rv] by (simp add: same_jar_def)
    also have "jar w2 = jar w1" by (simp add: hm(2))
    also have "jar w1 = jar w" by (subst w1) simp
    finally show ?thesis .
  qed
  ultimately show ?thesis
    using row hm(1) w' r w3 d1
    by (intro exI [of _ row] exI [of _ enc] exI [of _ "db_clock E (step w2)"]) auto
qed

lemma sample_reset_run:
  "\<exists>w'. reset_password sample_accounts ''tk'' ''a new secret'' sample_env (world_of token_db) = (Inr (), w')"
  by (simp add: reset_password_def recover_def sample_consume_run check_secret_def sample_secret tryM_def bindM_def exec_def
      query_one_def lift_def ret_def hash_password_def within_bound_eq busy_def hash_bytes_def rand_read_def
      id_key_def with_env_def count_hash_def sample_argon2_def set_password_sql_def update_where_def
      revoke_all_for_user_def revoke_all_sql_def emit_def email_by_id_sql_def live_user_def notify_def
      send_mail_def Let_def
      del: upt_Suc upt_rec_numeral sample_env_simps(7))

lemma sample_envelope: "envelope (h_params (ac_hasher sample_accounts))"
  by (simp add: envelope_def sample_hasher_def params_defaults_def)

theorem recovery_replaces_credentials_witness:
  "\<exists>w'. reset_password sample_accounts ''tk'' ''a new secret'' sample_env (world_of token_db) = (Inr (), w')
     \<and> resolve 9 (db w') ''tok'' = None
     \<and> (\<exists>enc. u_hash (hd (users (db w'))) = Some enc \<and> matches sample_env ''a new secret'' enc)"
proof -
  obtain w' where run: "reset_password sample_accounts ''tk'' ''a new secret'' sample_env (world_of token_db) = (Inr (), w')"
    using sample_reset_run by blast
  have idle: "schedule sample_tables 0 (db w') [] 9 (db w')"
    by (rule schedule.wait) simp
  have "wf_db sample_tables (db (world_of token_db))"
    by (simp add: token_wf)
  from recovery_replaces_credentials [OF run this sample_argon2_ok sample_envelope idle] run show ?thesis
    by (auto simp: update_where_def)
qed

text \<open>A reset that is refused for want of a hashing slot has still used up the link: after
  RATE_LIMITED the password and the sessions are the old ones and the token is redeemable for no
  purpose any more, so trying again is INVALID_TOKEN.\<close>

theorem rate_limited_reset_burns_link:
  assumes "reset_password A token pw E w = (Inl e, w')" and "has_code CodeRateLimited e"
    and "\<And>s x. ac_secret_shape A s = Some x \<Longrightarrow> \<not> has_code CodeRateLimited x" and "wf_tokens (db w)"
  shows "users (db w') = users (db w) \<and> sessions (db w') = sessions (db w)
    \<and> spent (hash_token token) purpose (db_clock E (step w)) (db w')"
proof -
  let ?C = "- {CodeRateLimited}"
  have other: "CodeInvalidToken \<noteq> CodeRateLimited" by (simp add: code_defs)
  have secret: "raises (codes_in ?C) E (check_secret A pw)"
    by (rule codes.raises_secret) (use assms(3) in \<open>auto simp: codes_in_def has_code_def split: option.split\<close>)
  have cons: "raises (codes_in ?C) E (consume token PurposeReset)"
    by (rule codes.raises_consume) (simp add: other)
  have tail: "raises (codes_in ?C) E (tryM (exec (set_password_sql hash user)) (\<lambda>_.
     tryM (revoke_all_for_user (ac_sessions A) user) (\<lambda>_.
     bindM (query_one (email_by_id_sql user)) (\<lambda>r. case r of
       Inr email \<Rightarrow> notify A email password_reset_mail
     | Inl e \<Rightarrow> ret ()))))" for hash user
    by (intro codes.raises_rules codes.raises_sessions codes.raises_helpers guar)
  obtain u0 w0 where s0: "check_secret A pw E w = (Inr u0, w0)"
    and run1: "tryM (consume token PurposeReset) (\<lambda>user. recover A user pw) E w0 = (Inl e, w')"
    using assms(1) [unfolded reset_password_def] assms(2) secret by (rule code_tryM)
  have w0: "w0 = w"
    using s0 by (auto simp: check_secret_def ret_def split: option.splits)
  obtain user w1 where c: "consume token PurposeReset E w = (Inr user, w1)"
    and run2: "recover A user pw E w1 = (Inl e, w')"
    using run1 [unfolded w0] assms(2) cons by (rule code_tryM)
  have "hash_password (ac_hasher A) pw E w1 = (Inl e, w')"
    using run2 [unfolded recover_def] by (rule tryM_Inl) (use not_coded [OF tail] assms(2) in auto)
  then have "db w' = db w1"
    using keepsD [OF hashing_effects(10)] by (fastforce simp: same_db_def)
  moreover have "users (db w1) = users (db w)" "sessions (db w1) = sessions (db w)"
    using consume_frame [OF c] by simp_all
  ultimately show ?thesis
    using consumed_spent_all [OF assms(4) c] by simp
qed

theorem rate_limited_reset_burns_link_witness:
  "\<exists>e w'. reset_password sample_accounts ''tk'' ''a new secret'' sample_env
       ((world_of token_db)\<lparr>in_flight := 4\<rparr>) = (Inl e, w')
     \<and> has_code CodeRateLimited e \<and> spent (hash_token ''tk'') ''reset'' 1000 (db w')"
proof -
  let ?w = "(world_of token_db)\<lparr>in_flight := 4\<rparr>"
  obtain w' where run: "reset_password sample_accounts ''tk'' ''a new secret'' sample_env ?w = (Inl try_again, w')"
    by (simp add: reset_password_def recover_def consume_def query_one_def tryM_def bindM_def exec_def
        consume_token_sql_def lift_def ret_def fail_def redeemable_def update_where_def check_secret_def
        sample_secret hash_password_def within_bound_eq busy_def)
  have "\<not> has_code CodeRateLimited x" if "ac_secret_shape sample_accounts s = Some x" for s x
    using that by (auto simp: validate_password_def invalid_input_def code_defs split: if_splits)
  from rate_limited_reset_burns_link [OF run _ this, where purpose = "''reset''"] run token_wf_tokens show ?thesis
    by (auto simp: try_again_def)
qed

section \<open>Asking\<close>

text \<open>Nothing the environment decides goes wrong but, perhaps, mail and the hashing slots.\<close>

definition calm_env :: "env \<Rightarrow> bool" where
  "calm_env E \<longleftrightarrow> (\<forall>n. \<not> db_fails E n \<and> \<not> rand_fails E n)"

lemma notify_Inr: "notify A to msg E w = (Inr (), snd (notify A to msg E w))"
  using notify_run [of A to msg E w "fst (notify A to msg E w)"] by (metis prod.collapse)

lemma notify_runs: "hash_runs (snd (notify A to msg E w)) = hash_runs w"
  by (simp add: notify_def bindM_def send_mail_def emit_def ret_def)

lemma mint_calm:
  assumes "calm_env E" and "has_user (db w) user"
  shows "\<exists>token w'. mint user p E w = (Inr token, w') \<and> hash_runs w' = hash_runs w"
  using assms
  by (simp add: mint_def new_token_def tryM_def bindM_def rand_read_def exec_def insert_token_sql_def
      ret_def calm_env_def Let_def)

lemma mint_notify_calm:
  assumes "calm_env E" and "has_user (db w) user"
  shows "\<exists>w'. tryM (mint user p) (\<lambda>token. notify A email (f token)) E w = (Inr (), w') \<and> hash_runs w' = hash_runs w"
proof -
  obtain token w1 where "mint user p E w = (Inr token, w1)" "hash_runs w1 = hash_runs w"
    using mint_calm [OF assms] by blast
  then show ?thesis
    using notify_Inr [of A email "f token" E w1] notify_runs [of A email "f token" E w1]
    by (intro exI [of _ "snd (notify A email (f token) E w1)"]) (simp add: tryM_def bindM_def)
qed

definition fresh_uuid :: "env \<Rightarrow> database \<Rightarrow> bool" where
  "fresh_uuid E d \<longleftrightarrow> (\<forall>n. \<forall>u \<in> set (users d). u_id u \<noteq> new_uuid E n)"

lemma insert_user_calm:
  assumes "calm_env E" and "fresh_uuid E (db w)"
  shows "(\<exists>w1. query_one (insert_user_sql (unicode E) email hash) E w = (Inl NoRows, w1) \<and> hash_runs w1 = hash_runs w)
    \<or> (\<exists>w1 user. query_one (insert_user_sql (unicode E) email hash) E w = (Inr user, w1)
         \<and> hash_runs w1 = hash_runs w \<and> has_user (db w1) user)"
proof -
  have "\<not> list_ex (\<lambda>u. u_id u = new_uuid E (step w)) (users (db w))"
    using assms(2) by (auto simp: fresh_uuid_def list_ex_iff)
  with assms(1) show ?thesis
    by (auto simp: calm_env_def query_one_def tryM_def bindM_def exec_def insert_user_sql_def
        insert_account_def lift_def has_user_def)
qed

lemma enrol_calm:
  assumes "calm_env E" and "fresh_uuid E (db w)"
  shows "\<exists>w'. enrol A email hash E w = (Inr (), w') \<and> hash_runs w' = hash_runs w"
  using insert_user_calm [OF assms, of email hash]
proof (elim disjE exE conjE)
  fix w1
  assume "query_one (insert_user_sql (unicode E) email hash) E w = (Inl NoRows, w1)" and "hash_runs w1 = hash_runs w"
  then show ?thesis
    using notify_Inr [of A email "attempted_register_mail (ac_base_url A)" E w1]
      notify_runs [of A email "attempted_register_mail (ac_base_url A)" E w1]
    by (auto simp: enrol_def with_env_def bindM_def)
next
  fix w1 user
  assume "query_one (insert_user_sql (unicode E) email hash) E w = (Inr user, w1)"
    and "hash_runs w1 = hash_runs w" and "has_user (db w1) user"
  then show ?thesis
    using mint_notify_calm [OF assms(1), of w1 user PurposeVerify A email "\<lambda>t. verify_mail (link A ''verify'' t)"]
    by (simp add: enrol_def with_env_def bindM_def)
qed

lemma register_eq:
  "register A email pw E w =
     (if \<not> plausible_address (normalise (unicode E) email) then (Inl address_error, w)
      else case ac_secret_shape A pw of Some e \<Rightarrow> (Inl e, w)
         | None \<Rightarrow> (case hash_password (ac_hasher A) pw E w of
             (Inl e, w1) \<Rightarrow> (Inl e, w1)
           | (Inr enc, w1) \<Rightarrow> enrol A (normalise (unicode E) email) enc E w1))"
  by (simp add: register_def with_env_def Let_def check_secret_def tryM_def bindM_def fail_def ret_def
      split: option.split prod.split sum.split)

text \<open>A hash reads nothing of the tables.\<close>

lemma hash_password_cong:
  assumes "step v = step w" and "in_flight v = in_flight w"
  shows "fst (hash_password H pw E v) = fst (hash_password H pw E w)"
    and "hash_runs (snd (hash_password H pw E v)) + hash_runs w
       = hash_runs (snd (hash_password H pw E w)) + hash_runs v"
  using assms
  by (auto simp: hash_password_def within_bound_eq busy_def hash_bytes_def rand_read_def id_key_def prog_defs
      count_hash_def split: option.split)

text \<open>A program that writes no table but the tokens.\<close>

definition only_tokens :: "env \<Rightarrow> world \<Rightarrow> world \<Rightarrow> bool" where
  "only_tokens E w w' \<longleftrightarrow> (\<exists>t. db w' = (db w)\<lparr>tokens := t\<rparr>) \<and> hash_runs w' = hash_runs w \<and> jar w' = jar w"

lemma same_but_tokens [simp]: "\<exists>t. d = d\<lparr>tokens := t\<rparr>"
  by (rule exI [of _ "tokens d"]) simp

interpretation asking: guarantee only_tokens
  by unfold_locales (auto simp: only_tokens_def)

lemma only_tokens_exec:
  assumes "\<And>now uid d r d'. st now uid d = Inr (r, d') \<Longrightarrow> \<exists>t. d' = d\<lparr>tokens := t\<rparr>"
  shows "keeps only_tokens E (exec st)"
proof (rule keepsI)
  fix w r w'
  assume run: "exec st E w = (r, w')"
  then have "\<exists>t. db w' = (db w)\<lparr>tokens := t\<rparr>"
  proof (cases rule: exec_db)
    case kept
    then show ?thesis by simp
  next
    case (applied x)
    from assms [OF this] show ?thesis .
  qed
  with exec_frame [OF run] show "only_tokens E w w'"
    by (simp add: only_tokens_def)
qed

lemma only_tokens_effects [guar]:
  "keeps only_tokens E (emit hook e)" "keeps only_tokens E (send_mail to msg)" "keeps only_tokens E (rand_read n)"
  "keeps only_tokens E (log_printf l)"
  by (auto simp: keeps_def only_tokens_def log_printf_def emit_def send_mail_def rand_read_def)

lemma only_tokens_statements [guar]:
  "keeps only_tokens E (exec (insert_token_sql h u p ttl))" "keeps only_tokens E (exec (user_id_by_email_sql U x))"
  by (rule only_tokens_exec; auto simp: insert_token_sql_def user_id_by_email_sql_def split: if_splits)+

lemma only_tokens_helpers [guar]:
  "keeps only_tokens E (notify A to msg)" "keeps only_tokens E (mint user p)"
  unfolding notify_def mint_def new_token_def Let_def by (intro asking.keeps_rules guar)+

lemma request_calm:
  assumes "calm_env E" and "wf_users (unicode E) (db w)"
  shows "fst (request_password_reset A email E w) = Inr ()"
proof (cases "\<exists>u \<in> set (users (db w)). live_email (unicode E) (normalise (unicode E) email) u")
  case True
  then obtain u where u: "u \<in> set (users (db w))" "live_email (unicode E) (normalise (unicode E) email) u"
    by blast
  then have "query_one (user_id_by_email_sql (unicode E) (normalise (unicode E) email)) E w = (Inr (u_id u), tick w)"
    using assms by (simp add: query_one_def tryM_def bindM_def exec_def user_id_by_email_sql_def lift_def
        live_email_unique calm_env_def tick_def)
  moreover have "has_user (db (tick w)) (u_id u)"
    using u(1) by (auto simp: has_user_def list_ex_iff)
  from mint_notify_calm [OF assms(1) this, of PurposeReset A "normalise (unicode E) email"
      "\<lambda>t. reset_mail (link A ''reset'' t)"]
  obtain w' where "tryM (mint (u_id u) PurposeReset) (\<lambda>token. notify A (normalise (unicode E) email)
      (reset_mail (link A ''reset'' token))) E (tick w) = (Inr (), w')"
    by blast
  ultimately show ?thesis
    by (simp add: request_password_reset_def with_env_def Let_def bindM_def)
next
  case False
  then have "query_one (user_id_by_email_sql (unicode E) (normalise (unicode E) email)) E w = (Inl NoRows, tick w)"
    using assms(1) by (simp add: query_one_def tryM_def bindM_def exec_def user_id_by_email_sql_def lift_def
        calm_env_def tick_def filter_empty_conv [THEN iffD2])
  then show ?thesis
    using notify_Inr by (simp add: request_password_reset_def with_env_def Let_def bindM_def) (metis fst_conv)
qed

text \<open>C35 Registration answers alike whether or not the address has an account: with the database
  and the CSPRNG working, two worlds that agree on the slots in use give the caller the same
  answer for the same input and spend the same number of password hashes, whatever accounts,
  sessions and tokens either of them holds.\<close>

theorem register_answers_alike:
  assumes "calm_env E" and "step v = step w" and "in_flight v = in_flight w"
    and "fresh_uuid E (db v)" and "fresh_uuid E (db w)"
  shows "fst (register A email pw E v) = fst (register A email pw E w)
    \<and> hash_runs (snd (register A email pw E v)) + hash_runs w
      = hash_runs (snd (register A email pw E w)) + hash_runs v"
proof -
  obtain rv v1 rw w1 where hv: "hash_password (ac_hasher A) pw E v = (rv, v1)"
    and hw: "hash_password (ac_hasher A) pw E w = (rw, w1)"
    by fastforce
  have "rv = rw" and runs: "hash_runs v1 + hash_runs w = hash_runs w1 + hash_runs v"
    using hash_password_cong [OF assms(2,3), of "ac_hasher A" pw E] by (simp_all add: hv hw)
  have fresh: "fresh_uuid E (db v1)" "fresh_uuid E (db w1)"
    using keepsD [OF hashing_effects(10) hv] keepsD [OF hashing_effects(10) hw] assms(4,5)
    by (simp_all add: same_db_def)
  let ?email = "normalise (unicode E) email"
  show ?thesis
  proof (cases rw)
    case (Inl e)
    with runs \<open>rv = rw\<close> show ?thesis
      by (simp add: register_eq hv hw split: option.split)
  next
    case (Inr enc)
    obtain v2 where "enrol A ?email enc E v1 = (Inr (), v2)" "hash_runs v2 = hash_runs v1"
      using enrol_calm [OF assms(1) fresh(1), of A ?email enc] by blast
    moreover obtain w2 where "enrol A ?email enc E w1 = (Inr (), w2)" "hash_runs w2 = hash_runs w1"
      using enrol_calm [OF assms(1) fresh(2), of A ?email enc] by blast
    ultimately show ?thesis
      using Inr runs \<open>rv = rw\<close> by (simp add: register_eq hv hw split: option.split)
  qed
qed

lemma sample_calm: "calm_env sample_env"
  by (simp add: calm_env_def)

lemma sample_fresh: "fresh_uuid sample_env sample_db" "fresh_uuid sample_env empty_db"
  by (simp_all add: fresh_uuid_def empty_db_def)

theorem register_answers_alike_witness:
  "fst (register sample_accounts ''a@x.io'' ''a new secret'' sample_env (world_of sample_db))
     = fst (register sample_accounts ''a@x.io'' ''a new secret'' sample_env (world_of empty_db))"
  using register_answers_alike [OF sample_calm, of "world_of sample_db" "world_of empty_db"] sample_fresh
  by simp

text \<open>Asking for a reset changes nothing on the account: whatever happens, of the tables only the
  tokens may differ afterwards, no cookie is queued, and with the database and the CSPRNG working
  the answer is success for every address, known or not.\<close>

theorem reset_request_harmless:
  assumes "wf_users (unicode E) (db w)"
  shows "\<exists>r w'. request_password_reset A email E w = (r, w')
    \<and> (\<exists>t. db w' = (db w)\<lparr>tokens := t\<rparr>) \<and> jar w' = jar w \<and> hash_runs w' = hash_runs w
    \<and> (calm_env E \<longrightarrow> r = Inr ())"
proof -
  let ?m = "request_password_reset A email"
  obtain r w' where run: "?m E w = (r, w')" by fastforce
  have "keeps only_tokens E ?m"
    unfolding request_password_reset_def Let_def by (intro asking.keeps_rules guar)
  then have "only_tokens E w w'" using run by (rule keepsD)
  moreover have "r = Inr ()" if "calm_env E"
    using run request_calm [OF that assms, of A email] by simp
  ultimately show ?thesis
    using run by (auto simp: only_tokens_def)
qed

theorem reset_request_harmless_witness:
  "\<exists>w' v'. request_password_reset sample_accounts ''a@x.io'' sample_env (world_of sample_db) = (Inr (), w')
     \<and> request_password_reset sample_accounts ''b@x.io'' sample_env (world_of sample_db) = (Inr (), v')
     \<and> users (db w') = [sample_user] \<and> users (db v') = [sample_user]"
proof -
  have wf: "wf_users (unicode sample_env) (db (world_of sample_db))"
    using sample_wf by (simp add: wf_db_def)
  obtain w' t where "request_password_reset sample_accounts ''a@x.io'' sample_env (world_of sample_db) = (Inr (), w')"
    "db w' = sample_db\<lparr>tokens := t\<rparr>"
    using reset_request_harmless [OF wf, of sample_accounts "''a@x.io''"] sample_calm by auto
  moreover obtain v' t' where
    "request_password_reset sample_accounts ''b@x.io'' sample_env (world_of sample_db) = (Inr (), v')"
    "db v' = sample_db\<lparr>tokens := t'\<rparr>"
    using reset_request_harmless [OF wf, of sample_accounts "''b@x.io''"] sample_calm by auto
  ultimately show ?thesis by auto
qed

end
