(* ===== verification/Session_Directory.thy ===== *)
theory Session_Directory
  imports Session_Store
begin

text \<open>
  What the session table is for, without the table: a directory of the sessions that have not
  been revoked, by id. The statements of \<open>session/sql.go\<close> are shown to implement the
  directory's six operations, under every schedule, and a token to stand for a caller exactly
  when the directory holds a session with its hash, alive, of a live account.
\<close>

section \<open>The directory\<close>

record entry =
  en_token :: "byte list"
  en_user :: string
  en_since :: int
  en_seen :: int
  en_idle :: int
  en_until :: int
  en_mfa :: "int option"

type_synonym directory = "string \<Rightarrow> entry option"

definition alive :: "int \<Rightarrow> entry \<Rightarrow> bool" where
  "alive now e \<longleftrightarrow> now < en_idle e \<and> now < en_until e"

definition refresh :: "int \<Rightarrow> int \<Rightarrow> entry \<Rightarrow> entry" where
  "refresh now idle e = e\<lparr>en_seen := now, en_idle := now + idle\<rparr>"

definition adjust :: "(string \<Rightarrow> entry \<Rightarrow> bool) \<Rightarrow> (entry \<Rightarrow> entry) \<Rightarrow> directory \<Rightarrow> directory" where
  "adjust p f m = (\<lambda>sid. map_option (\<lambda>e. if p sid e then f e else e) (m sid))"

text \<open>
  A session begins, is seen, gets a new token, records a second factor, ends, or ends with all
  of its user's. No other operation is one on sessions.
\<close>

fun dir_step :: "op \<Rightarrow> int \<Rightarrow> string \<Rightarrow> directory \<Rightarrow> directory" where
  "dir_step (Issue h u idle absolute ua ip) now uid m =
     m(uid \<mapsto> \<lparr>en_token = h, en_user = u, en_since = now, en_seen = now, en_idle = now + idle,
               en_until = now + absolute, en_mfa = None\<rparr>)"
| "dir_step (Lookup h idle) now uid m =
     adjust (\<lambda>_ e. en_token e = h \<and> alive now e \<and> en_seen e < now - seconds 60) (refresh now idle) m"
| "dir_step (Rotate h idle sid) now uid m =
     adjust (\<lambda>i e. i = sid \<and> alive now e) (\<lambda>e. refresh now idle (e\<lparr>en_token := h\<rparr>)) m"
| "dir_step (Record_mfa sid u) now uid m =
     adjust (\<lambda>i e. i = sid \<and> en_user e = u \<and> alive now e) (en_mfa_update (\<lambda>_. Some now)) m"
| "dir_step (Revoke sid) now uid m = m(sid := None)"
| "dir_step (Revoke_all u) now uid m =
     (\<lambda>i. case m i of None \<Rightarrow> None | Some e \<Rightarrow> if en_user e = u then None else Some e)"
| "dir_step _ now uid m = m"

inductive dir_run :: "int \<Rightarrow> directory \<Rightarrow> op list \<Rightarrow> int \<Rightarrow> directory \<Rightarrow> bool" where
  rest: "t \<le> t' \<Longrightarrow> dir_run t m [] t' m"
| step: "t \<le> t1 \<Longrightarrow> dir_run t1 (dir_step x t1 uid m) xs t' m' \<Longrightarrow> dir_run t m (x # xs) t' m'"

section \<open>The table as a directory\<close>

definition entry_of :: "session_row \<Rightarrow> entry" where
  "entry_of s = \<lparr>en_token = s_token s, en_user = s_user s, en_since = s_created s,
     en_seen = s_last_seen s, en_idle = s_idle_exp s, en_until = s_exp s, en_mfa = s_mfa s\<rparr>"

definition unrevoked :: "session_row \<Rightarrow> entry option" where
  "unrevoked s = (if s_revoked s = None then Some (entry_of s) else None)"

definition directory :: "database \<Rightarrow> directory" where
  "directory d = (\<lambda>sid. Option.bind (find (\<lambda>s. s_id s = sid) (sessions d)) unrevoked)"

lemma entry_of_simps [simp]:
  "en_token (entry_of s) = s_token s" "en_user (entry_of s) = s_user s" "en_since (entry_of s) = s_created s"
  "en_seen (entry_of s) = s_last_seen s" "en_idle (entry_of s) = s_idle_exp s"
  "en_until (entry_of s) = s_exp s" "en_mfa (entry_of s) = s_mfa s"
  by (simp_all add: entry_of_def)

lemma alive_entry: "s_revoked s = None \<Longrightarrow> alive now (entry_of s) \<longleftrightarrow> live_session now s"
  by (simp add: alive_def live_session_def)

lemma directory_Some:
  assumes "wf_sessions d"
  shows "directory d sid = Some e \<longleftrightarrow>
    (\<exists>s \<in> set (sessions d). s_id s = sid \<and> s_revoked s = None \<and> e = entry_of s)"
proof -
  have "find (\<lambda>s. s_id s = sid) (sessions d) = Some s" if "s \<in> set (sessions d)" "s_id s = sid" for s
    using find_key_Some [of s_id "sessions d" s] that assms by (simp add: wf_sessions_def)
  then show ?thesis
    by (auto simp: directory_def unrevoked_def bind_eq_Some_conv split: if_splits dest: find_SomeD)
qed

text \<open>An update of the table that leaves the ids alone, seen from the directory.\<close>

lemma directory_update:
  assumes "\<And>s. s_id (f s) = s_id s"
  shows "directory (d\<lparr>sessions := update_where p f (sessions d)\<rparr>) sid
    = Option.bind (find (\<lambda>s. s_id s = sid) (sessions d)) (\<lambda>s. unrevoked (if p s then f s else s))"
  unfolding directory_def using find_update_where_key [where k = s_id, OF assms]
  by (cases "find (\<lambda>s. s_id s = sid) (sessions d)") simp_all

lemma directory_adjust:
  assumes "\<And>s. s_id (f s) = s_id s"
    and "\<And>s. p s \<Longrightarrow> s_revoked s = None \<Longrightarrow> unrevoked (f s) = Some (g (entry_of s))"
    and "\<And>s. s_revoked s \<noteq> None \<Longrightarrow> \<not> p s"
    and "\<And>s. s_revoked s = None \<Longrightarrow> p s \<longleftrightarrow> q (s_id s) (entry_of s)"
  shows "directory (d\<lparr>sessions := update_where p f (sessions d)\<rparr>) = adjust q g (directory d)"
proof
  fix sid
  show "directory (d\<lparr>sessions := update_where p f (sessions d)\<rparr>) sid = adjust q g (directory d) sid"
  proof (cases "find (\<lambda>s. s_id s = sid) (sessions d)")
    case None
    then show ?thesis
      using directory_update [OF assms(1)] by (simp add: adjust_def directory_def)
  next
    case (Some s)
    then have "s_id s = sid" by (auto dest: find_SomeD)
    with Some assms(2-4) [of s] show ?thesis
      by (subst directory_update [OF assms(1)])
        (auto simp: adjust_def directory_def unrevoked_def split: if_splits)
  qed
qed

text \<open>Ending the sessions of a kind.\<close>

lemma directory_revoke:
  assumes "\<And>s. q s \<longleftrightarrow> r (s_id s) (entry_of s)"
  shows "directory (d\<lparr>sessions := update_where (\<lambda>s. q s \<and> s_revoked s = None) (s_revoked_update (\<lambda>_. Some now))
      (sessions d)\<rparr>) sid = (case directory d sid of None \<Rightarrow> None | Some e \<Rightarrow> if r sid e then None else Some e)"
proof (cases "find (\<lambda>s. s_id s = sid) (sessions d)")
  case None
  then show ?thesis
    by (subst directory_update) (simp_all add: directory_def)
next
  case (Some s)
  then have "s_id s = sid" by (auto dest: find_SomeD)
  with Some assms show ?thesis
    by (subst directory_update) (auto simp: directory_def unrevoked_def)
qed

lemma directory_cong: "sessions d' = sessions d \<Longrightarrow> directory d' = directory d"
  by (simp add: directory_def)

lemmas row_steps = unrevoked_def touch_def refresh_def entry_of_def alive_def live_session_def

text \<open>Every statement is the step of the directory it should be.\<close>

lemma apply_op_directory:
  assumes "apply_op U x now uid d = Some d'" and "wf_sessions d"
  shows "directory d' = dir_step x now uid (directory d)"
proof (cases x)
  case (Issue h u i a ua ip)
  with assms(1) have fresh: "\<And>s. s \<in> set (sessions d) \<Longrightarrow> s_id s \<noteq> uid"
    and d': "sessions d' = sessions d @ [\<lparr>s_id = uid, s_token = h, s_user = u, s_created = now, s_last_seen = now,
        s_idle_exp = now + i, s_exp = now + a, s_mfa = None, s_ua = ua, s_ip = ip, s_revoked = None\<rparr>]"
    by (auto simp: issue_sql_def list_ex_iff split: if_splits)
  have "find (\<lambda>s. s_id s = uid) (sessions d) = None"
    using fresh by (auto simp: find_None_iff)
  with d' Issue show ?thesis
    by (auto simp: fun_eq_iff directory_def find_append unrevoked_def entry_of_def split: option.split)
next
  case (Lookup h i)
  with assms(1) show ?thesis
    by (auto simp: lookup_sql_def row_steps intro!: directory_adjust)
next
  case (Rotate h i sid)
  with assms(1) show ?thesis
    by (auto simp: rotate_sql_def Let_def row_steps split: if_splits intro!: directory_adjust)
next
  case (Record_mfa sid u)
  with assms(1) show ?thesis
    by (auto simp: record_mfa_sql_def row_steps intro!: directory_adjust)
next
  case (Revoke sid)
  with assms(1) show ?thesis
    using directory_revoke [where q = "\<lambda>s. s_id s = sid" and r = "\<lambda>i e. i = sid" and d = d and now = now]
    by (auto simp: revoke_sql_def fun_eq_iff split: option.split)
next
  case (Revoke_all u)
  with assms(1) show ?thesis
    using directory_revoke [where q = "\<lambda>s. s_user s = u" and r = "\<lambda>i e. en_user e = u" and d = d and now = now]
    by (auto simp: revoke_all_sql_def fun_eq_iff)
qed (use assms(1) in \<open>auto simp: other_writes intro!: directory_cong split: if_splits option.splits\<close>)

section \<open>The refinement\<close>

lemma schedule_directory:
  assumes "schedule U t d xs t' d'" and "wf_db U d"
  shows "dir_run t (directory d) xs t' (directory d')"
  using assms
proof (induction rule: schedule.induct)
  case (wait t t' d)
  then show ?case by (blast intro: dir_run.rest)
next
  case (act t t1 x uid d d1 xs t' d')
  have "directory d1 = dir_step x t1 uid (directory d)"
    using act.hyps(2) act.prems by (intro apply_op_directory) (simp_all add: wf_db_def)
  moreover have "wf_db U d1"
    using act.prems act.hyps(2) by (rule apply_op_wf)
  ultimately show ?case using act.IH act.hyps(1) by (metis dir_run.step)
qed

text \<open>Whom a token stands for, read off the directory and the accounts.\<close>

definition stands_for :: "int \<Rightarrow> directory \<Rightarrow> database \<Rightarrow> string \<Rightarrow> principal \<Rightarrow> bool" where
  "stands_for now m d token p \<longleftrightarrow> (\<exists>sid e. m sid = Some e \<and> en_token e = hash_token token \<and> alive now e
     \<and> (\<exists>u \<in> set (users d). u_id u = en_user e \<and> live_user u
          \<and> p = \<lparr>p_user = en_user e, p_session = sid, p_roles = sort (roles_of d (en_user e)),
                 p_auth_at = en_since e, p_mfa_at = en_mfa e, p_email = u_email u, p_verified = u_verified u\<rparr>))"

lemma resolve_stands_for:
  assumes "wf_db U d"
  shows "resolve now d token = Some p \<longleftrightarrow> stands_for now (directory d) d token p"
proof -
  have ws: "wf_sessions d" and ids: "distinct (map u_id (users d))"
    using assms by (simp_all add: wf_db_def wf_users_def)
  have user: "find (\<lambda>v. u_id v = i) (users d) = Some u \<longleftrightarrow> u \<in> set (users d) \<and> u_id u = i" for i u
    using find_key_Some [OF ids, of u] by (auto dest: find_SomeD)
  show ?thesis
  proof
    assume res: "resolve now d token = Some p"
    then obtain s where s: "s \<in> set (sessions d)" "s_token s = hash_token token" "live_session now s"
      by (auto simp: resolve_def resolve_row_def split: option.splits if_splits dest: find_SomeD)
    from res obtain u where "find (\<lambda>v. u_id v = s_user s) (users d) = Some u" "live_user u"
      and p: "p = \<lparr>p_user = s_user s, p_session = s_id s, p_roles = sort (roles_of d (s_user s)),
         p_auth_at = s_created s, p_mfa_at = s_mfa s, p_email = u_email u, p_verified = u_verified u\<rparr>"
      by (auto simp: resolve_alive [OF assms s] split: option.splits if_splits)
    moreover have "directory d (s_id s) = Some (entry_of s)"
      using s by (auto simp: directory_Some [OF ws] live_session_def)
    moreover have "alive now (entry_of s)"
      using s(3) alive_entry by (simp add: live_session_def)
    ultimately show "stands_for now (directory d) d token p"
      using s(2) user by (auto simp: stands_for_def intro!: exI [of _ "s_id s"] exI [of _ "entry_of s"])
  next
    assume "stands_for now (directory d) d token p"
    then obtain sid e u where m: "directory d sid = Some e" "en_token e = hash_token token" "alive now e"
      and u: "u \<in> set (users d)" "u_id u = en_user e" "live_user u"
      and p: "p = \<lparr>p_user = en_user e, p_session = sid, p_roles = sort (roles_of d (en_user e)),
        p_auth_at = en_since e, p_mfa_at = en_mfa e, p_email = u_email u, p_verified = u_verified u\<rparr>"
      by (auto simp: stands_for_def)
    from m obtain s where s: "s \<in> set (sessions d)" "s_id s = sid" "e = entry_of s" "live_session now s"
      by (auto simp: directory_Some [OF ws] alive_entry)
    with m(2) have "s_token s = hash_token token" by simp
    moreover have "find (\<lambda>v. u_id v = s_user s) (users d) = Some u"
      using u(1,2) s(3) by (simp add: user)
    ultimately show "resolve now d token = Some p"
      using s(2,3) u(3) p by (simp add: resolve_alive [OF assms s(1) _ s(4)])
  qed
qed

text \<open>C7 The session store implements the directory: along any schedule of statements, from any
  number of requests, the unrevoked rows move as the directory's own operations say - begin, seen,
  new token, second factor, end, end all - and nothing else moves them; and afterwards Lookup's
  specification grants a token exactly what the directory and the accounts say it stands for.\<close>

theorem store_refines_directory:
  assumes "schedule U t d xs t' d'" and "wf_db U d"
  shows "dir_run t (directory d) xs t' (directory d')
    \<and> (\<forall>token p. resolve t' d' token = Some p \<longleftrightarrow> stands_for t' (directory d') d' token p)"
  using schedule_directory [OF assms] resolve_stands_for [OF schedule_wf [OF assms]] by blast

theorem store_refines_directory_witness:
  "\<exists>d'. apply_op sample_tables (Rotate (hash_token ''new'') 60 ''s1'') 7 [] session_db = Some d'
     \<and> dir_run 0 (directory session_db) [Rotate (hash_token ''new'') 60 ''s1''] 7 (directory d')
     \<and> stands_for 7 (directory d') d' ''new'' \<lparr>p_user = ''u1'', p_session = ''s1'', p_roles = [],
          p_auth_at = 0, p_mfa_at = None, p_email = ''a@x.io'', p_verified = True\<rparr>"
proof -
  obtain d' where x: "apply_op sample_tables (Rotate (hash_token ''new'') 60 ''s1'') 7 [] session_db = Some d'"
    and d': "d' = session_db\<lparr>sessions := [touch 7 60 (sample_session\<lparr>s_token := hash_token ''new''\<rparr>)]\<rparr>"
    by (simp add: rotate_sql_def live_session_def Let_def)
  have run: "schedule sample_tables 0 session_db [Rotate (hash_token ''new'') 60 ''s1''] 7 d'"
    by (rule schedule.act [OF _ x]) (auto intro: schedule.wait)
  have "resolve 7 d' ''new'' = Some \<lparr>p_user = ''u1'', p_session = ''s1'', p_roles = [],
          p_auth_at = 0, p_mfa_at = None, p_email = ''a@x.io'', p_verified = True\<rparr>"
    by (simp add: d' resolve_def resolve_row_def live_session_def roles_of_def principal_of_def)
  with store_refines_directory [OF run session_wf] x show ?thesis by blast
qed

end
