(* ===== verification/Privileges.thy ===== *)
theory Privileges
  imports Session_Store
begin

text \<open>
  Where a caller's privileges come from. The principal of a session carries the roles of its
  account and the time of its second factor; both can only be raised by the statement that is
  there for it.
\<close>

fun elevates :: "string \<Rightarrow> string \<Rightarrow> op \<Rightarrow> bool" where
  "elevates sid user (Grant_role u r) \<longleftrightarrow> u = user"
| "elevates sid user (Record_mfa s u) \<longleftrightarrow> s = sid \<and> u = user"
| "elevates sid user _ \<longleftrightarrow> False"

lemma set_roles_of: "r \<in> set (roles_of d u) \<longleftrightarrow> (u, r) \<in> set (user_roles d)"
  by (force simp: roles_of_def)

lemma apply_op_roles:
  assumes "apply_op U x now uid d = Some d'" and "\<And>r. x \<noteq> Grant_role u r"
  shows "set (roles_of d' u) \<subseteq> set (roles_of d u)"
proof (cases x)
  case (Grant_role v r)
  with assms show ?thesis
    by (cases "u = v") (auto simp: grant_role_sql_def set_roles_of split: if_splits)
next
  case (Revoke_role v r)
  with assms show ?thesis
    by (auto simp: revoke_role_sql_def set_roles_of)
qed (use assms in \<open>auto simp: session_writes other_writes set_roles_of split: if_splits option.splits\<close>)

lemma schedule_roles:
  assumes "schedule U t d xs t' d'" and "list_all (\<lambda>x. \<forall>r. x \<noteq> Grant_role u r) xs"
  shows "set (roles_of d' u) \<subseteq> set (roles_of d u)"
  by (rule schedule_invariant [OF assms(1), where ok = "\<lambda>x. \<forall>r. x \<noteq> Grant_role u r" and
        I = "\<lambda>_ d'. set (roles_of d' u) \<subseteq> set (roles_of d u)"])
    (use assms(2) apply_op_roles in blast)+

text \<open>The row behind a principal.\<close>

lemma resolve_Some:
  assumes "resolve now d token = Some p"
  obtains s u where "s \<in> set (sessions d)" and "s_token s = hash_token token" and "live_session now s"
    and "u \<in> set (users d)" and "u_id u = s_user s" and "live_user u"
    and "p = \<lparr>p_user = s_user s, p_session = s_id s, p_roles = sort (roles_of d (s_user s)),
         p_auth_at = s_created s, p_mfa_at = s_mfa s, p_email = u_email u, p_verified = u_verified u\<rparr>"
  using assms
  by (auto simp: resolve_def resolve_row_def principal_of_def split: option.splits if_splits dest!: find_SomeD)

text \<open>C8 No privilege without a grant: as long as nobody grants the account a role and no second
  factor is recorded on the session, whatever else is done - rotations, password changes, other
  logins, the application's own writes - a token of that session stands for the same user, with
  the same authentication time and the same second factor, and with no role it did not have.\<close>

theorem privileges_need_grants:
  assumes "schedule U t d xs t' d'" and "wf_db U d"
    and "resolve t d token = Some p" and "resolve t' d' token' = Some p'" and "p_session p' = p_session p"
    and "list_all (\<lambda>x. \<not> elevates (p_session p) (p_user p) x) xs"
  shows "p_user p' = p_user p \<and> p_auth_at p' = p_auth_at p \<and> p_mfa_at p' = p_mfa_at p
    \<and> set (p_roles p') \<subseteq> set (p_roles p)"
proof -
  obtain s :: session_row and u :: user_row where s: "s \<in> set (sessions d)"
    and p: "p = \<lparr>p_user = s_user s, p_session = s_id s, p_roles = sort (roles_of d (s_user s)),
         p_auth_at = s_created s, p_mfa_at = s_mfa s, p_email = u_email u, p_verified = u_verified u\<rparr>"
    using assms(3) by (rule resolve_Some)
  obtain s' :: session_row and u' :: user_row where s': "s' \<in> set (sessions d')"
    and p': "p' = \<lparr>p_user = s_user s', p_session = s_id s', p_roles = sort (roles_of d' (s_user s')),
         p_auth_at = s_created s', p_mfa_at = s_mfa s', p_email = u_email u', p_verified = u_verified u'\<rparr>"
    using assms(4) by (rule resolve_Some)
  have quiet: "list_all (\<lambda>x. \<not> elevates (s_id s) (s_user s) x) xs"
    using assms(6) p by simp
  obtain q where q: "q \<in> set (sessions d')" "same_session s q" "s_mfa q = s_mfa s"
    using schedule_mfa [OF assms(1) s] quiet by (force simp: list_all_iff)
  have "distinct (map s_id (sessions d'))"
    using schedule_wf [OF assms(1,2)] by (simp add: wf_db_def wf_sessions_def)
  then have "s' = q"
    by (rule distinct_key_eq [OF _ s' q(1)]) (use assms(5) p p' q(2) in \<open>simp add: same_session_def\<close>)
  moreover have "set (roles_of d' (s_user s)) \<subseteq> set (roles_of d (s_user s))"
    by (rule schedule_roles [OF assms(1)]) (use quiet in \<open>force simp: list_all_iff\<close>)
  ultimately show ?thesis
    using p p' q by (auto simp: same_session_def)
qed

theorem privileges_need_grants_witness:
  "\<exists>d'. apply_op sample_tables (Grant_role ''u2'' ''admin'') 7 []
        (session_db\<lparr>users := [sample_user, sample_user\<lparr>u_id := ''u2'', u_email := ''b@x.io''\<rparr>], roles := [(''admin'', [])]\<rparr>) = Some d'
     \<and> user_roles d' = [(''u2'', ''admin'')]
     \<and> (\<exists>p'. resolve 7 d' ''tok'' = Some p' \<and> p_user p' = ''u1'' \<and> set (p_roles p') \<subseteq> {})"
proof -
  let ?d = "session_db\<lparr>users := [sample_user, sample_user\<lparr>u_id := ''u2'', u_email := ''b@x.io''\<rparr>], roles := [(''admin'', [])]\<rparr>"
  obtain d' where x: "apply_op sample_tables (Grant_role ''u2'' ''admin'') 7 [] ?d = Some d'"
    and d': "d' = ?d\<lparr>user_roles := [(''u2'', ''admin'')]\<rparr>"
    by (simp add: grant_role_sql_def has_user_def)
  have run: "schedule sample_tables 0 ?d [Grant_role ''u2'' ''admin''] 7 d'"
    by (rule schedule.act [OF _ x]) (auto intro: schedule.wait)
  have wf: "wf_db sample_tables ?d"
    by (simp add: wf_db_def wf_defs has_user_def session_db_def email_key_def pg_lower_def is_ascii_def
        ascii_char_def lower_char_def live_user_def)
  obtain p where p: "resolve 0 ?d ''tok'' = Some p" "p_user p = ''u1''" "p_session p = ''s1''" "p_roles p = []"
    by (simp add: resolve_def resolve_row_def live_session_def roles_of_def principal_of_def)
  obtain p' where p': "resolve 7 d' ''tok'' = Some p'" "p_session p' = ''s1''"
    by (simp add: d' resolve_def resolve_row_def live_session_def roles_of_def principal_of_def)
  from privileges_need_grants [OF run wf p(1) p'(1)] p p' x d' show ?thesis by auto
qed

end
