(* ===== verification/Vault_Rounds.thy ===== *)
theory Vault_Rounds
  imports Vault_Facts
begin

text \<open>
  The vault from the client's side: what was put is what is got back, byte for byte, for as long
  as the owner does not write again; the answer says whether the password has moved under
  it in between; and the salt a client is told for an address does not move when the account
  behind it enrols.
\<close>

fun rewraps :: "string \<Rightarrow> op \<Rightarrow> bool" where
  "rewraps user (Put_vault k s m i w r u n) \<longleftrightarrow> u = user"
| "rewraps user (Delete_vault u) \<longleftrightarrow> u = user"
| "rewraps user _ \<longleftrightarrow> False"

lemma apply_op_vault_kept:
  assumes "apply_op U x now uid d = Some d'" and "\<not> rewraps (v_user v) x" and "v \<in> set (vaults d)"
  shows "v \<in> set (vaults d')"
proof (cases x)
  case (Put_vault k s m i w r u n)
  with assms(2) have "v_user v \<noteq> u" by auto
  moreover have "v \<in> set (update_where (\<lambda>y. v_user y = u) f (vaults d))" if "v_user v \<noteq> u" for f
    using assms(3) that by (force simp: set_update_where)
  ultimately show ?thesis
    using assms(1,3) Put_vault by (auto simp: put_vault_sql_def Let_def split: if_splits option.splits)
next
  case (Delete_vault u)
  with assms show ?thesis by (auto simp: delete_vault_sql_def)
qed (use assms in \<open>auto simp: session_writes other_writes split: if_splits option.splits\<close>)

lemma schedule_vault_kept:
  assumes "schedule U t d xs t' d'" and "list_all (\<lambda>x. \<not> rewraps (v_user v) x) xs" and "v \<in> set (vaults d)"
  shows "v \<in> set (vaults d')"
  by (rule schedule_invariant [OF assms(1), where ok = "\<lambda>x. \<not> rewraps (v_user v) x" and I = "\<lambda>_ d. v \<in> set (vaults d)"])
    (use assms(2,3) in \<open>auto intro: apply_op_vault_kept\<close>)

lemma filter_pairs:
  "filter (\<lambda>(w, y). q w) (concat (map (\<lambda>v. map (\<lambda>y. (v, y)) (f v)) vs)) = concat (map (\<lambda>v. map (\<lambda>y. (v, y)) (f v)) (filter q vs))"
  by (induction vs) (auto simp: filter_map comp_def)

text \<open>The row a caller's read joins to his account.\<close>

lemma get_vault_run:
  assumes "wf_db U (db x)" and "from_ctx c = Some p" and "\<not> db_fails F (step x)"
    and "v \<in> set (vaults (db x))" and "v_user v = p_user p"
  shows "\<exists>u \<in> set (users (db x)). u_id u = p_user p \<and> get_vault c F x =
    (Inr (Some \<lparr>vt_wrapped = v_wrapped v, vt_recovery = v_recovery v, vt_params = scanned (kdf_of v),
       vt_version = v_version v, vt_stale = v_wrapped_for v \<noteq> Some (fingerprint u)\<rparr>), tick x)"
proof -
  have wf: "distinct (map v_user (vaults (db x)))" "has_user (db x) (v_user v)" "wf_users U (db x)"
    using assms(1,4) by (auto simp: wf_db_def wf_vaults_def)
  then obtain u where u: "u \<in> set (users (db x))" "u_id u = v_user v"
    by (auto simp: has_user_iff)
  have "filter (\<lambda>w. u_id w = v_user v) (users (db x)) = [u]"
    using user_by_id_unique [OF wf(3) u(1), of "\<lambda>_. True"] u(2) by simp
  moreover have "filter (\<lambda>w. v_user w = p_user p) (vaults (db x)) = [v]"
    by (rule filter_key_unique [where k = v_user]) (use wf(1) assms(4,5) in auto)
  ultimately have "filter (\<lambda>(w, y). v_user w = p_user p) (joined (db x)) = [(v, u)]"
    unfolding joined_def filter_pairs by simp
  with u assms(2,3,5) show ?thesis
    by (intro bexI [of _ u]) (simp_all add: get_vault_def require_def tryM_def bindM_def lift_def query_one_def exec_def
        vault_by_user_sql_def ret_def tick_def)
qed

definition has_vault :: "string \<Rightarrow> database \<Rightarrow> bool" where
  "has_vault user d \<longleftrightarrow> list_ex (\<lambda>v. v_user v = user) (vaults d)"

lemma put_vault_wf_db:
  assumes "put_vault V c v E w = (Inr (), w1)" and "wf_db U (db w)"
  shows "wf_db U (db w1)"
proof -
  from assms(1) obtain k s m i b r u n ver where "query_one (put_vault_sql k s m i b r u n) E w = (Inr ver, w1)"
    by (auto simp: put_vault_def with_env_def require_def Let_def ret_def tryM_Inr_iff fail_def elim!: bindM_run
        split: option.splits sum.splits)
  then have "apply_op U (Put_vault k s m i b r u n) (db_clock E (step w)) (new_uuid E (step w)) (db w) = Some (db w1)"
    by (auto elim!: query_one_Inr)
  with assms(2) show ?thesis by (rule apply_op_wf)
qed

lemma users_after_put: "put_vault V c v E w = (Inr (), w1) \<Longrightarrow> users (db w1) = users (db w)"
  by (erule put_vault_Inr) (auto split: option.splits)

text \<open>The row a Put leaves, freshly inserted or overwritten.\<close>

lemma put_vault_row:
  assumes "put_vault V c v E w = (Inr (), w1)" and "from_ctx c = Some p" and "wf_db U (db w)"
  defines "q \<equiv> with_defaults (vt_params v) (vc_default V)"
  obtains u row where "u \<in> set (users (db w))" and "u_id u = p_user p" and "row \<in> set (vaults (db w1))"
    and "v_user row = p_user p" and "v_wrapped row = vt_wrapped v" and "v_recovery row = vt_recovery v"
    and "v_wrapped_for row = Some (fingerprint u)"
    and "v_version row = (if has_vault (p_user p) (db w) then vt_version v + 1 else 1)"
    and "kdf_of row = (vp_kdf q, v_salt row, uint (vp_memory q), uint (vp_iterations q), 1)"
proof -
  let ?of = "\<lambda>y. v_user y = p_user p" and ?q = q
  obtain u new where check: "check_vault V v = None" and u: "u \<in> set (users (db w))" "u_id u = p_user p"
    and new: "v_user new = p_user p" "v_wrapped new = Some (the (vt_wrapped v))" "v_recovery new = vt_recovery v"
      "v_wrapped_for new = Some (fingerprint u)" "v_version new = 1"
      "kdf_of new = (vp_kdf ?q, v_salt new, uint (vp_memory ?q), uint (vp_iterations ?q), 1)"
    and upd: "case find ?of (vaults (db w)) of
           None \<Rightarrow> db w1 = (db w)\<lparr>vaults := vaults (db w) @ [new]\<rparr>
         | Some old \<Rightarrow> v_version old = vt_version v \<and> v_version old < int4_max
             \<and> db w1 = (db w)\<lparr>vaults := update_where ?of (overwrite_vault new) (vaults (db w))\<rparr>"
    using assms(1,2) unfolding q_def by (elim put_vault_Inr) (auto simp: Let_def)
  have wrapped: "vt_wrapped v = Some (the (vt_wrapped v))"
    using check by (cases "vt_wrapped v") (simp_all add: check_vault_def blob_len_def)
  have "\<exists>row \<in> set (vaults (db w1)). v_user row = p_user p \<and> v_wrapped row = vt_wrapped v
    \<and> v_recovery row = vt_recovery v \<and> v_wrapped_for row = Some (fingerprint u)
    \<and> v_version row = (if has_vault (p_user p) (db w) then vt_version v + 1 else 1)
    \<and> kdf_of row = (vp_kdf ?q, v_salt row, uint (vp_memory ?q), uint (vp_iterations ?q), v_parallelism row)
    \<and> v_parallelism row = 1"
  proof (cases "find ?of (vaults (db w))")
    case None
    with upd new wrapped show ?thesis
      by (auto simp: has_vault_def list_ex_iff kdf_of_def dest!: find_NoneD)
  next
    case (Some old)
    then have "old \<in> set (vaults (db w))" and "v_user old = p_user p"
      by (auto dest: find_SomeD)
    moreover have "v_parallelism old = 1"
      using assms(3) calculation by (auto simp: wf_db_def wf_vaults_def)
    moreover have "overwrite_vault new old \<in> set (vaults (db w1))"
      using upd Some calculation by (auto simp: set_update_where)
    ultimately show ?thesis
      using upd Some new wrapped
      by (intro bexI [of _ "overwrite_vault new old"])
        (auto simp: has_vault_def list_ex_iff kdf_of_def overwrite_vault_def)
  qed
  with u that show thesis by force
qed

text \<open>C21 A vault comes back as it was put: after a Put that succeeds, and whatever anybody does
  short of the owner's next Put or Discard, the owner's Get returns the same two wrappings and the
  parameters of the put, at the version after the one replaced (the first version for a first
  Put), and calls the vault stale exactly when the digest of the account's password hash is not
  what it was when the key was wrapped.\<close>

theorem vault_round_trip:
  assumes "put_vault V c v E w = (Inr (), w1)" and "from_ctx c = Some p" and "wf_db U (db w)"
    and "schedule U t (db w1) xs t' (db x)" and "list_all (\<lambda>y. \<not> rewraps (p_user p) y) xs"
    and "from_ctx c2 = Some p2" and "p_user p2 = p_user p" and "\<not> db_fails F (step x)"
  shows "\<exists>u u2 g q. u \<in> set (users (db w)) \<and> u_id u = p_user p \<and> u2 \<in> set (users (db x)) \<and> u_id u2 = p_user p
    \<and> get_vault c2 F x = (Inr (Some g), tick x)
    \<and> vt_wrapped g = vt_wrapped v \<and> vt_recovery g = vt_recovery v
    \<and> q = with_defaults (vt_params v) (vc_default V) \<and> vt_params g = q\<lparr>vp_salt := vp_salt (vt_params g)\<rparr>
    \<and> vt_version g = (if has_vault (p_user p) (db w) then vt_version v + 1 else 1)
    \<and> (vt_stale g \<longleftrightarrow> fingerprint u2 \<noteq> fingerprint u)"
proof -
  let ?q = "with_defaults (vt_params v) (vc_default V)"
  obtain u row where u: "u \<in> set (users (db w))" "u_id u = p_user p"
    and row: "row \<in> set (vaults (db w1))" "v_user row = p_user p" "v_wrapped row = vt_wrapped v"
    "v_recovery row = vt_recovery v" "v_wrapped_for row = Some (fingerprint u)"
    "v_version row = (if has_vault (p_user p) (db w) then vt_version v + 1 else 1)"
    and kdf: "kdf_of row = (vp_kdf ?q, v_salt row, uint (vp_memory ?q), uint (vp_iterations ?q), 1)"
    using assms(1-3) by (rule put_vault_row)
  have "wf_db U (db w1)"
    using put_vault_wf_db [OF assms(1,3)] .
  then have wf: "wf_db U (db x)"
    using assms(4) schedule_wf by blast
  have "row \<in> set (vaults (db x))"
    using schedule_vault_kept [OF assms(4) _ row(1)] assms(5) row(2) by simp
  then obtain u2 where u2: "u2 \<in> set (users (db x))" "u_id u2 = p_user p2"
    and run: "get_vault c2 F x = (Inr (Some \<lparr>vt_wrapped = v_wrapped row, vt_recovery = v_recovery row,
       vt_params = scanned (kdf_of row), vt_version = v_version row,
       vt_stale = v_wrapped_for row \<noteq> Some (fingerprint u2)\<rparr>), tick x)"
    using get_vault_run [OF wf assms(6,8)] row(2) assms(7) by metis
  have par: "vp_parallelism ?q = 1" by (simp add: with_defaults_def)
  have "scanned (kdf_of row) = ?q\<lparr>vp_salt := v_salt row\<rparr>"
    unfolding kdf scanned_def using par by (cases "?q") simp
  with u u2 run row assms(7) show ?thesis
    by (intro exI [of _ u] exI [of _ u2] exI [of _ "\<lparr>vt_wrapped = v_wrapped row, vt_recovery = v_recovery row,
       vt_params = scanned (kdf_of row), vt_version = v_version row,
       vt_stale = v_wrapped_for row \<noteq> Some (fingerprint u2)\<rparr>"] exI [of _ ?q]) auto
qed

theorem vault_round_trip_witness:
  "\<exists>w1 g. put_vault sample_vaults session_ctx sample_blob sample_env (world_of session_db) = (Inr (), w1)
     \<and> get_vault session_ctx sample_env w1 = (Inr (Some g), tick w1)
     \<and> vt_wrapped g = Some [1, 2, 3] \<and> vt_recovery g = Some [4] \<and> vt_version g = 1 \<and> \<not> vt_stale g"
proof -
  have "vaults session_db = []" by (simp add: session_db_def)
  then obtain w1 where run: "put_vault sample_vaults session_ctx sample_blob sample_env (world_of session_db) = (Inr (), w1)"
    using sample_put_run [of session_db] by auto
  have idle: "schedule sample_tables 0 (db w1) [] 0 (db w1)"
    by (rule schedule.wait) simp
  have same: "users (db w1) = [sample_user]"
    using users_after_put [OF run] by simp
  from vault_round_trip [OF run session_ctx_principal(1) session_world_wf idle _ session_ctx_principal(1), of sample_env] run same
  show ?thesis
    by (auto simp: has_vault_def session_db_def sample_blob_def)
qed

section \<open>The salt of an address\<close>

lemma sample_trimmed [simp]: "to_lower U (trim_space ''a@x.io'') = ''a@x.io''"
    "to_lower U (trim_space ''b@x.io'') = ''b@x.io''"
  using sample_normalised [of U] by (simp_all add: normalise_def)

lemma joined_by_email:
  assumes "wf_users U d" and "u \<in> set (users d)" and "live_email U key u"
  shows "filter (\<lambda>(v, y). live_email U key y) (joined d) = map (\<lambda>v. (v, u)) (filter (\<lambda>v. v_user v = u_id u) (vaults d))"
proof -
  have at: "filter (live_email U key) (filter (\<lambda>y. u_id y = v_user v) (users d)) = (if v_user v = u_id u then [u] else [])" for v
  proof -
    have "filter (live_email U key) (filter (\<lambda>y. u_id y = v_user v) (users d))
        = filter (\<lambda>y. u_id y = v_user v) (filter (live_email U key) (users d))"
      by (simp add: conj_commute)
    then show ?thesis unfolding live_email_unique [OF assms] by auto
  qed
  have "filter (\<lambda>(v, y). live_email U key y) (joined d)
      = concat (map (\<lambda>v. map (\<lambda>y. (v, y)) (filter (live_email U key) (filter (\<lambda>y. u_id y = v_user v) (users d)))) (vaults d))"
    by (simp add: joined_def filter_concat filter_map comp_def)
  also have "\<dots> = map (\<lambda>v. (v, u)) (filter (\<lambda>v. v_user v = u_id u) (vaults d))"
  proof -
    have "concat (map (\<lambda>v. map (\<lambda>y. (v, y)) (if v_user v = u_id u then [u] else [])) vs)
        = map (\<lambda>v. (v, u)) (filter (\<lambda>v. v_user v = u_id u) vs)" for vs
      by (induction vs) auto
    then show ?thesis unfolding at .
  qed
  finally show ?thesis .
qed

lemma client_params_run:
  assumes "\<not> db_fails E (step w)"
    and "map (\<lambda>(v, u). kdf_of v) (filter (\<lambda>(v, u). live_email (unicode E) (to_lower (unicode E) (trim_space email)) u)
           (joined (db w))) = ks" and "length ks \<le> 1"
  shows "client_params V email E w = (Inr (case ks of
      [] \<Rightarrow> (vc_default V)\<lparr>vp_salt := vault_salt V (to_lower (unicode E) (trim_space email))\<rparr>
    | k # _ \<Rightarrow> scanned k), tick w)"
proof (cases ks)
  case Nil
  with assms show ?thesis
    by (simp add: client_params_def with_env_def Let_def bindM_def query_one_def tryM_def exec_def lift_def ret_def
        params_by_email_sql_def tick_def)
next
  case (Cons k r)
  with assms(3) have "ks = [k]" by simp
  with assms(1,2) show ?thesis
    by (simp add: client_params_def with_env_def Let_def bindM_def query_one_def tryM_def exec_def lift_def ret_def
        params_by_email_sql_def tick_def)
qed

text \<open>C34 Enrolling does not show in the parameters: a client that asks for an address under which
  no live account has a vault (no account, an account that never enrolled, a deleted one) is
  told the default parameters with a salt that is the first 16 bytes of an HMAC of the address
  under the pepper; and after the account's first Put, by a caller whose principal carries that
  address, the salt told for it is still the same 16 bytes, whatever has been executed in
  between short of discarding that vault, as long as the live account with the address is
  that one. (A principal with another address, or with none, is out of this: Put then stores a
  salt no address is ever told.)\<close>

theorem params_salt_uniform:
  assumes "put_vault V c v E w = (Inr (), w1)" and "from_ctx c = Some p" and "wf_db (unicode E) (db w)"
    and "\<not> has_vault (p_user p) (db w)"
    and "schedule (unicode E) t (db w1) xs t' (db x)" and "list_all (\<lambda>y. y \<noteq> Delete_vault (p_user p)) xs"
    and "to_lower (unicode E) (trim_space (p_email p)) = to_lower (unicode E) (trim_space email)"
    and "u \<in> set (users (db x))" and "u_id u = p_user p"
    and "live_email (unicode E) (to_lower (unicode E) (trim_space email)) u"
    and "unicode F = unicode E" and "\<not> db_fails F (step x)"
    and "unicode G = unicode E" and "\<not> db_fails G (step y)"
    and "\<nexists>k a. k \<in> set (vaults (db y)) \<and> a \<in> set (users (db y)) \<and> u_id a = v_user k
           \<and> live_email (unicode E) (to_lower (unicode E) (trim_space email)) a"
  defines "salt \<equiv> take 16 (hmac_sha256 (vc_pepper V)
      (bytes_of (''kal.e2ee.salt|'' @ to_lower (unicode E) (trim_space email))))"
  shows "client_params V email G y = (Inr ((vc_default V)\<lparr>vp_salt := salt\<rparr>), tick y)
    \<and> (\<exists>prm. client_params V email F x = (Inr prm, tick x) \<and> vp_salt prm = salt)"
proof -
  let ?key = "to_lower (unicode E) (trim_space email)" and ?of = "\<lambda>v. v_user v = p_user p"
  have salt: "vault_salt V ?key = salt"
    by (simp add: salt_def vault_salt_def saltLen_def saltDomain_def)
  have "map (\<lambda>(v, u). kdf_of v) (filter (\<lambda>(v, u). live_email (unicode G) (to_lower (unicode G) (trim_space email)) u)
      (joined (db y))) = []"
    using assms(13,15) by (force simp: joined_def filter_empty_conv)
  from client_params_run [OF assms(14) this] have before: "client_params V email G y = (Inr ((vc_default V)\<lparr>vp_salt := salt\<rparr>), tick y)"
    by (simp add: assms(13) salt)
  have "find ?of (vaults (db w)) = None"
    using assms(4) by (simp add: has_vault_def find_None_iff list_ex_iff)
  then obtain new where new: "v_user new = p_user p" "v_salt new = salt" "new \<in> set (vaults (db w1))"
    using assms(1,2,7) by (elim put_vault_Inr) (auto simp: salt)
  obtain now where now: "now \<in> set (vaults (db x))" "v_user now = p_user p" "v_salt now = salt"
    using schedule_vault [OF assms(5) new(3)] assms(6) new(1,2) by (auto simp: vault_later_def)
  have wf: "wf_db (unicode E) (db x)"
    using put_vault_wf_db [OF assms(1,3)] assms(5) schedule_wf by blast
  then have "filter ?of (vaults (db x)) = [now]"
    by (intro filter_key_unique [where k = v_user]) (use now in \<open>auto simp: wf_db_def wf_vaults_def\<close>)
  moreover have "wf_users (unicode E) (db x)"
    using wf by (simp add: wf_db_def)
  ultimately have "map (\<lambda>(v, u). kdf_of v) (filter (\<lambda>(v, u). live_email (unicode F) (to_lower (unicode F) (trim_space email)) u)
      (joined (db x))) = [kdf_of now]"
    using joined_by_email [OF _ assms(8,10)] by (simp add: assms(9,11))
  from client_params_run [OF assms(12) this] have "client_params V email F x = (Inr (scanned (kdf_of now)), tick x)"
    by simp
  moreover have "vp_salt (scanned (kdf_of now)) = salt"
    by (simp add: scanned_def kdf_of_def now)
  ultimately show ?thesis using before by blast
qed

theorem params_salt_uniform_witness:
  "\<exists>w1 prm. put_vault sample_vaults session_ctx sample_blob sample_env (world_of session_db) = (Inr (), w1)
     \<and> client_params sample_vaults ''a@x.io'' sample_env w1 = (Inr prm, tick w1)
     \<and> client_params sample_vaults ''a@x.io'' sample_env (world_of session_db)
         = (Inr ((vc_default sample_vaults)\<lparr>vp_salt := vp_salt prm\<rparr>), tick (world_of session_db))"
proof -
  have none: "vaults session_db = []" by (simp add: session_db_def)
  then obtain w1 where run: "put_vault sample_vaults session_ctx sample_blob sample_env (world_of session_db) = (Inr (), w1)"
    using sample_put_run [of session_db] by auto
  have idle: "schedule (unicode sample_env) 0 (db w1) [] 0 (db w1)"
    by (rule schedule.wait) simp
  have same: "users (db w1) = [sample_user]"
    using users_after_put [OF run] by simp
  have wf: "wf_db (unicode sample_env) (db (world_of session_db))"
    using session_world_wf by simp
  from params_salt_uniform [OF run session_ctx_principal(1) wf _ idle, where email = "''a@x.io''" and F = sample_env
      and G = sample_env and u = sample_user and y = "world_of session_db"] same none run
  show ?thesis by (auto simp: has_vault_def)
qed

end
