(* ===== verification/Documented_Codes.thy ===== *)
theory Documented_Codes
  imports Account_Facts Vaults
begin

text \<open>
  The codes each operation may answer with. Everything else that can go wrong under it - the
  database, the random source, a malformed stored hash - reaches the caller as an error without
  a code, which \<open>PresentError\<close> shows as an internal one.
\<close>

lemma driver_vaults [guar]:
  "driver_only (params_by_email_sql U e)" "driver_only (vault_by_user_sql u)"
  "driver_only (put_vault_sql k s m i w r u n)" "driver_only (delete_vault_sql u)"
  by (auto simp: driver_only_def e2ee_sql_defs out_of_range_def Let_def split: option.splits)

definition unauthenticated :: "goerr option \<Rightarrow> goerr" where
  "unauthenticated i = KalErr CodeUnauthenticated ''authentication required'' i"

lemma require_code: "require c = Inl e \<Longrightarrow> e = unauthenticated None"
  by (auto simp: require_def unauthenticated_def split: option.splits)

context error_class begin

lemma raises_require: "P (unauthenticated None) \<Longrightarrow> raises P E (lift (require c))"
  by (auto simp: raises_def dest: require_code [OF sym])

lemma raises_rotate: "(\<And>e. P (session_gone e)) \<Longrightarrow> raises P E (rotate S sid)"
  unfolding rotate_def
  by (intro raises_rules raises_sessions raises_fail guar; simp)

lemma raises_record_mfa: "(\<And>e. P (session_gone e)) \<Longrightarrow> raises P E (record_mfa sid user)"
  unfolding record_mfa_def by (intro raises_rules raises_fail guar) simp

lemma raises_swap:
  assumes "P try_again" and "\<And>i. P (invalid_credentials i)" and "\<And>e. P (session_gone e)"
  shows "raises P E (swap_password A c p stored email nxt)"
  unfolding swap_password_def
  by (intro raises_rules raises_hashing raises_helpers raises_sessions raises_rotate raises_fail assms guar)

lemma raises_change_password:
  assumes "P try_again" and "\<And>i. P (invalid_credentials i)" and "\<And>e. P (session_gone e)"
    and "\<And>i. P (unauthenticated i)" and "\<And>s e. ac_secret_shape A s = Some e \<Longrightarrow> P e"
  shows "raises P E (change_password A c current nxt)"
  unfolding change_password_def unauthenticated_def [symmetric]
  by (intro raises_rules raises_require raises_secret [OF assms(5)] raises_swap raises_hashing raises_helpers
      raises_fail assms(1-4) guar; (simp add: assms)?)

lemma raises_invite:
  assumes "P address_error"
  shows "raises P E (invite A email)"
  unfolding invite_def Let_def
  by (intro raises_rules raises_mint raises_helpers raises_fail assms guar)

lemma raises_client_params: "raises P E (client_params V email)"
  unfolding client_params_def Let_def by (intro raises_rules raises_fail guar)

lemma raises_vaults:
  assumes "\<And>i. P (unauthenticated i)"
  shows "raises P E (get_vault c)" "raises P E (discard_vault c)"
proof -
  show "raises P E (get_vault c)"
    unfolding get_vault_def by (intro raises_rules raises_require raises_fail assms guar)
  show "raises P E (discard_vault c)"
    unfolding discard_vault_def by (intro raises_rules raises_require raises_fail assms guar)
qed

text \<open>The flows that check fewer things than the rules for the token flows allow for.\<close>

lemma raises_request: "raises P E (request_password_reset A email)"
  unfolding request_password_reset_def Let_def
  by (intro raises_rules raises_helpers raises_mint raises_fail guar)

lemma raises_verify:
  assumes "\<And>i. P (KalErr CodeInvalidToken ''this link is invalid or has expired'' i)"
  shows "raises P E (verify_email token)"
  unfolding verify_email_def by (intro raises_rules raises_consume assms guar)

lemma raises_register:
  assumes "P try_again" and "\<And>s e. ac_secret_shape A s = Some e \<Longrightarrow> P e" and "P address_error"
  shows "raises P E (register A email pw)"
  unfolding register_def enrol_def Let_def
  by (intro raises_rules raises_hashing raises_helpers raises_mint raises_secret [OF assms(2)] raises_fail
      assms(1,3) guar; assumption?)

lemma raises_redeem:
  assumes "\<And>i. P (KalErr CodeInvalidToken ''this link is invalid or has expired'' i)" and "P try_again"
    and "\<And>s e. ac_secret_shape A s = Some e \<Longrightarrow> P e"
  shows "raises P E (reset_password A token pw)" "raises P E (accept_invite A token pw)"
  unfolding reset_password_def recover_def accept_invite_def
  by (intro raises_rules raises_hashing raises_helpers raises_consume raises_secret [OF assms(3)] raises_sessions
      raises_bindM assms(1,2) guar; assumption?)+

lemma raises_put_vault:
  assumes "\<And>i. P (unauthenticated i)" and "\<And>s. P (invalid_input s)" and "\<And>e. P (conflict_error e)"
  shows "raises P E (put_vault V c v)"
proof -
  have check: "P e" if "check_vault V v = Some e" for e
    using that assms(2) by (auto simp: check_vault_def recovery_error_def Let_def split: if_splits)
  show ?thesis
    unfolding put_vault_def Let_def
    by (intro raises_rules raises_require raises_fail assms guar; (simp add: assms check)?)
qed

end

lemma secret_shapes_code:
  "validate_password s = Some e \<or> validate_auth_secret s = Some e \<Longrightarrow> codes_in C e \<longleftrightarrow> CodeInvalidInput \<in> C"
  by (auto simp: validate_password_def validate_auth_secret_def secret_shape_error_def invalid_input_def
      split: if_splits option.splits)

abbreviation answers :: "env \<Rightarrow> string set \<Rightarrow> 'a prog \<Rightarrow> bool" where
  "answers E C m \<equiv> raises (codes_in C) E m"

text \<open>C20 Every operation keeps to its codes: whatever the database, the mailer, the random source
  and the hasher's bound do, and whatever the tables hold, an error of a flow carries one of the
  codes named here or none at all, for a service with one of the two secret shapes New chooses
  from. In particular nothing but Login and ChangePassword says
  INVALID_CREDENTIALS, logging out and asking for a reset never answer with a code, and a link
  fails with INVALID_TOKEN only.\<close>

theorem flows_keep_to_their_codes:
  assumes "ac_secret_shape A = validate_password \<or> ac_secret_shape A = validate_auth_secret"
  shows "answers E {CodeInvalidCredentials, CodeRateLimited} (login A c email pw)
    \<and> answers E {} (logout A c)
    \<and> answers E {CodeUnauthenticated, CodeInvalidCredentials, CodeInvalidInput, CodeRateLimited} (change_password A c pw nxt)
    \<and> answers E {CodeInvalidInput, CodeRateLimited} (register A email pw)
    \<and> answers E {} (request_password_reset A email)
    \<and> answers E {CodeInvalidToken, CodeInvalidInput, CodeRateLimited} (reset_password A token pw)
    \<and> answers E {CodeInvalidToken} (verify_email token)
    \<and> answers E {CodeInvalidInput} (invite A email)
    \<and> answers E {CodeInvalidToken, CodeInvalidInput, CodeRateLimited} (accept_invite A token pw)
    \<and> answers E {} (issue S user mt) \<and> answers E {} (lookup S token)
    \<and> answers E {} (revoke S sid) \<and> answers E {} (revoke_all_for_user S user)
    \<and> answers E {} (list_sessions user)
    \<and> answers E {CodeUnauthenticated} (rotate S sid) \<and> answers E {CodeUnauthenticated} (record_mfa sid user)
    \<and> answers E {} (client_params V email) \<and> answers E {CodeUnauthenticated} (get_vault c)
    \<and> answers E {CodeUnauthenticated, CodeInvalidInput, CodeConflict} (put_vault V c v)
    \<and> answers E {CodeUnauthenticated} (discard_vault c)"
proof -
  have shape: "codes_in C e \<longleftrightarrow> CodeInvalidInput \<in> C" if "ac_secret_shape A s = Some e" for C s e
    using that assms secret_shapes_code by metis
  note codes = codes_in_KalErr codes_in_try_again rate_limited_code invalid_credentials_def address_error_def
    session_gone_def unauthenticated_def invalid_input_def conflict_error_def shape
  note rules = codes.raises_login codes.raises_logout codes.raises_change_password codes.raises_register
    codes.raises_request codes.raises_redeem codes.raises_verify codes.raises_invite codes.raises_sessions codes.raises_rotate codes.raises_record_mfa codes.raises_vaults
    codes.raises_put_vault codes.raises_client_params
  show ?thesis
    by (intro conjI rules; simp add: codes)
qed

theorem flows_keep_to_their_codes_witness:
  "\<exists>e w'. login sample_accounts background ''a@x.io'' ''guess'' sample_env (world_of sample_db) = (Inl e, w')
     \<and> codes_in {CodeInvalidCredentials, CodeRateLimited} e
     \<and> answers sample_env {CodeInvalidToken} (verify_email ''tk'')"
proof -
  obtain e w' where run: "login sample_accounts background ''a@x.io'' ''guess'' sample_env (world_of sample_db) = (Inl e, w')"
    using sample_login_wrong by blast
  have "ac_secret_shape sample_accounts = validate_password" by simp
  then have all: "answers sample_env {CodeInvalidCredentials, CodeRateLimited} (login sample_accounts background ''a@x.io'' ''guess'')"
      "answers sample_env {CodeInvalidToken} (verify_email ''tk'')"
    using flows_keep_to_their_codes by blast+
  show ?thesis
    by (intro exI conjI; (rule run | rule raisesD [OF all(1) run] | rule all))
qed

end
