(* ===== verification/Work_Bounds.thy ===== *)
theory Work_Bounds
  imports Account_Tokens
begin

text \<open>
  What one call of a flow may cost: \<open>costs n\<close> bounds the password hashes a program computes,
  whatever happens to it. \<open>Hash_Slots\<close> has many of them at once.
\<close>

section \<open>Hashes per request\<close>

definition costs :: "nat \<Rightarrow> env \<Rightarrow> 'a prog \<Rightarrow> bool" where
  "costs n E m \<longleftrightarrow> (\<forall>w. hash_runs (snd (m E w)) \<le> hash_runs w + n)"

lemma costsD: "costs n E m \<Longrightarrow> m E w = (r, w') \<Longrightarrow> hash_runs w' \<le> hash_runs w + n"
  by (metis costs_def snd_conv)

lemma costsI: "(\<And>w r w'. m E w = (r, w') \<Longrightarrow> hash_runs w' \<le> hash_runs w + n) \<Longrightarrow> costs n E m"
  by (metis costs_def prod.collapse)

lemma costs_mono: "costs n E m \<Longrightarrow> n \<le> k \<Longrightarrow> costs k E m"
  by (meson costs_def add_left_mono order_trans)

lemma costs_bindM:
  assumes "costs n E m" and "\<And>r. costs k E (f r)"
  shows "costs (n + k) E (bindM m f)"
proof (rule costsI)
  fix w r w'
  assume "bindM m f E w = (r, w')"
  then obtain a w1 where "m E w = (a, w1)" and "f a E w1 = (r, w')"
    by (rule bindM_run)
  then show "hash_runs w' \<le> hash_runs w + (n + k)"
    using costsD [OF assms(1)] costsD [OF assms(2)] by fastforce
qed

lemma costs_ret: "costs n E (ret x)" "costs n E (fail e)" "costs n E (lift r)"
  by (simp_all add: costs_def ret_def fail_def lift_def)

lemma costs_tryM: "costs n E m \<Longrightarrow> (\<And>a. costs k E (f a)) \<Longrightarrow> costs (n + k) E (tryM m f)"
  unfolding tryM_def by (rule costs_bindM) (auto intro: costs_ret split: sum.split)

text \<open>A step that hashes nothing in front of, or behind, one that may.\<close>

lemma costs_free:
  assumes "costs 0 E m"
  shows "(\<And>a. costs k E (f a)) \<Longrightarrow> costs k E (tryM m f)" "(\<And>r. costs k E (g r)) \<Longrightarrow> costs k E (bindM m g)"
    "costs k E n \<Longrightarrow> costs k E (ignoring prefix m n)"
proof -
  have log: "costs 0 E (log_printf l)" for l
    by (simp add: costs_def log_printf_def)
  show "(\<And>a. costs k E (f a)) \<Longrightarrow> costs k E (tryM m f)" "(\<And>r. costs k E (g r)) \<Longrightarrow> costs k E (bindM m g)"
    using costs_tryM [OF assms] costs_bindM [OF assms] by fastforce+
  assume "costs k E n"
  then have "costs k E (bindM (log_printf l) (\<lambda>_. n))" for l
    using costs_bindM [OF log, of k] by fastforce
  with \<open>costs k E n\<close> have "costs k E (case r of Inl e \<Rightarrow> bindM (log_printf (prefix @ error_text e)) (\<lambda>_. n) | Inr a \<Rightarrow> n)"
    for r :: "goerr + 'a" by (cases r) simp_all
  then show "costs k E (ignoring prefix m n)"
    using costs_bindM [OF assms] unfolding ignoring_def by fastforce
qed

lemma costs_with_env: "costs n E (f E) \<Longrightarrow> costs n E (with_env f)"
  by (simp add: costs_def with_env_def)

lemma costs_cases:
  "(b \<Longrightarrow> costs n E m) \<Longrightarrow> (\<not> b \<Longrightarrow> costs n E k) \<Longrightarrow> costs n E (if b then m else k)"
  "(\<And>e. costs n E (f e)) \<Longrightarrow> (\<And>a. costs n E (g a)) \<Longrightarrow> costs n E (case r of Inl e \<Rightarrow> f e | Inr a \<Rightarrow> g a)"
  "costs n E m \<Longrightarrow> (\<And>a. costs n E (h a)) \<Longrightarrow> costs n E (case v of None \<Rightarrow> m | Some a \<Rightarrow> h a)"
  "(\<And>a b. costs n E (i a b)) \<Longrightarrow> costs n E (case p of (a, b) \<Rightarrow> i a b)"
  by (simp_all split: sum.split option.split prod.split)

lemma costs_effects:
  "costs n E (exec st)" "costs n E (emit hook e)" "costs n E (send_mail to msg)" "costs n E (rand_read k)"
  "costs n E (add_cookie c)" "costs n E (log_printf l)"
  by (auto simp: costs_def log_printf_def exec_def emit_def send_mail_def rand_read_def add_cookie_def split: sum.split)

lemmas costs_rules = costs_ret costs_with_env costs_cases costs_effects

lemma costs_Let: "(\<And>a. costs n E (f a)) \<Longrightarrow> costs n E (Let x f)"
  by (simp add: Let_def)

lemma costs_query_one: "costs n E (query_one st)"
  unfolding query_one_def by (intro costs_free(1) costs_rules)

text \<open>The hasher computes at most one.\<close>

lemma costs_within_bound:
  assumes "costs n E m"
  shows "costs n E (within_bound H m)"
proof (rule costsI)
  fix w r w'
  assume run: "within_bound H m E w = (r, w')"
  show "hash_runs w' \<le> hash_runs w + n"
  proof (cases "busy H E w")
    case True
    with run show ?thesis by (auto simp: within_bound_eq)
  next
    case False
    with run obtain w1 where "m E (took_slot w) = (r, w1)" and "hash_runs w' = hash_runs w1"
      by (auto simp: within_bound_eq split: prod.splits)
    with costsD [OF assms] show ?thesis by fastforce
  qed
qed

lemma costs_id_key: "costs 1 E (id_key pw salt p)"
  by (simp add: costs_def id_key_def bindM_def count_hash_def with_env_def fail_def ret_def split: option.split)

lemma costs_count: "costs 1 E (bindM count_hash f)" if "\<And>r. costs 0 E (f r)"
  using costs_bindM [of 1 E count_hash 0 f] that by (simp add: costs_def count_hash_def)

text \<open>One costly step, then a free rest; one costly step, then a rest that may hash once more.\<close>

lemma costs_last:
  assumes "costs 1 E m"
  shows "(\<And>a. costs 0 E (f a)) \<Longrightarrow> costs 1 E (tryM m f)" "(\<And>r. costs 0 E (g r)) \<Longrightarrow> costs 1 E (bindM m g)"
    "(\<And>a. costs 1 E (f a)) \<Longrightarrow> costs 2 E (tryM m f)"
  using costs_tryM [OF assms] costs_bindM [OF assms] by (fastforce simp: numeral_2_eq_2)+

lemma costs_hashing:
  "costs 1 E (hash_password H pw)" "costs 1 E (verify H pw enc)" "costs 1 E (verify_dummy H pw)"
proof -
  have "costs 1 E (verify_stored H pw enc)" for enc
    unfolding verify_stored_def Let_def
    by (intro costs_cases costs_count costs_with_env costs_free(1) costs_ret costs_last(1) [OF costs_id_key])
  then show v: "costs 1 E (verify H pw enc)" for enc
    unfolding verify_def by (rule costs_within_bound)
  show "costs 1 E (verify_dummy H pw)"
    unfolding verify_dummy_def by (intro costs_last(1) v costs_ret)
  show "costs 1 E (hash_password H pw)"
    unfolding hash_password_def hash_bytes_def
    by (intro costs_within_bound costs_free(1) [OF costs_effects(4)] costs_last(1) [OF costs_id_key] costs_ret)
qed

lemma costs_sessions:
  "costs 0 E (issue S user mt)" "costs 0 E (lookup S token)" "costs 0 E (rotate S sid)"
  "costs 0 E (revoke S sid)" "costs 0 E (revoke_all_for_user S user)" "costs 0 E (set_cookie c k)"
  "costs 0 E new_token"
  unfolding session_ops set_cookie_def Let_def
  by (intro costs_free costs_rules costs_query_one)+

lemma costs_helpers:
  "costs 0 E (record_failure key ip)" "costs 0 E (reset_backoff key ip)" "costs 0 E (notify A to msg)"
  "costs 0 E (rehash_failed A user e)" "costs 0 E (check_backoff A key ip)" "costs 0 E (check_secret A secret)"
  unfolding record_failure_def reset_backoff_def notify_def rehash_failed_def check_backoff_def check_secret_def
  by (intro costs_free costs_rules)+

lemma costs_rehash: "costs 1 E (rehash_stored A user password old)"
  unfolding rehash_stored_def
  by (intro costs_last(2) costs_hashing costs_free costs_rules costs_helpers)

lemma costs_token_parts: "costs 0 E (mint user p)" "costs 0 E (consume token p)"
  unfolding mint_def consume_def
  by (intro costs_free costs_rules costs_sessions costs_query_one)+

lemma costs_start: "costs 0 E (start_session A c user)"
  unfolding start_session_def by (intro costs_free costs_rules costs_sessions)

lemma costs_login_known: "costs 2 E (login_known A c email password prior user stored verified)"
  unfolding login_known_def Let_def
  by (intro costs_last(3) costs_hashing costs_rules)
    (intro costs_free costs_helpers costs_rules costs_last costs_rehash costs_start)+

lemma costs_login_nobody: "costs 1 E (login_nobody A email password ip :: 'a prog)"
  unfolding login_nobody_def
  by (intro costs_last(1) costs_hashing costs_free costs_helpers costs_rules)

lemma costs_login: "costs 2 E (login A c email password)"
  unfolding login_def Let_def
  by (intro costs_free costs_query_one costs_helpers costs_login_known costs_rules
      costs_mono [OF costs_login_nobody]; simp)

lemma costs_swap: "costs 1 E (swap_password A c p stored email nxt)"
  unfolding swap_password_def
  by (intro costs_last(1) costs_hashing costs_free costs_helpers costs_sessions costs_rules)

lemma costs_change_password: "costs 2 E (change_password A c current nxt)"
  unfolding change_password_def
  by (intro costs_free(1) [OF costs_ret(3)] costs_free(1) [OF costs_helpers(6)] costs_free(2) [OF costs_query_one]
      costs_cases costs_ret costs_last(3) costs_hashing costs_with_env costs_swap
      costs_free(1) [OF costs_helpers(1)])

lemma costs_recover: "costs 1 E (recover A user password)"
  unfolding recover_def
  by (intro costs_last(1) costs_hashing costs_free costs_query_one costs_helpers costs_sessions costs_rules)

lemma costs_token_flows:
  "costs 1 E (register A email password)" "costs 0 E (request_password_reset A email)"
  "costs 1 E (reset_password A token password)" "costs 0 E (verify_email token)"
  "costs 0 E (invite A email)" "costs 1 E (accept_invite A token password)"
proof -
  have enrol: "costs 0 E (enrol A e h)" for e h
    unfolding enrol_def by (intro costs_free costs_query_one costs_token_parts costs_helpers costs_rules)
  then show "costs 1 E (register A email password)"
    unfolding register_def Let_def
    by (intro costs_with_env costs_cases costs_ret costs_free(1) [OF costs_helpers(6)] costs_last(1) costs_hashing)
  show "costs 0 E (request_password_reset A email)" "costs 0 E (verify_email token)" "costs 0 E (invite A email)"
    unfolding request_password_reset_def verify_email_def invite_def Let_def
    by (intro costs_free costs_query_one costs_token_parts costs_helpers costs_rules)+
  show "costs 1 E (reset_password A token password)"
    unfolding reset_password_def
    by (intro costs_free(1) [OF costs_helpers(6)] costs_free(1) [OF costs_token_parts(2)] costs_recover)
  show "costs 1 E (accept_invite A token password)"
    unfolding accept_invite_def
    by (intro costs_free(1) [OF costs_helpers(6)] costs_free(1) [OF costs_token_parts(2)] costs_last(1) costs_hashing
        costs_free costs_rules)
qed

text \<open>C39 One call of a flow buys a bounded amount of work: whatever the tables hold and whatever fails on
  the way, a login or a password change computes at most two password hashes, a registration, a
  reset or an accepted invitation at most one, and asking for a reset, verifying an address and
  inviting none; and each of them gives every hashing slot back.\<close>

theorem hashing_is_bounded:
  "hash_runs (snd (login A c email pw E w)) \<le> hash_runs w + 2
   \<and> hash_runs (snd (change_password A c pw nxt E w)) \<le> hash_runs w + 2
   \<and> hash_runs (snd (register A email pw E w)) \<le> hash_runs w + 1
   \<and> hash_runs (snd (reset_password A token pw E w)) \<le> hash_runs w + 1
   \<and> hash_runs (snd (accept_invite A token pw E w)) \<le> hash_runs w + 1
   \<and> hash_runs (snd (request_password_reset A email E w)) = hash_runs w
   \<and> hash_runs (snd (verify_email token E w)) = hash_runs w
   \<and> hash_runs (snd (invite A email E w)) = hash_runs w
   \<and> in_flight (snd (login A c email pw E w)) = in_flight w
   \<and> in_flight (snd (change_password A c pw nxt E w)) = in_flight w
   \<and> in_flight (snd (register A email pw E w)) = in_flight w
   \<and> in_flight (snd (reset_password A token pw E w)) = in_flight w
   \<and> in_flight (snd (accept_invite A token pw E w)) = in_flight w"
proof -
  have "keeps log_grows E (request_password_reset A email)" "keeps log_grows E (verify_email token)"
    "keeps log_grows E (invite A email)"
    unfolding token_flows notify_def Let_def by (intro logs.keeps_rules guar)+
  note low = this [unfolded keeps_def log_grows_def, THEN spec, THEN conjunct2, THEN conjunct1]
  note high = costs_login [unfolded costs_def, THEN spec] costs_change_password [unfolded costs_def, THEN spec]
    costs_token_flows [unfolded costs_def, THEN spec]
  note slots = slots_accounts [unfolded keeps_def same_slots_def, THEN spec]
    slots_token_flows [unfolded keeps_def same_slots_def, THEN spec]
  have "hash_runs (snd (request_password_reset A email E w)) = hash_runs w"
    "hash_runs (snd (verify_email token E w)) = hash_runs w" "hash_runs (snd (invite A email E w)) = hash_runs w"
    by (rule order_antisym; use low high(4,6,7) in simp)+
  then show ?thesis
    by (intro conjI high slots)
qed

end
