(* ===== verification/Lifecycle.thy ===== *)
theory Lifecycle
  imports Login_Live Token_Facts
begin

text \<open>
  Accounts followed across requests: from the registration through the mailed link to the first
  login, and from a forgotten password through the mailed link to a login with the new one. Each
  request runs in an environment and a world of its own; what carries over is the tables, the
  mailbox and the host (Argon2, bcrypt, the Unicode tables).
\<close>

section \<open>What carries over\<close>

definition same_host :: "env \<Rightarrow> env \<Rightarrow> bool" where
  "same_host E F \<longleftrightarrow> unicode F = unicode E \<and> argon2 F = argon2 E \<and> bcrypt F = bcrypt E"

lemma same_host_facts:
  assumes "same_host E F"
  shows "unicode F = unicode E" "matches F pw enc \<longleftrightarrow> matches E pw enc" "argon2_ok F \<longleftrightarrow> argon2_ok E"
  using assms by (simp_all add: same_host_def matches_def argon2_ok_def split: sum.split)

definition mail_works :: "env \<Rightarrow> bool" where
  "mail_works E \<longleftrightarrow> (\<forall>n. \<not> mail_fails E n)"

text \<open>What a login needs of the moment it comes in, beside the right password.\<close>

definition ready :: "accounts \<Rightarrow> env \<Rightarrow> world \<Rightarrow> ctx \<Rightarrow> string \<Rightarrow> bool" where
  "ready A G x c email \<longleftrightarrow> quiet G \<and> new_keys G (db x) \<and> cx_jar c \<and> in_flight x < h_limit (ac_hasher A)
     \<and> (\<forall>a \<in> set (attempts (db x)). attempt_hit (normalise (unicode G) email) (mt_ip (meta_from_context c)) a
          \<longrightarrow> delay_for (a_scope a) (a_failures a) \<le> db_clock G (step x) - a_last a)
     \<and> (\<forall>n. db_clock G (Suc n) < db_clock G n + ss_idle (ac_sessions A))"

definition sane :: "accounts \<Rightarrow> bool" where
  "sane A \<longleftrightarrow> envelope (h_params (ac_hasher A)) \<and> runnable (h_params (ac_hasher A))
     \<and> ss_idle (ac_sessions A) \<le> ss_absolute (ac_sessions A)"

lemma ready_login:
  assumes "ready A G x c email" and "sane A" and "argon2_ok G" and "wf_db (unicode G) (db x)"
    and "u \<in> set (users (db x))" and "live_email (unicode G) (normalise (unicode G) email) u"
    and "u_hash u = Some stored" and "matches G password stored" and "u_verified u \<or> ac_allow_unverified A"
  shows "\<exists>p x'. login A c email password G x = (Inr p, x') \<and> p_user p = u_id u"
proof (rule login_runs [OF _ assms(3) _ assms(4) _ _ assms(5-9)])
  show "quiet G" "new_keys G (db x)" "cx_jar c" "in_flight x < h_limit (ac_hasher A)"
    "\<And>n. db_clock G (Suc n) < db_clock G n + ss_idle (ac_sessions A)"
    using assms(1) by (simp_all add: ready_def)
  show "runnable (h_params (ac_hasher A))" "ss_idle (ac_sessions A) \<le> ss_absolute (ac_sessions A)"
    using assms(2) by (simp_all add: sane_def)
  show "delay_for (a_scope a) (a_failures a) \<le> db_clock G (step x) - a_last a"
    if "a \<in> set (attempts (db x))" "attempt_hit (normalise (unicode G) email) (mt_ip (meta_from_context c)) a" for a
    using assms(1) that by (simp add: ready_def)
qed

section \<open>A link in the mailbox\<close>

text \<open>A mint that succeeds leaves a redeemable row, and only that.\<close>

lemma mint_Inr:
  assumes "mint user p E w = (Inr token, w')"
  obtains t where "t \<in> set (tokens (db w'))" and "t_hash t = hash_token token" and "t_user t = user"
    and "t_purpose t = purpose_text p" and "t_consumed t = None"
    and "t_expires t = db_clock E (Suc (step w)) + purpose_ttl p"
    and "db w' = (db w)\<lparr>tokens := tokens (db w')\<rparr>" and "step w' = Suc (Suc (step w))" and "outbox w' = outbox w"
proof -
  from assms obtain h w1 where t: "new_token E w = (Inr (token, h), w1)"
    and x: "exec (insert_token_sql h user (purpose_text p) (purpose_ttl p)) E w1 = (Inr (), w')"
    by (auto simp: mint_def tryM_Inr_iff ret_def)
  note nt = new_token_Inr [OF t]
  let ?new = "\<lparr>t_hash = h, t_user = user, t_purpose = purpose_text p, t_expires = db_clock E (step w1) + purpose_ttl p,
      t_consumed = None, t_created = db_clock E (step w1)\<rparr>"
  from x obtain d where st: "insert_token_sql h user (purpose_text p) (purpose_ttl p) (db_clock E (step w1)) (new_uuid E (step w1)) (db w1) = Inr ((), d)"
    and w': "w' = (tick w1)\<lparr>db := d\<rparr>"
    by (rule exec_Inr)
  have d: "d = (db w)\<lparr>tokens := tokens d\<rparr>"
    using st nt by (auto simp: insert_token_sql_def split: if_splits)
  show thesis
  proof (cases "list_ex (\<lambda>t. t_hash t = h) (tokens (db w))")
    case True
    then obtain t where "t \<in> set (tokens (db w))" "t_hash t = h" by (auto simp: list_ex_iff)
    then have "t\<lparr>t_user := user, t_purpose := purpose_text p, t_expires := db_clock E (step w1) + purpose_ttl p, t_consumed := None\<rparr>
        \<in> set (tokens (db w'))"
      using st nt w' True by (auto simp: insert_token_sql_def set_update_where split: if_splits)
    then show thesis
      by (rule that) (use nt w' d \<open>t_hash t = h\<close> in auto)
  next
    case False
    then have "?new \<in> set (tokens (db w'))"
      using st nt w' by (auto simp: insert_token_sql_def split: if_splits)
    then show thesis
      by (rule that) (use nt w' d in auto)
  qed
qed

lemma notify_mails: "mail_works E \<Longrightarrow> notify A to msg E w
    = (Inr (), (tick w)\<lparr>log_lines := log_lines w @ mail_lines E to msg, outbox := outbox w @ [(to, msg)]\<rparr>)"
  by (simp add: notify_def bindM_def send_mail_def mail_works_def ret_def)

lemma consume_runs:
  assumes "\<not> db_fails F (step v)" and "wf_tokens (db v)" and "t \<in> set (tokens (db v))"
    and "redeemable (hash_token token) (purpose_text p) (db_clock F (step v)) t"
  shows "\<exists>v'. consume token p F v = (Inr (t_user t), v') \<and> db v' = (db v)\<lparr>tokens := tokens (db v')\<rparr> \<and> step v' = Suc (step v)
    \<and> in_flight v' = in_flight v"
  using assms redeemable_unique [OF assms(2-4)]
  by (simp add: consume_def query_one_def tryM_def bindM_def exec_def consume_token_sql_def lift_def ret_def)

section \<open>Registration\<close>

text \<open>A registration of an address no live account has, as the row and the link it leaves.\<close>

lemma register_Inr:
  assumes "register A email pw E w = (Inr (), w')" and "mail_works E" and "argon2_ok E"
    and "envelope (h_params (ac_hasher A))"
  defines "addr \<equiv> normalise (unicode E) email"
  assumes "\<not> list_ex (\<lambda>u. live_user u \<and> email_key (unicode E) u = pg_lower (unicode E) addr) (users (db w))"
  obtains u t token n where "users (db w') = users (db w) @ [u]" and "\<not> has_user (db w) (u_id u)"
    and "u_email u = addr" and "live_user u" and "\<exists>enc. u_hash u = Some enc \<and> matches E pw enc"
    and "t \<in> set (tokens (db w'))" and "t_hash t = hash_token token" and "t_user t = u_id u"
    and "t_purpose t = ''verify''" and "t_consumed t = None" and "t_expires t = db_clock E n + hours 24" and "step w \<le> n"
    and "db w' = (db w)\<lparr>users := users (db w'), tokens := tokens (db w')\<rparr>"
    and "outbox w' = outbox w @ [(addr, verify_mail (link A ''verify'' token))]"
proof -
  from assms(1) obtain enc w1 where h: "hash_password (ac_hasher A) pw E w = (Inr enc, w1)"
    and en: "enrol A addr enc E w1 = (Inr (), w')"
    by (auto simp: register_eq addr_def split: if_splits option.splits prod.splits sum.splits)
  note hm = hash_password_matches [OF h assms(3,4)]
  have w1: "db w1 = db w" "outbox w1 = outbox w" "step w \<le> step w1"
    by (simp_all add: hm(2))
  from en obtain r w2 where q: "query_one (insert_user_sql (unicode E) addr enc) E w1 = (r, w2)"
    and rest: "(case r of Inr user \<Rightarrow> tryM (mint user PurposeVerify) (\<lambda>token.
         notify A addr (verify_mail (link A ''verify'' token)))
     | Inl e \<Rightarrow> if is_no_rows e then notify A addr (attempted_register_mail (ac_base_url A))
         else fail e) E w2 = (Inr (), w')"
    by (auto simp: enrol_def with_env_def elim!: bindM_run)
  let ?u = "\<lparr>u_id = new_uuid E (step w1), u_email = addr, u_hash = Some enc, u_verified = False,
      u_created = db_clock E (step w1), u_updated = db_clock E (step w1), u_deleted = None\<rparr>"
  have "r \<noteq> Inl e" for e
  proof
    assume r: "r = Inl e"
    with q assms(6) w1 have "\<not> is_no_rows e"
      by (auto simp: query_one_def tryM_def bindM_def exec_def insert_user_sql_def insert_account_def lift_def
          fail_def unique_violation_def split: if_splits)
    with r rest show False by (simp add: fail_def)
  qed
  then obtain user where r: "r = Inr user" by (cases r) auto
  with q assms(6) w1 have u: "user = new_uuid E (step w1)" "\<not> has_user (db w) user"
    and w2: "db w2 = (db w)\<lparr>users := users (db w) @ [?u]\<rparr>" "step w2 = Suc (step w1)" "outbox w2 = outbox w"
    by (auto simp: query_one_def tryM_def bindM_def exec_def insert_user_sql_def insert_account_def lift_def
        fail_def has_user_def split: if_splits)
  from rest r obtain token w3 where m: "mint user PurposeVerify E w2 = (Inr token, w3)"
    and nf: "notify A addr (verify_mail (link A ''verify'' token)) E w3 = (Inr (), w')"
    by (auto simp: tryM_Inr_iff)
  have w': "w' = (tick w3)\<lparr>log_lines := log_lines w3 @ mail_lines E addr (verify_mail (link A ''verify'' token)),
      outbox := outbox w3 @ [(addr, verify_mail (link A ''verify'' token))]\<rparr>"
    using nf notify_mails [OF assms(2)] by simp
  from m obtain t where t: "t \<in> set (tokens (db w3))" "t_hash t = hash_token token" "t_user t = user"
    "t_purpose t = ''verify''" "t_consumed t = None" "t_expires t = db_clock E (Suc (step w2)) + hours 24"
    and w3: "db w3 = (db w2)\<lparr>tokens := tokens (db w3)\<rparr>" "outbox w3 = outbox w2"
    by (rule mint_Inr) auto
  have us: "users (db w3) = users (db w) @ [?u]"
    by (subst w3(1)) (simp add: w2)
  have d: "db w3 = (db w)\<lparr>users := users (db w3), tokens := tokens (db w3)\<rparr>"
    by (subst w3(1)) (simp add: us w2(1))
  show thesis
    by (rule that [of ?u t token "Suc (step w2)"])
      (use t us d u w' w1 w2 w3 hm(1) in \<open>auto simp: live_user_def\<close>)
qed

text \<open>Following the link.\<close>

lemma verify_email_runs:
  assumes "quiet F" and "wf_tokens (db v)" and "t \<in> set (tokens (db v))" and "t_hash t = hash_token token"
    and "t_purpose t = ''verify''" and "t_consumed t = None" and "db_clock F (step v) < t_expires t"
  shows "\<exists>v' now. verify_email token F v = (Inr (), v')
    \<and> db v' = (db v)\<lparr>tokens := tokens (db v'), users := update_where (\<lambda>u. u_id u = t_user t)
        (\<lambda>u. u\<lparr>u_verified := True, u_updated := now\<rparr>) (users (db v))\<rparr>"
proof -
  have r: "redeemable (hash_token token) (purpose_text PurposeVerify) (db_clock F (step v)) t"
    using assms(4-7) by (simp add: redeemable_def)
  obtain v1 where c: "consume token PurposeVerify F v = (Inr (t_user t), v1)"
    and v1: "db v1 = (db v)\<lparr>tokens := tokens (db v1)\<rparr>"
    using consume_runs [OF _ assms(2,3) r] assms(1) by (auto simp: quiet_def)
  let ?now = "db_clock F (step v1)"
  let ?us = "update_where (\<lambda>u. u_id u = t_user t) (\<lambda>u. u\<lparr>u_verified := True, u_updated := ?now\<rparr>) (users (db v))"
  have "users (db v1) = users (db v)" by (subst v1) simp
  then have "exec (mark_verified_sql (t_user t)) F v1 = (Inr (), (tick v1)\<lparr>db := (db v1)\<lparr>users := ?us\<rparr>\<rparr>)"
    using assms(1) by (simp add: exec_def mark_verified_sql_def quiet_def)
  with c have "verify_email token F v = (Inr (), (tick v1)\<lparr>db := (db v1)\<lparr>users := ?us\<rparr>\<rparr>)"
    by (simp add: verify_email_def tryM_def bindM_def)
  moreover have "(db v1)\<lparr>users := ?us\<rparr> = (db v)\<lparr>tokens := tokens (db v1), users := ?us\<rparr>"
    by (subst v1) simp
  ultimately show ?thesis by auto
qed

text \<open>C6 From registration to the first login: when a registration of an address no live account
  has returns, the one mail it sent carries a link; following it within twenty-four hours
  verifies the account; and from then on Login with that address and password returns the new
  account's principal, whenever the moment is a quiet one.\<close>

theorem registered_account_logs_in:
  assumes reg: "register A email pw E w = (Inr (), w1)" and "mail_works E" and ok: "argon2_ok E" and "sane A"
    and mono: "mono (db_clock E)" and wf: "wf_db (unicode E) (db w)"
    and lower: "pg_lower (unicode E) (normalise (unicode E) email) = normalise (unicode E) email"
    and free: "\<not> list_ex (live_email (unicode E) (normalise (unicode E) email)) (users (db w))"
    and v: "db v = db w1" "same_host E F" "quiet F" "db_clock F (step v) < db_clock E (step w) + hours 24"
  shows "\<exists>token user v'. outbox w1 = outbox w @ [(normalise (unicode E) email, verify_mail (link A ''verify'' token))]
    \<and> \<not> has_user (db w) user \<and> verify_email token F v = (Inr (), v')
    \<and> (\<forall>G x c. same_host E G \<and> db x = db v' \<and> ready A G x c email
          \<longrightarrow> (\<exists>p x'. login A c email pw G x = (Inr p, x') \<and> p_user p = user))"
proof -
  let ?addr = "normalise (unicode E) email"
  have "\<not> list_ex (\<lambda>u. live_user u \<and> email_key (unicode E) u = pg_lower (unicode E) ?addr) (users (db w))"
    using free by (auto simp: list_ex_iff live_email_def email_key_def lower)
  with reg assms(2) ok assms(4) obtain u :: user_row and t :: token_row and token enc n where
    us: "users (db w1) = users (db w) @ [u]" "\<not> has_user (db w) (u_id u)" "u_email u = ?addr" "live_user u"
      "u_hash u = Some enc" "matches E pw enc"
    and t: "t \<in> set (tokens (db w1))" "t_hash t = hash_token token" "t_user t = u_id u" "t_purpose t = ''verify''"
      "t_consumed t = None" "t_expires t = db_clock E n + hours 24" "step w \<le> n"
    and mail: "outbox w1 = outbox w @ [(?addr, verify_mail (link A ''verify'' token))]"
    by (elim register_Inr) (auto simp: sane_def)
  have wf1: "wf_db (unicode E) (db w1)"
    using via_wf [OF via_register reg mono wf] .
  have "db_clock F (step v) < t_expires t"
    using v(4) t(6) monoD [OF mono t(7)] by simp
  with verify_email_runs [OF v(3), of v t token] wf1 t v(1) obtain v' now where
    ver: "verify_email token F v = (Inr (), v')"
    and db: "db v' = (db v)\<lparr>tokens := tokens (db v'), users := update_where (\<lambda>y. u_id y = t_user t)
        (\<lambda>y. y\<lparr>u_verified := True, u_updated := now\<rparr>) (users (db v))\<rparr>"
    by (auto simp: wf_db_def)
  let ?u = "u\<lparr>u_verified := True, u_updated := now\<rparr>"
  have host: "unicode F = unicode E" using same_host_facts(1) [OF v(2)] .
  have wf': "wf_db (unicode E) (db v')"
    using via_wf [OF via_redeem(2) ver] v(1,3) wf1 host by (simp add: quiet_def)
  have "?u \<in> set (users (db v'))"
    by (subst db) (simp add: v(1) us(1) t(3) set_update_where)
  moreover have "\<exists>p x'. login A c email pw G x = (Inr p, x') \<and> p_user p = u_id ?u"
    if "same_host E G" "db x = db v'" "ready A G x c email" for G x c
    using ready_login [OF that(3) assms(4), of ?u enc pw] same_host_facts [OF that(1)] ok wf' that(2) calculation us lower
    by (auto simp: live_email_def live_user_def)
  ultimately show ?thesis
    using mail us(2) ver by (intro exI [of _ token] exI [of _ "u_id u"] exI [of _ v']) auto
qed

lemma tokens_only_frame:
  "x = (tick v)\<lparr>db := (db v)\<lparr>tokens := ts\<rparr>\<rparr> \<Longrightarrow> sessions (db x) = sessions (db v) \<and> attempts (db x) = attempts (db v)"
  by simp

lemma verify_email_frame:
  "verify_email token F v = (Inr (), v') \<Longrightarrow> sessions (db v') = sessions (db v) \<and> attempts (db v') = attempts (db v)"
  unfolding verify_email_def
  by (elim tryM_Inr consume_Inr exec_Inr) (auto simp: mark_verified_sql_def dest!: tokens_only_frame)

lemma sample_sane: "sane sample_accounts"
  using sample_envelope by (simp add: sane_def runnable_def sample_hasher_def params_defaults_def)

lemma sample_moment:
  "quiet sample_env" "same_host sample_env sample_env" "mail_works sample_env" "wf_db (unicode sample_env) (db (world_of sample_db))"
  by (simp_all add: quiet_def sample_clock_mono same_host_def mail_works_def sample_wf)

lemma sample_ready:
  "sessions (db x) = [] \<Longrightarrow> attempts (db x) = [] \<Longrightarrow> in_flight x = 0
     \<Longrightarrow> ready sample_accounts sample_env x (background\<lparr>cx_jar := True\<rparr>) email"
  using sample_moment(1) by (simp add: ready_def new_keys_def session_keys_def)

lemma sample_register_run:
  "\<exists>w1. register sample_accounts ''b@x.io'' ''a new secret'' sample_env (world_of sample_db) = (Inr (), w1)
     \<and> sessions (db w1) = [] \<and> attempts (db w1) = []"
proof -
  obtain enc w0 where h: "hash_password (ac_hasher sample_accounts) ''a new secret'' sample_env (world_of sample_db) = (Inr enc, w0)"
    using sample_hash_run [of "ac_hasher sample_accounts" "''a new secret''" sample_db]
    by (auto simp: params_defaults_def sample_hasher_def)
  have "db w0 = sample_db"
    using keepsD [OF hashing_effects(10) h] by (simp add: same_db_def)
  then have "fresh_uuid sample_env (db w0)"
    using sample_fresh by simp
  then obtain w1 where "enrol sample_accounts ''b@x.io'' enc sample_env w0 = (Inr (), w1)"
    using enrol_calm [OF sample_calm] by blast
  with h have run: "register sample_accounts ''b@x.io'' ''a new secret'' sample_env (world_of sample_db) = (Inr (), w1)"
    by (simp add: register_eq plausible_address_def sample_secret)
  have "db w1 = (db (world_of sample_db))\<lparr>users := users (db w1), tokens := tokens (db w1)\<rparr>"
    by (rule register_Inr [OF run _ sample_argon2_ok sample_envelope])
      (auto simp: mail_works_def email_key_def pg_lower_def is_ascii_def ascii_char_def lower_char_def)
  then have "sessions (db w1) = [] \<and> attempts (db w1) = []"
    by (rule ssubst) simp
  with run show ?thesis by blast
qed

theorem registered_account_logs_in_witness:
  "\<exists>w1 token v' p x'. register sample_accounts ''b@x.io'' ''a new secret'' sample_env (world_of sample_db) = (Inr (), w1)
     \<and> outbox w1 = [(''b@x.io'', verify_mail (link sample_accounts ''verify'' token))]
     \<and> verify_email token sample_env (w1\<lparr>step := 0\<rparr>) = (Inr (), v')
     \<and> login sample_accounts (background\<lparr>cx_jar := True\<rparr>) ''b@x.io'' ''a new secret'' sample_env
         (v'\<lparr>in_flight := 0\<rparr>) = (Inr p, x') \<and> p_user p \<noteq> ''u1''"
proof -
  obtain w1 where run: "register sample_accounts ''b@x.io'' ''a new secret'' sample_env (world_of sample_db) = (Inr (), w1)"
    and empty: "sessions (db w1) = []" "attempts (db w1) = []"
    using sample_register_run by blast
  obtain token user v' where res: "outbox w1 = outbox (world_of sample_db) @ [(normalise (unicode sample_env) ''b@x.io'', verify_mail (link sample_accounts ''verify'' token))]"
    "\<not> has_user (db (world_of sample_db)) user" "verify_email token sample_env (w1\<lparr>step := 0\<rparr>) = (Inr (), v')"
    and login: "\<forall>G x c. same_host sample_env G \<and> db x = db v' \<and> ready sample_accounts G x c ''b@x.io''
          \<longrightarrow> (\<exists>p x'. login sample_accounts c ''b@x.io'' ''a new secret'' G x = (Inr p, x') \<and> p_user p = user)"
    using registered_account_logs_in [OF run _ sample_argon2_ok sample_sane sample_clock_mono, where v = "w1\<lparr>step := 0\<rparr>" and F = sample_env] sample_moment
    by (auto simp: live_email_def pg_lower_def is_ascii_def ascii_char_def lower_char_def hours_def seconds_def)
  have "ready sample_accounts sample_env (v'\<lparr>in_flight := 0\<rparr>) (background\<lparr>cx_jar := True\<rparr>) ''b@x.io''"
    using verify_email_frame [OF res(3)] empty by (intro sample_ready) simp_all
  then have "\<exists>p x'. login sample_accounts (background\<lparr>cx_jar := True\<rparr>) ''b@x.io'' ''a new secret'' sample_env
      (v'\<lparr>in_flight := 0\<rparr>) = (Inr p, x') \<and> p_user p = user"
    by (intro login [rule_format] conjI sample_moment(2)) simp_all
  then obtain p x' where "login sample_accounts (background\<lparr>cx_jar := True\<rparr>) ''b@x.io'' ''a new secret'' sample_env
      (v'\<lparr>in_flight := 0\<rparr>) = (Inr p, x')" "p_user p = user"
    by blast
  moreover have "user \<noteq> ''u1''"
    using res(2) by (auto simp: has_user_def)
  ultimately show ?thesis using run res by auto
qed

end
