(* ===== verification/Recovery.thy ===== *)
theory Recovery
  imports Lifecycle
begin

text \<open>
  The forgotten password followed across requests, as \<open>Lifecycle\<close> does for a registration: the
  request that mails the link, the reset that redeems it, the login with the new password.
\<close>

section \<open>Steps that run\<close>

lemma hash_runs_through:
  assumes "quiet F" and "argon2_ok F" and "runnable (h_params H)" and "in_flight v < h_limit H"
  shows "\<exists>enc. hash_password H pw F v = (Inr enc, hashed_once 2 v)"
proof (cases "fst (hash_password H pw F v)")
  case (Inr enc)
  then have run: "hash_password H pw F v = (Inr enc, snd (hash_password H pw F v))"
    by (simp add: prod_eq_iff)
  from run have "snd (hash_password H pw F v) = hashed_once 2 v"
    by (rule hash_password_Inr) simp
  with run show ?thesis by metis
next
  case (Inl e)
  let ?p = "h_params H" and ?v = "took_slot v"
  have "\<not> busy H F v" using assms(1,4) by (simp add: busy_def quiet_def)
  with Inl have bytes: "fst (hash_bytes ?p (bytes_of pw) F ?v) = Inl e"
    by (auto simp: hash_password_def within_bound_eq split: prod.splits)
  let ?salt = "map (rand_byte F (step ?v)) [0..<unat (hp_salt_len ?p)]"
  let ?key = "argon2 F (bytes_of pw) ?salt (unat (hp_time ?p)) (unat (hp_memory ?p)) (unat (hp_parallelism ?p))
      (unat (hp_key_len ?p))"
  obtain key where "?key = Some key"
    using assms(2,3) by (rule argon2_runs)
  with assms(1) bytes show ?thesis
    by (simp add: hash_bytes_def id_key_def tryM_def bindM_def rand_read_def with_env_def count_hash_def
        ret_def quiet_def del: upt_Suc upt_rec_numeral)
qed

lemma recover_runs:
  assumes "quiet F" and "argon2_ok F" and "runnable (h_params (ac_hasher A))" and "in_flight v < h_limit (ac_hasher A)"
    and "envelope (h_params (ac_hasher A))"
  shows "\<exists>enc now now' v'. recover A user pw F v = (Inr (), v') \<and> matches F pw enc
     \<and> db v' = (db v)\<lparr>users := update_where (\<lambda>u. u_id u = user) (\<lambda>u. u\<lparr>u_hash := Some enc, u_updated := now\<rparr>) (users (db v)),
         sessions := update_where (\<lambda>s. s_user s = user \<and> s_revoked s = None) (s_revoked_update (\<lambda>_. Some now')) (sessions (db v))\<rparr>"
proof -
  have ok: "\<not> db_fails F n" for n using assms(1) by (simp add: quiet_def)
  obtain enc where h: "hash_password (ac_hasher A) pw F v = (Inr enc, hashed_once 2 v)"
    using hash_runs_through [OF assms(1-4)] by blast
  obtain v2 where sp: "exec (set_password_sql enc user) F (hashed_once 2 v) = (Inr (), v2)"
    and v2: "db v2 = (db v)\<lparr>users := update_where (\<lambda>u. u_id u = user)
        (\<lambda>u. u\<lparr>u_hash := Some enc, u_updated := db_clock F (step v + 2)\<rparr>) (users (db v))\<rparr>"
    using ok by (simp add: exec_def set_password_sql_def)
  have "fst (revoke_all_for_user (ac_sessions A) user F v2) = Inr ()"
    using ok by (simp add: revoke_all_for_user_def tryM_def bindM_def exec_def revoke_all_sql_def emit_def ret_def)
  then obtain v3 where rv: "revoke_all_for_user (ac_sessions A) user F v2 = (Inr (), v3)"
    by (metis prod.collapse)
  obtain r v4 where q: "query_one (email_by_id_sql user) F v3 = (r, v4)" by fastforce
  then have v4: "db v4 = db v3"
    by (auto simp: query_one_def tryM_def bindM_def exec_def email_by_id_sql_def lift_def fail_def
        split: if_splits sum.splits)
  let ?last = "case r of Inr email \<Rightarrow> notify A email password_reset_mail | Inl e \<Rightarrow> ret ()"
  have "returns F ?last" by (auto intro: returns_simple split: sum.split)
  then obtain v5 where last: "?last F v4 = (Inr (), v5)"
    by (metis returns_def prod.collapse)
  then have v5: "db v5 = db v4"
    by (auto simp: ret_def split: sum.splits dest: notify_run)
  have "recover A user pw F v = (Inr (), v5)"
    using h sp rv q last by (simp add: recover_def tryM_def bindM_def)
  then show ?thesis
    using hash_password_matches(1) [OF h assms(2,5)] revoke_all_Inr [OF rv] v2 v4 v5 by fastforce
qed

lemma reset_password_runs:
  assumes "quiet F" and "argon2_ok F" and "sane A" and "in_flight v < h_limit (ac_hasher A)"
    and "ac_secret_shape A pw = None" and "wf_tokens (db v)" and "t \<in> set (tokens (db v))" and "t_hash t = hash_token token"
    and "t_purpose t = ''reset''" and "t_consumed t = None" and "db_clock F (step v) < t_expires t"
  shows "\<exists>enc now now' v'. reset_password A token pw F v = (Inr (), v') \<and> matches F pw enc
     \<and> db v' = (db v)\<lparr>tokens := tokens (db v'),
         users := update_where (\<lambda>u. u_id u = t_user t) (\<lambda>u. u\<lparr>u_hash := Some enc, u_updated := now\<rparr>) (users (db v)),
         sessions := update_where (\<lambda>s. s_user s = t_user t \<and> s_revoked s = None) (s_revoked_update (\<lambda>_. Some now')) (sessions (db v))\<rparr>"
proof -
  have r: "redeemable (hash_token token) (purpose_text PurposeReset) (db_clock F (step v)) t"
    using assms(8-11) by (simp add: redeemable_def)
  obtain v1 where c: "consume token PurposeReset F v = (Inr (t_user t), v1)"
    and v1: "db v1 = (db v)\<lparr>tokens := tokens (db v1)\<rparr>" "in_flight v1 = in_flight v"
    using consume_runs [OF _ assms(6,7) r] assms(1) by (auto simp: quiet_def)
  have same: "users (db v1) = users (db v)" "sessions (db v1) = sessions (db v)"
    by (subst v1(1), simp)+
  obtain enc now now' v' where rec: "recover A (t_user t) pw F v1 = (Inr (), v')" "matches F pw enc"
    and v': "db v' = (db v1)\<lparr>users := update_where (\<lambda>u. u_id u = t_user t) (\<lambda>u. u\<lparr>u_hash := Some enc, u_updated := now\<rparr>) (users (db v)),
         sessions := update_where (\<lambda>s. s_user s = t_user t \<and> s_revoked s = None) (s_revoked_update (\<lambda>_. Some now')) (sessions (db v))\<rparr>"
    using recover_runs [OF assms(1,2), of A v1 "t_user t" pw] assms(3,4) v1(2) same by (auto simp: sane_def)
  have "reset_password A token pw F v = (Inr (), v')"
    using c rec assms(5) by (simp add: reset_password_def check_secret_def tryM_def bindM_def ret_def)
  moreover have "db v' = (db v)\<lparr>tokens := tokens (db v'),
         users := update_where (\<lambda>u. u_id u = t_user t) (\<lambda>u. u\<lparr>u_hash := Some enc, u_updated := now\<rparr>) (users (db v)),
         sessions := update_where (\<lambda>s. s_user s = t_user t \<and> s_revoked s = None) (s_revoked_update (\<lambda>_. Some now')) (sessions (db v))\<rparr>"
    unfolding v' by (subst v1(1)) simp
  ultimately show ?thesis using rec(2) by blast
qed

section \<open>From the forgotten password to the next login\<close>

lemma request_reset_runs:
  assumes "request_password_reset A email E w = (Inr (), w')" and "mail_works E" and "wf_users (unicode E) (db w)"
    and "u \<in> set (users (db w))" and "live_email (unicode E) (normalise (unicode E) email) u"
  obtains t token where "t \<in> set (tokens (db w'))" and "t_hash t = hash_token token" and "t_user t = u_id u"
    and "t_purpose t = ''reset''" and "t_consumed t = None"
    and "t_expires t = db_clock E (Suc (Suc (step w))) + seconds (15 * 60)"
    and "db w' = (db w)\<lparr>tokens := tokens (db w')\<rparr>"
    and "outbox w' = outbox w @ [(normalise (unicode E) email, reset_mail (link A ''reset'' token))]"
proof -
  let ?addr = "normalise (unicode E) email"
  from assms(1) obtain r w1 where q: "query_one (user_id_by_email_sql (unicode E) ?addr) E w = (r, w1)"
    and rest: "(case r of Inl e \<Rightarrow> if is_no_rows e then notify A ?addr (no_account_mail (ac_base_url A)) else fail e
     | Inr user \<Rightarrow> tryM (mint user PurposeReset) (\<lambda>token. notify A ?addr (reset_mail (link A ''reset'' token)))) E w1 = (Inr (), w')"
    by (auto simp: request_password_reset_def with_env_def Let_def elim!: bindM_run)
  have "(\<exists>e. r = Inl e \<and> \<not> is_no_rows e) \<or> r = Inr (u_id u)" and w1: "w1 = tick w"
    using q live_email_unique [OF assms(3-5)]
    by (auto simp: query_one_def tryM_def bindM_def exec_def user_id_by_email_sql_def lift_def fail_def
        split: if_splits)
  with rest obtain token w2 where m: "mint (u_id u) PurposeReset E (tick w) = (Inr token, w2)"
    and n: "notify A ?addr (reset_mail (link A ''reset'' token)) E w2 = (Inr (), w')"
    by (auto simp: tryM_Inr_iff fail_def)
  have w': "w' = (tick w2)\<lparr>log_lines := log_lines w2 @ mail_lines E ?addr (reset_mail (link A ''reset'' token)),
      outbox := outbox w2 @ [(?addr, reset_mail (link A ''reset'' token))]\<rparr>"
    using n notify_mails [OF assms(2)] by simp
  from m show thesis
    by (rule mint_Inr) (rule that [of _ token]; use w' in simp)
qed

text \<open>C12 A forgotten password can be replaced and the new one works: when a reset request for a
  live account's address returns, its one mail carries a link; opening it within fifteen minutes
  with an acceptable password succeeds, ends every session of the account, and from then on Login
  with that address and the new password returns the account's principal, whenever the moment is
  a quiet one.\<close>

theorem recovered_account_logs_in:
  assumes req: "request_password_reset A email E w = (Inr (), w1)" and "mail_works E" and ok: "argon2_ok E" and "sane A"
    and mono: "mono (db_clock E)" and wf: "wf_db (unicode E) (db w)"
    and u: "u \<in> set (users (db w))" "live_email (unicode E) (normalise (unicode E) email) u"
      "u_verified u \<or> ac_allow_unverified A"
    and v: "db v = db w1" "same_host E F" "quiet F" "in_flight v < h_limit (ac_hasher A)"
      "db_clock F (step v) < db_clock E (step w) + seconds (15 * 60)"
    and shape: "ac_secret_shape A pw = None"
  shows "\<exists>token v'. outbox w1 = outbox w @ [(normalise (unicode E) email, reset_mail (link A ''reset'' token))]
    \<and> reset_password A token pw F v = (Inr (), v')
    \<and> (\<forall>s \<in> set (sessions (db v')). s_user s = u_id u \<longrightarrow> s_revoked s \<noteq> None)
    \<and> (\<forall>G x c. same_host E G \<and> db x = db v' \<and> ready A G x c email
          \<longrightarrow> (\<exists>p x'. login A c email pw G x = (Inr p, x') \<and> p_user p = u_id u))"
proof -
  let ?addr = "normalise (unicode E) email"
  have "wf_users (unicode E) (db w)" using wf by (simp add: wf_db_def)
  with req assms(2) obtain t token where
    t: "t \<in> set (tokens (db w1))" "t_hash t = hash_token token" "t_user t = u_id u" "t_purpose t = ''reset''"
      "t_consumed t = None" "t_expires t = db_clock E (Suc (Suc (step w))) + seconds (15 * 60)"
    and w1: "db w1 = (db w)\<lparr>tokens := tokens (db w1)\<rparr>"
    and mail: "outbox w1 = outbox w @ [(?addr, reset_mail (link A ''reset'' token))]"
    using u(1,2) by (rule request_reset_runs)
  have wf1: "wf_db (unicode E) (db w1)"
    using via_wf [OF via_request_reset req mono wf] .
  have host: "unicode F = unicode E" "argon2_ok F" "matches F q enc \<longleftrightarrow> matches E q enc" for q enc
    using same_host_facts [OF v(2)] ok by simp_all
  have "db_clock F (step v) < t_expires t"
    using v(5) t(6) monoD [OF mono, of "step w" "Suc (Suc (step w))"] by simp
  moreover have "wf_tokens (db v)" using wf1 v(1) by (simp add: wf_db_def)
  ultimately obtain enc now now' v' where run: "reset_password A token pw F v = (Inr (), v')" and enc: "matches E pw enc"
    and db: "db v' = (db v)\<lparr>tokens := tokens (db v'),
         users := update_where (\<lambda>y. u_id y = t_user t) (\<lambda>y. y\<lparr>u_hash := Some enc, u_updated := now\<rparr>) (users (db v)),
         sessions := update_where (\<lambda>s. s_user s = t_user t \<and> s_revoked s = None) (s_revoked_update (\<lambda>_. Some now')) (sessions (db v))\<rparr>"
    using reset_password_runs [OF v(3) host(2) assms(4) v(4) shape _ _ t(2,4,5)] t(1) v(1) host(3) by auto
  have wf': "wf_db (unicode E) (db v')"
    using via_wf [OF via_redeem(1) run] v(1,3) wf1 host(1) by (simp add: quiet_def)
  have dead: "\<forall>s \<in> set (sessions (db v')). s_user s = u_id u \<longrightarrow> s_revoked s \<noteq> None"
    by (subst db) (auto simp: set_update_where t(3))
  let ?u = "u\<lparr>u_hash := Some enc, u_updated := now\<rparr>"
  have "users (db v) = users (db w)"
    unfolding v(1) by (subst w1) simp
  then have "?u \<in> set (users (db v'))"
    by (subst db) (use u(1) t(3) in \<open>simp add: set_update_where\<close>)
  then have "\<exists>p x'. login A c email pw G x = (Inr p, x') \<and> p_user p = u_id ?u"
    if "same_host E G" "db x = db v'" "ready A G x c email" for G x c
    using ready_login [OF that(3) assms(4), of ?u enc pw] same_host_facts [OF that(1)] ok wf' that(2) u(2,3) enc
    by (auto simp: live_email_def live_user_def)
  with mail run dead show ?thesis by auto
qed

lemma reset_password_frame:
  assumes "reset_password A token pw F v = (Inr (), v')"
  shows "attempts (db v') = attempts (db v) \<and> (sessions (db v) = [] \<longrightarrow> sessions (db v') = [])"
  using assms
proof (rule reset_password_Inr)
  fix user v1 enc v2 v3 v4
  assume c: "consume token PurposeReset F v = (Inr user, v1)" and h: "hash_password (ac_hasher A) pw F v1 = (Inr enc, v2)"
    and sp: "exec (set_password_sql enc user) F v2 = (Inr (), v3)"
    and rv: "revoke_all_for_user (ac_sessions A) user F v3 = (Inr (), v4)" and "db v' = db v4"
  have "sessions (db v1) = sessions (db v) \<and> attempts (db v1) = attempts (db v)"
    using c by (elim consume_Inr) (auto dest!: tokens_only_frame)
  moreover have "db v2 = db v1"
    using keepsD [OF hashing_effects(10) h] by (simp add: same_db_def)
  moreover have "sessions (db v3) = sessions (db v2) \<and> attempts (db v3) = attempts (db v2)"
    using sp by (elim exec_Inr) (auto simp: set_password_sql_def)
  ultimately show ?thesis
    using revoke_all_Inr [OF rv] \<open>db v' = db v4\<close> by (simp add: update_where_def)
qed

theorem recovered_account_logs_in_witness:
  "\<exists>w1 token v' p x'. request_password_reset sample_accounts ''a@x.io'' sample_env (world_of sample_db) = (Inr (), w1)
     \<and> outbox w1 = [(''a@x.io'', reset_mail (link sample_accounts ''reset'' token))]
     \<and> reset_password sample_accounts token ''a new secret'' sample_env (w1\<lparr>step := 0, in_flight := 0\<rparr>) = (Inr (), v')
     \<and> login sample_accounts (background\<lparr>cx_jar := True\<rparr>) ''a@x.io'' ''a new secret'' sample_env
         (v'\<lparr>in_flight := 0\<rparr>) = (Inr p, x') \<and> p_user p = ''u1''"
proof -
  have "wf_users (unicode sample_env) (db (world_of sample_db))"
    using sample_wf by (simp add: wf_db_def)
  then obtain w1 where req: "request_password_reset sample_accounts ''a@x.io'' sample_env (world_of sample_db) = (Inr (), w1)"
    using request_calm [OF sample_calm, of "world_of sample_db" sample_accounts "''a@x.io''"] by (metis prod.collapse)
  have "keeps only_tokens sample_env (request_password_reset sample_accounts ''a@x.io'')"
    unfolding request_password_reset_def Let_def by (intro asking.keeps_rules guar)
  from keepsD [OF this req] have empty: "sessions (db w1) = []" "attempts (db w1) = []"
    by (auto simp: only_tokens_def)
  let ?v = "w1\<lparr>step := 0, in_flight := 0\<rparr>"
  have live: "sample_user \<in> set (users (db (world_of sample_db)))"
    "live_email (unicode sample_env) (normalise (unicode sample_env) ''a@x.io'') sample_user"
    "u_verified sample_user \<or> ac_allow_unverified sample_accounts"
    by (simp_all add: live_email_def)
  obtain token v' where res: "outbox w1 = outbox (world_of sample_db) @ [(normalise (unicode sample_env) ''a@x.io'', reset_mail (link sample_accounts ''reset'' token))]"
    "reset_password sample_accounts token ''a new secret'' sample_env ?v = (Inr (), v')"
    and login: "\<forall>G x c. same_host sample_env G \<and> db x = db v' \<and> ready sample_accounts G x c ''a@x.io''
          \<longrightarrow> (\<exists>p x'. login sample_accounts c ''a@x.io'' ''a new secret'' G x = (Inr p, x') \<and> p_user p = u_id sample_user)"
    using recovered_account_logs_in [OF req sample_moment(3) sample_argon2_ok sample_sane sample_clock_mono sample_moment(4) live,
        where v = ?v and F = sample_env and pw = "''a new secret''"] sample_moment sample_secret
    by (auto simp: seconds_def sample_hasher_def)
  have "ready sample_accounts sample_env (v'\<lparr>in_flight := 0\<rparr>) (background\<lparr>cx_jar := True\<rparr>) ''a@x.io''"
    using reset_password_frame [OF res(2)] empty by (intro sample_ready) simp_all
  then have "\<exists>p x'. login sample_accounts (background\<lparr>cx_jar := True\<rparr>) ''a@x.io'' ''a new secret'' sample_env
      (v'\<lparr>in_flight := 0\<rparr>) = (Inr p, x') \<and> p_user p = u_id sample_user"
    by (intro login [rule_format] conjI sample_moment(2)) simp_all
  with req res show ?thesis by auto
qed

end
