(* ===== verification/Stored_Credentials.thy ===== *)
theory Stored_Credentials
  imports Login_Live Token_Facts
begin

text \<open>
  The password hashes of auth_users as a type: a text is verifiable when \<open>Verify\<close> can read it
  and Argon2 can run with what it says. Every flow writes verifiable texts only, and on a
  verifiable text Verify answers: nobody is locked out by what kal itself has stored.
\<close>

section \<open>The type\<close>

definition verifiable :: "env \<Rightarrow> string \<Rightarrow> bool" where
  "verifiable E enc \<longleftrightarrow> has_prefix enc ''$2'' \<or>
     (case parse_phc (unicode E) enc of Inl e \<Rightarrow> False | Inr (p, salt, key) \<Rightarrow> runnable p)"

definition credentials_ok :: "env \<Rightarrow> database \<Rightarrow> bool" where
  "credentials_ok E d \<longleftrightarrow> list_all (\<lambda>u. pred_option (verifiable E) (u_hash u)) (users d)"

lemma hash_verifiable:
  assumes "hash_password H pw E w = (Inr enc, w')" and "argon2_ok E" and "envelope (h_params H)"
  shows "verifiable E enc"
proof -
  let ?p = "h_params H"
  obtain salt key where salt: "length salt = unat (hp_salt_len ?p)" and enc: "enc = encode_phc ?p salt key"
    and key: "argon2 E (bytes_of pw) salt (unat (hp_time ?p)) (unat (hp_memory ?p))
                (unat (hp_parallelism ?p)) (unat (hp_key_len ?p)) = Some key"
    using assms(1) by (rule hash_password_Inr) auto
  have "phc_ok (?p, salt, key)"
    using salt argon2_ok_length [OF assms(2) key] assms(3) by (simp add: phc_ok_def envelope_def)
  moreover have "0 < unat (hp_time ?p) \<and> 0 < unat (hp_parallelism ?p)"
    using assms(2) key unfolding argon2_ok_def by (metis option.simps(5))
  ultimately show ?thesis
    by (simp add: verifiable_def enc phc_roundtrip runnable_def)
qed

text \<open>Progress: on a verifiable text Verify gives a verdict whenever it gets a slot.\<close>

lemma verify_progress:
  assumes "verifiable E enc" and "argon2_ok E" and "\<not> busy H E v"
  shows "\<exists>match rehash. fst (verify H pw enc E v) = Inr (match, rehash)"
proof (cases "has_prefix enc ''$2''")
  case True
  then have "fst (verify H pw enc E v) = Inr (bcrypt E enc pw, bcrypt E enc pw)"
    unfolding verify_def within_bound_eq verify_stored_def Let_def
    using assms(3) by (simp add: prog_defs count_hash_def del: has_prefix.simps)
  then show ?thesis by blast
next
  case False
  with assms(1) obtain p salt key where parse: "parse_phc (unicode E) enc = Inr (p, salt, key)" and "runnable p"
    by (auto simp: verifiable_def split: sum.splits)
  let ?run = "argon2 E (bytes_of pw) salt (unat (hp_time p)) (unat (hp_memory p)) (unat (hp_parallelism p))
      (unat (hp_key_len p))"
  obtain k where "?run = Some k"
    using assms(2) \<open>runnable p\<close> by (rule argon2_runs)
  with parse show ?thesis
    unfolding verify_def within_bound_eq verify_stored_def Let_def
    using assms(3) False by (auto simp: prog_defs id_key_def count_hash_def)
qed

section \<open>Preservation\<close>

text \<open>The statements that write a hash write a verifiable one.\<close>

fun typed_op :: "env \<Rightarrow> op \<Rightarrow> bool" where
  "typed_op E (Update_password n i p) \<longleftrightarrow> verifiable E n"
| "typed_op E (Insert_account e h) \<longleftrightarrow> pred_option (verifiable E) h"
| "typed_op E (Set_password h i) \<longleftrightarrow> verifiable E h"
| "typed_op E (Outside us) \<longleftrightarrow> False"
| "typed_op E _ \<longleftrightarrow> True"

lemma users_kept:
  "case x of Update_password n i p \<Rightarrow> False | Insert_account e h \<Rightarrow> False | Set_password h i \<Rightarrow> False
     | Mark_verified i \<Rightarrow> False | Outside us \<Rightarrow> False | _ \<Rightarrow> True \<Longrightarrow>
   apply_op U x now uid d = Some d' \<Longrightarrow> users d' = users d"
  by (cases x) (auto simp: session_writes other_writes split: if_splits option.splits)

lemma apply_typed_op:
  assumes "typed_op E x" and "credentials_ok E d" and "apply_op U x now uid d = Some d'"
  shows "credentials_ok E d'"
proof (cases x)
  case (Insert_account e h)
  with assms show ?thesis
    by (auto simp: credentials_ok_def insert_account_def split: if_splits)
qed (use assms users_kept [OF _ assms(3)] in \<open>auto simp: credentials_ok_def list_all_iff set_update_where
      update_password_sql_def set_password_sql_def mark_verified_sql_def\<close>)

lemma schedule_typed:
  "schedule U t d xs t' d' \<Longrightarrow> list_all (typed_op E) xs \<Longrightarrow> credentials_ok E d \<Longrightarrow> credentials_ok E d'"
  by (erule schedule_invariant [where ok = "typed_op E" and I = "\<lambda>t. credentials_ok E"])
    (auto intro: apply_typed_op)

text \<open>Behind a hash that was computed, the text it gave is verifiable.\<close>

lemma after_hash:
  assumes "argon2_ok E" and "envelope (h_params H)"
  shows "(\<And>e. keeps (via ok) E (f e)) \<Longrightarrow> (\<And>enc. verifiable E enc \<Longrightarrow> keeps (via ok) E (g enc))
      \<Longrightarrow> keeps (via ok) E (bindM (hash_password H pw) (case_sum f g))"
    and "(\<And>enc. verifiable E enc \<Longrightarrow> keeps (via ok) E (g enc)) \<Longrightarrow> keeps (via ok) E (tryM (hash_password H pw) g)"
proof -
  have hash: "keeps (via ok) E (hash_password H pw)" by (rule guar)
  show bind: "keeps (via ok) E (bindM (hash_password H pw) (case_sum f g))"
    if "\<And>e. keeps (via ok) E (f e)" "\<And>enc. verifiable E enc \<Longrightarrow> keeps (via ok) E (g enc)" for f g
  proof (rule keepsI)
    fix w r w'
    assume "bindM (hash_password H pw) (case_sum f g) E w = (r, w')"
    then obtain a w1 where h: "hash_password H pw E w = (a, w1)" and f: "case_sum f g a E w1 = (r, w')"
      by (rule bindM_run)
    have "keeps (via ok) E (case_sum f g a)"
      using that hash_verifiable [OF _ assms] h by (cases a) auto
    with hash h f show "via ok E w w'" by (blast intro: via_trans dest: keepsD)
  qed
  show "keeps (via ok) E (tryM (hash_password H pw) g)"
    if "\<And>enc. verifiable E enc \<Longrightarrow> keeps (via ok) E (g enc)"
    unfolding tryM_def by (rule bind) (simp_all add: that via.keeps_fail)
qed

definition preserves :: "(database \<Rightarrow> bool) \<Rightarrow> env \<Rightarrow> 'a prog \<Rightarrow> bool" where
  "preserves P E m \<longleftrightarrow> (\<forall>w. P (db w) \<longrightarrow> P (db (snd (m E w))))"

lemma preservesI:
  assumes "keeps (via (typed_op E)) E m" and "mono (db_clock E)"
  shows "preserves (credentials_ok E) E m"
  unfolding preserves_def
proof (intro allI impI)
  fix w :: world
  assume "credentials_ok E (db w)"
  moreover obtain r w' where run: "m E w = (r, w')" by fastforce
  obtain xs where "list_all (typed_op E) xs"
    "schedule (unicode E) (db_clock E (step w)) (db w) xs (db_clock E (step w')) (db w')"
    using via_run [OF assms(1) run assms(2)] .
  ultimately show "credentials_ok E (db (snd (m E w)))"
    using run schedule_typed by simp
qed

lemma typed_rehash:
  assumes "argon2_ok E" and "envelope (h_params (ac_hasher A))"
  shows "keeps (via (typed_op E)) E (rehash_stored A user password old)"
  unfolding rehash_stored_def
  by (intro after_hash [OF assms] via.keeps_rules guar; simp)

lemma typed_login:
  assumes "argon2_ok E" and "envelope (h_params (ac_hasher A))"
  shows "keeps (via (typed_op E)) E (login A c email pw)"
  unfolding login_parts Let_def
  by ((rule after_hash [OF assms] typed_rehash [OF assms] via.keeps_rules guar | simp)+)

lemma typed_changes:
  assumes "argon2_ok E" and "envelope (h_params (ac_hasher A))"
  shows "keeps (via (typed_op E)) E (change_password A c pw nxt)"
    and "keeps (via (typed_op E)) E (register A email pw)"
    and "keeps (via (typed_op E)) E (reset_password A token pw)"
    and "keeps (via (typed_op E)) E (accept_invite A token pw)"
    and "keeps (via (typed_op E)) E (invite A email)"
  unfolding change_password_def swap_password_def register_def enrol_def reset_password_def recover_def
    accept_invite_def invite_def Let_def
  by ((rule after_hash [OF assms] via.keeps_rules guar | simp)+)

lemma typed_mails:
  "keeps (via (typed_op E)) E (request_password_reset A email)"
  "keeps (via (typed_op E)) E (verify_email token)"
  unfolding request_password_reset_def verify_email_def Let_def
  by (intro via.keeps_rules guar; simp)+

text \<open>C16 The stored hashes keep their type, and the type is enough. With Argon2 as documented and
  parameters the parser accepts, Login, ChangePassword, Register, ResetPassword, VerifyEmail,
  RequestPasswordReset, Invite and AcceptInvite, whether they return or fail, leave every stored
  hash verifiable if all were; and on a verifiable hash Verify gives a verdict for every candidate
  password as soon as it gets a slot, never a parse error or a panic.\<close>

theorem stored_hashes_keep_their_type:
  assumes "argon2_ok E" and "envelope (h_params (ac_hasher A))" and "mono (db_clock E)"
  shows "preserves (credentials_ok E) E (login A c email pw)
    \<and> preserves (credentials_ok E) E (change_password A c pw nxt)
    \<and> preserves (credentials_ok E) E (register A email pw)
    \<and> preserves (credentials_ok E) E (request_password_reset A email)
    \<and> preserves (credentials_ok E) E (reset_password A token pw)
    \<and> preserves (credentials_ok E) E (verify_email token)
    \<and> preserves (credentials_ok E) E (invite A email)
    \<and> preserves (credentials_ok E) E (accept_invite A token pw)
    \<and> (\<forall>d u enc H candidate v. credentials_ok E d \<and> u \<in> set (users d) \<and> u_hash u = Some enc \<and> \<not> busy H E v
        \<longrightarrow> (\<exists>match rehash. fst (verify H candidate enc E v) = Inr (match, rehash)))"
proof -
  have "\<exists>match rehash. fst (verify H candidate enc E v) = Inr (match, rehash)"
    if "credentials_ok E d" "u \<in> set (users d)" "u_hash u = Some enc" "\<not> busy H E v" for d u enc H candidate v
    using that verify_progress [OF _ assms(1), of enc H v candidate] by (auto simp: credentials_ok_def list_all_iff)
  then show ?thesis
    by (intro conjI preservesI [OF _ assms(3)] typed_login [OF assms(1,2)] typed_changes [OF assms(1,2)] typed_mails) blast
qed

theorem stored_hashes_keep_their_type_witness:
  "credentials_ok sample_env sample_db
     \<and> (\<forall>email pw. credentials_ok sample_env (db (snd (register sample_accounts email pw sample_env (world_of sample_db)))))
     \<and> (\<exists>match rehash. fst (verify (sample_hasher 16) ''x'' ''$2pass'' sample_env (world_of sample_db)) = Inr (match, rehash))"
proof -
  have typed: "credentials_ok sample_env sample_db"
    by (simp add: credentials_ok_def verifiable_def)
  note all = stored_hashes_keep_their_type [OF sample_argon2_ok sample_envelope sample_clock_mono]
  have reg: "preserves (credentials_ok sample_env) sample_env (register sample_accounts email pw)" for email pw
    using all by blast
  have "\<not> busy (sample_hasher 16) sample_env (world_of sample_db)"
    by (simp add: busy_def sample_hasher_def)
  moreover have "\<exists>u \<in> set (users sample_db). u_hash u = Some ''$2pass''"
    by simp
  ultimately have "\<exists>match rehash. fst (verify (sample_hasher 16) ''x'' ''$2pass'' sample_env (world_of sample_db)) = Inr (match, rehash)"
    using all typed by blast
  moreover have "credentials_ok sample_env (db (snd (register sample_accounts email pw sample_env (world_of sample_db))))" for email pw
    using reg [of email pw] typed by (simp add: preserves_def)
  ultimately show ?thesis using typed by blast
qed

end
