(* ===== verification/Sql_Text.thy ===== *)
theory Sql_Text
  imports Kal_Facts Rls
begin

text \<open>
  The SQL kal sends, as text: the thirty templates of the four \<open>sql.go\<close> files, their rendering for
  a schema, and what every rendered statement keeps to. \<open>Session_Sql\<close>, \<open>Authn_Sql\<close>, \<open>Authz_Sql\<close>
  and \<open>E2ee_Sql\<close> say what the statements mean; here it is only how they are written.
\<close>

section \<open>The templates\<close>

abbreviation sq :: string where
  "sq \<equiv> [CHR 0x27]"

text \<open>A raw string constant that opens with a line break: every line behind one.\<close>

definition sql_lines :: "string list \<Rightarrow> string" where
  "sql_lines ls = concat (map (\<lambda>l. CHR 0x0A # l) ls)"

text \<open>\<open>session/sql.go\<close>.\<close>

definition issue_text :: string where
  "issue_text = sql_lines
    [''insert into %[1]sauth_sessions (token_sha256, user_id, idle_expires_at, expires_at, user_agent, ip)'',
     ''values (?, ?, now() + make_interval(secs => ?), now() + make_interval(secs => ?), ?, ?)'',
     ''returning id'']"

definition lookup_text :: string where
  "lookup_text = sql_lines
    [''with live as ('',
     ''    select s.id, s.user_id, s.created_at, s.mfa_at'',
     ''      from %[1]sauth_sessions s'',
     ''     where s.token_sha256 = ?'',
     ''       and s.revoked_at is null'',
     ''       and s.idle_expires_at > now()'',
     ''       and s.expires_at > now()'',
     ''),'',
     ''touched as ('',
     ''    update %[1]sauth_sessions s'',
     ''       set last_seen_at = now(), idle_expires_at = now() + make_interval(secs => ?)'',
     ''      from live'',
     ''     where s.id = live.id'',
     ''       and s.last_seen_at < now() - interval '' @ sq @ ''60 seconds'' @ sq,
     '')'',
     ''select live.id, live.user_id, live.created_at, live.mfa_at,'',
     ''       u.email, u.email_verified,'',
     ''       coalesce(array_agg(r.role) filter (where r.role is not null), '' @ sq @ ''{}'' @ sq @ '')'',
     ''  from live'',
     ''  join %[1]sauth_users u on u.id = live.user_id and u.deleted_at is null'',
     ''  left join %[1]sauth_user_roles r on r.user_id = live.user_id'',
     '' group by live.id, live.user_id, live.created_at, live.mfa_at, u.email, u.email_verified'']"

definition rotate_text :: string where
  "rotate_text = sql_lines
    [''update %[1]sauth_sessions'',
     ''   set token_sha256 = ?, last_seen_at = now(),'',
     ''       idle_expires_at = now() + make_interval(secs => ?)'',
     '' where id = ?'',
     ''   and revoked_at is null'',
     ''   and idle_expires_at > now()'',
     ''   and expires_at > now()'',
     ''returning user_id'']"

definition record_mfa_text :: string where
  "record_mfa_text = sql_lines
    [''update %[1]sauth_sessions'',
     ''   set mfa_at = now()'',
     '' where id = ? and user_id = ? and revoked_at is null'',
     ''   and idle_expires_at > now() and expires_at > now()'',
     ''returning id'']"

definition revoke_text :: string where
  "revoke_text = sql_lines
    [''update %[1]sauth_sessions set revoked_at = now()'',
     '' where id = ? and revoked_at is null'']"

definition revoke_all_text :: string where
  "revoke_all_text = sql_lines
    [''update %[1]sauth_sessions set revoked_at = now()'',
     '' where user_id = ? and revoked_at is null'']"

definition list_text :: string where
  "list_text = sql_lines
    [''select id, created_at, last_seen_at,'',
     ''       coalesce(user_agent, '' @ sq @ sq @ '') as user_agent,'',
     ''       coalesce(host(ip), '' @ sq @ sq @ '')   as ip,  -- host(), not ::text '' @ em_dash @ '' the cast drags a /32 along'',
     ''       mfa_at'',
     ''  from %[1]sauth_sessions'',
     '' where user_id = ?'',
     ''   and revoked_at is null'',
     ''   and idle_expires_at > now()'',
     ''   and expires_at > now()'',
     '' order by last_seen_at desc'']"

text \<open>\<open>authn/sql.go\<close>.\<close>

definition login_select_text :: string where
  "login_select_text = sql_lines
    [''select id, coalesce(password_hash, '' @ sq @ sq @ '') as password_hash, email_verified'',
     ''  from %[1]sauth_users'',
     '' where lower(email) = ? and deleted_at is null'']"

definition hash_by_id_text :: string where
  "hash_by_id_text = sql_lines
    [''select coalesce(password_hash, '' @ sq @ sq @ '') as password_hash, email'',
     ''  from %[1]sauth_users'',
     '' where id = ? and deleted_at is null'']"

definition update_password_text :: string where
  "update_password_text = sql_lines
    [''update %[1]sauth_users'',
     ''   set password_hash = ?, updated_at = now()'',
     '' where id = ? and password_hash = ?'']"

definition attempts_text :: string where
  "attempts_text = sql_lines
    [''select scope, failures, extract(epoch from now() - last_fail)::float8 as age'',
     ''  from %[1]sauth_login_attempts'',
     '' where (scope, key) in (('' @ sq @ ''user'' @ sq @ '', ?), ('' @ sq @ ''ip'' @ sq @ '', ?))'']"

definition record_both_text :: string where
  "record_both_text = sql_lines
    [''insert into %[1]sauth_login_attempts (scope, key, failures, last_fail)'',
     ''values ('' @ sq @ ''user'' @ sq @ '', ?, 1, now()), ('' @ sq @ ''ip'' @ sq @ '', ?, 1, now())'',
     ''on conflict (scope, key)'',
     ''do update set failures = auth_login_attempts.failures + 1, last_fail = now()'']"

definition record_user_text :: string where
  "record_user_text = sql_lines
    [''insert into %[1]sauth_login_attempts (scope, key, failures, last_fail)'',
     ''values ('' @ sq @ ''user'' @ sq @ '', ?, 1, now())'',
     ''on conflict (scope, key)'',
     ''do update set failures = auth_login_attempts.failures + 1, last_fail = now()'']"

definition reset_attempts_text :: string where
  "reset_attempts_text = sql_lines
    [''delete from %[1]sauth_login_attempts'',
     '' where (scope, key) in (('' @ sq @ ''user'' @ sq @ '', ?), ('' @ sq @ ''ip'' @ sq @ '', ?))'']"

definition insert_user_text :: string where
  "insert_user_text = sql_lines
    [''insert into %[1]sauth_users (email, password_hash)'',
     ''values (?, ?)'',
     ''on conflict (lower(email)) where deleted_at is null do nothing'',
     ''returning id'']"

definition insert_invitee_text :: string where
  "insert_invitee_text = sql_lines
    [''insert into %[1]sauth_users (email)'',
     ''values (?)'',
     ''on conflict (lower(email)) where deleted_at is null do nothing'',
     ''returning id'']"

definition user_id_by_email_text :: string where
  "user_id_by_email_text = sql_lines
    [''select id from %[1]sauth_users where lower(email) = ? and deleted_at is null'']"

definition email_by_id_text :: string where
  "email_by_id_text = sql_lines
    [''select email from %[1]sauth_users where id = ? and deleted_at is null'']"

definition insert_token_text :: string where
  "insert_token_text = sql_lines
    [''insert into %[1]sauth_tokens (token_sha256, user_id, purpose, expires_at)'',
     ''values (?, ?, ?, now() + make_interval(secs => ?))'',
     ''on conflict (token_sha256) do update'',
     ''   set user_id = excluded.user_id,'',
     ''       purpose = excluded.purpose,'',
     ''       expires_at = excluded.expires_at,'',
     ''       consumed_at = null'']"

definition consume_token_text :: string where
  "consume_token_text = sql_lines
    [''update %[1]sauth_tokens'',
     ''   set consumed_at = now()'',
     '' where token_sha256 = ?'',
     ''   and purpose = ?'',
     ''   and consumed_at is null'',
     ''   and expires_at > now()'',
     ''returning user_id'']"

definition set_password_text :: string where
  "set_password_text = sql_lines
    [''update %[1]sauth_users set password_hash = ?, updated_at = now() where id = ?'']"

definition mark_verified_text :: string where
  "mark_verified_text = sql_lines
    [''update %[1]sauth_users set email_verified = true, updated_at = now() where id = ?'']"

text \<open>\<open>authz/sql.go\<close>.\<close>

definition ensure_role_text :: string where
  "ensure_role_text = sql_lines
    [''insert into %[1]sauth_roles (name, description)'',
     ''values (?, ?)'',
     ''on conflict (name) do update set description = excluded.description'']"

definition grant_role_text :: string where
  "grant_role_text = sql_lines
    [''insert into %[1]sauth_user_roles (user_id, role)'',
     ''values (?, ?)'',
     ''on conflict (user_id, role) do nothing'']"

definition revoke_role_text :: string where
  "revoke_role_text = sql_lines
    [''delete from %[1]sauth_user_roles where user_id = ? and role = ?'']"

definition roles_for_user_text :: string where
  "roles_for_user_text = sql_lines
    [''select role from %[1]sauth_user_roles where user_id = ? order by role'']"

text \<open>\<open>e2ee/sql.go\<close>.\<close>

definition wrapped_for_fingerprint :: string where
  "wrapped_for_fingerprint = ''sha256(convert_to(coalesce(u.password_hash, '' @ sq @ sq @ ''), '' @ sq @ ''UTF8'' @ sq @ ''))''"

definition params_by_email_text :: string where
  "params_by_email_text = sql_lines
    [''select v.kdf, v.salt, v.memory, v.iterations, v.parallelism'',
     ''  from %[1]sauth_e2ee_vaults v'',
     ''  join %[1]sauth_users u on u.id = v.user_id'',
     '' where lower(u.email) = ? and u.deleted_at is null'']"

definition vault_by_user_text :: string where
  "vault_by_user_text = sql_lines
    [''select v.wrapped_key, v.recovery_wrapped_key, v.key_version,'',
     ''       v.wrapped_for is distinct from '' @ wrapped_for_fingerprint @ '','',
     ''       v.kdf, v.salt, v.memory, v.iterations, v.parallelism'',
     ''  from %[1]sauth_e2ee_vaults v'',
     ''  join %[1]sauth_users u on u.id = v.user_id'',
     '' where v.user_id = ?'']"

definition put_vault_text :: string where
  "put_vault_text = sql_lines
    [''insert into %[1]sauth_e2ee_vaults'',
     ''       (user_id, kdf, salt, memory, iterations, parallelism,'',
     ''        wrapped_key, recovery_wrapped_key, wrapped_for)'',
     ''select u.id, ?, ?, ?, ?, 1, ?, ?, '' @ wrapped_for_fingerprint,
     ''  from %[1]sauth_users u'',
     '' where u.id = ? and u.deleted_at is null'',
     ''on conflict (user_id) do update'',
     ''   set kdf                  = excluded.kdf,'',
     ''       memory               = excluded.memory,'',
     ''       iterations           = excluded.iterations,'',
     ''       wrapped_key          = excluded.wrapped_key,'',
     ''       recovery_wrapped_key = excluded.recovery_wrapped_key,'',
     ''       wrapped_for          = excluded.wrapped_for,'',
     ''       key_version          = auth_e2ee_vaults.key_version + 1,'',
     ''       updated_at           = now()'',
     '' where auth_e2ee_vaults.key_version = ?'',
     ''returning key_version'']"

definition delete_vault_text :: string where
  "delete_vault_text = sql_lines
    [''delete from %[1]sauth_e2ee_vaults where user_id = ?'']"

section \<open>Rendering\<close>

text \<open>
  \<open>fmt.Sprintf\<close> with the prefix as its one argument, and \<open>%[1]s\<close> as the only verb: the template is
  cut at the verb and glued with the prefix. Any other percent sign would be an error of Sprintf.
\<close>

function cut_verbs :: "string \<Rightarrow> string \<Rightarrow> string list option" where
  "cut_verbs seen [] = Some [rev seen]"
| "cut_verbs seen (c # t) =
     (if c = CHR ''%'' then
        (case cut_prefix t ''[1]s'' of
           None \<Rightarrow> None
         | Some r \<Rightarrow> map_option ((#) (rev seen)) (cut_verbs [] r))
      else cut_verbs (c # seen) t)"
  by pat_completeness auto
termination
  by (relation "measure (\<lambda>(seen, t). length t)") (auto simp: cut_prefix_Some)

text \<open>The same loop with its test as an argument, which the evaluator prefers.\<close>

fun cut_step :: "bool \<Rightarrow> string \<Rightarrow> char \<Rightarrow> string \<Rightarrow> string list option" where
  "cut_step False seen c t = cut_verbs (c # seen) t"
| "cut_step True seen c t = (case cut_prefix t ''[1]s'' of
     None \<Rightarrow> None
   | Some r \<Rightarrow> map_option ((#) (rev seen)) (cut_verbs [] r))"

lemma cut_verbs_code [code]:
  "cut_verbs seen [] = Some [rev seen]"
  "cut_verbs seen (c # t) = cut_step (c = CHR ''%'') seen c t"
  by (cases "c = CHR ''%''"; simp)+

lemma placeholders_code [code]:
  "placeholders [] = 0"
  "placeholders (c # s) = (if c = CHR ''?'' then 1 else 0) + placeholders s"
  by simp_all

definition pieces :: "string \<Rightarrow> string list option" where
  "pieces template = cut_verbs [] template"

definition bad_verb :: string where
  "bad_verb = ''%!(NOVERB)''"

definition sprintf1 :: "string \<Rightarrow> string \<Rightarrow> string" where
  "sprintf1 template arg = (case pieces template of None \<Rightarrow> bad_verb | Some ps \<Rightarrow> join arg ps)"

record session_statements =
  st_issue :: string
  st_lookup :: string
  st_rotate :: string
  st_record_mfa :: string
  st_revoke :: string
  st_revoke_all :: string
  st_list :: string

definition render_session :: "string \<Rightarrow> session_statements" where
  "render_session prefix = \<lparr>st_issue = sprintf1 issue_text prefix,
     st_lookup = sprintf1 lookup_text prefix,
     st_rotate = sprintf1 rotate_text prefix,
     st_record_mfa = sprintf1 record_mfa_text prefix,
     st_revoke = sprintf1 revoke_text prefix,
     st_revoke_all = sprintf1 revoke_all_text prefix,
     st_list = sprintf1 list_text prefix\<rparr>"

record authn_statements =
  at_login_select :: string
  at_hash_by_id :: string
  at_update_password :: string
  at_attempts :: string
  at_record_both :: string
  at_record_user :: string
  at_reset_attempts :: string
  at_insert_user :: string
  at_insert_invitee :: string
  at_user_id_by_email :: string
  at_email_by_id :: string
  at_insert_token :: string
  at_consume_token :: string
  at_set_password :: string
  at_mark_verified :: string

definition render_authn :: "string \<Rightarrow> authn_statements" where
  "render_authn prefix = \<lparr>at_login_select = sprintf1 login_select_text prefix,
     at_hash_by_id = sprintf1 hash_by_id_text prefix,
     at_update_password = sprintf1 update_password_text prefix,
     at_attempts = sprintf1 attempts_text prefix,
     at_record_both = sprintf1 record_both_text prefix,
     at_record_user = sprintf1 record_user_text prefix,
     at_reset_attempts = sprintf1 reset_attempts_text prefix,
     at_insert_user = sprintf1 insert_user_text prefix,
     at_insert_invitee = sprintf1 insert_invitee_text prefix,
     at_user_id_by_email = sprintf1 user_id_by_email_text prefix,
     at_email_by_id = sprintf1 email_by_id_text prefix,
     at_insert_token = sprintf1 insert_token_text prefix,
     at_consume_token = sprintf1 consume_token_text prefix,
     at_set_password = sprintf1 set_password_text prefix,
     at_mark_verified = sprintf1 mark_verified_text prefix\<rparr>"

record role_statements =
  rt_ensure_role :: string
  rt_grant_role :: string
  rt_revoke_role :: string
  rt_roles_for_user :: string

definition render_roles :: "string \<Rightarrow> role_statements" where
  "render_roles prefix = \<lparr>rt_ensure_role = sprintf1 ensure_role_text prefix,
     rt_grant_role = sprintf1 grant_role_text prefix,
     rt_revoke_role = sprintf1 revoke_role_text prefix,
     rt_roles_for_user = sprintf1 roles_for_user_text prefix\<rparr>"

record vault_statements =
  et_params_by_email :: string
  et_vault_by_user :: string
  et_put_vault :: string
  et_delete_vault :: string

definition render_vaults :: "string \<Rightarrow> vault_statements" where
  "render_vaults prefix = \<lparr>et_params_by_email = sprintf1 params_by_email_text prefix,
     et_vault_by_user = sprintf1 vault_by_user_text prefix,
     et_put_vault = sprintf1 put_vault_text prefix,
     et_delete_vault = sprintf1 delete_vault_text prefix\<rparr>"

text \<open>The statements, each with the number of arguments its call passes.\<close>

definition session_calls :: "session_statements \<Rightarrow> (string \<times> nat) list" where
  "session_calls s = [(st_issue s, 6), (st_lookup s, 2), (st_rotate s, 3), (st_record_mfa s, 2),
     (st_revoke s, 1), (st_revoke_all s, 1), (st_list s, 1)]"

definition authn_calls :: "authn_statements \<Rightarrow> (string \<times> nat) list" where
  "authn_calls s = [(at_login_select s, 1), (at_hash_by_id s, 1), (at_update_password s, 3),
     (at_attempts s, 2), (at_record_both s, 2), (at_record_user s, 1),
     (at_reset_attempts s, 2), (at_insert_user s, 2), (at_insert_invitee s, 1),
     (at_user_id_by_email s, 1), (at_email_by_id s, 1), (at_insert_token s, 4),
     (at_consume_token s, 2), (at_set_password s, 2), (at_mark_verified s, 1)]"

definition role_calls :: "role_statements \<Rightarrow> (string \<times> nat) list" where
  "role_calls s = [(rt_ensure_role s, 2), (rt_grant_role s, 2), (rt_revoke_role s, 2),
     (rt_roles_for_user s, 1)]"

definition vault_calls :: "vault_statements \<Rightarrow> (string \<times> nat) list" where
  "vault_calls s = [(et_params_by_email s, 1), (et_vault_by_user s, 1), (et_put_vault s, 8),
     (et_delete_vault s, 1)]"

text \<open>All that the services of one New send, each under the prefix it was built with.\<close>

definition statements_of :: "'a auth \<Rightarrow> (string \<times> nat) list" where
  "statements_of a = session_calls (render_session (ss_prefix (au_sessions a)))
     @ authn_calls (render_authn (au_accounts_prefix a)) @ role_calls (render_roles (au_roles a))
     @ (case au_vaults a of None \<Rightarrow> [] | Some V \<Rightarrow> vault_calls (render_vaults (vc_prefix V)))"

text \<open>The same statements before rendering.\<close>

definition session_templates :: "(string \<times> nat) list" where
  "session_templates = [(issue_text, 6), (lookup_text, 2), (rotate_text, 3), (record_mfa_text, 2),
     (revoke_text, 1), (revoke_all_text, 1), (list_text, 1)]"

definition authn_templates :: "(string \<times> nat) list" where
  "authn_templates = [(login_select_text, 1), (hash_by_id_text, 1), (update_password_text, 3),
     (attempts_text, 2), (record_both_text, 2), (record_user_text, 1), (reset_attempts_text, 2),
     (insert_user_text, 2), (insert_invitee_text, 1), (user_id_by_email_text, 1),
     (email_by_id_text, 1), (insert_token_text, 4), (consume_token_text, 2),
     (set_password_text, 2), (mark_verified_text, 1)]"

definition role_templates :: "(string \<times> nat) list" where
  "role_templates = [(ensure_role_text, 2), (grant_role_text, 2), (revoke_role_text, 2),
     (roles_for_user_text, 1)]"

definition vault_templates :: "(string \<times> nat) list" where
  "vault_templates = [(params_by_email_text, 1), (vault_by_user_text, 1), (put_vault_text, 8),
     (delete_vault_text, 1)]"

section \<open>What a template must keep to\<close>

text \<open>go-pg reads a placeholder followed by a letter, a digit or an underscore as a named parameter.\<close>

fun positional :: "string \<Rightarrow> bool" where
  "positional [] = True"
| "positional [c] = True"
| "positional (c # d # t) = ((c = CHR ''?'' \<longrightarrow> \<not> ident_char d) \<and> positional (d # t))"

text \<open>
  A table is named where \<open>auth_\<close> occurs, unless a column follows: in an ON CONFLICT clause the
  target is known under its bare name, as \<open>auth_login_attempts.failures\<close>.
\<close>

definition names_table :: "string \<Rightarrow> bool" where
  "names_table s = (if has_prefix s ''auth_'' then \<not> has_prefix (dropWhile ident_char s) ''.'' else False)"

fun bare_table :: "string \<Rightarrow> bool" where
  "bare_table [] = False"
| "bare_table (c # t) = (names_table (c # t) \<or> bare_table t)"

text \<open>Both loops again with their test as an argument.\<close>

fun name_after :: "bool \<Rightarrow> char \<Rightarrow> bool" where
  "name_after False d = False"
| "name_after True d = ident_char d"

fun table_at :: "bool \<Rightarrow> string \<Rightarrow> bool" where
  "table_at False s = False"
| "table_at True s = names_table s"

lemma positional_code [code]:
  "positional [] = True" "positional [c] = True"
  "positional (c # d # t) = (\<not> name_after (c = CHR ''?'') d \<and> positional (d # t))"
  by (cases "c = CHR ''?''"; simp)+

lemma bare_table_code [code]:
  "bare_table [] = False"
  "bare_table (c # t) = (table_at (c = CHR ''a'') (c # t) \<or> bare_table t)"
  by (cases "c = CHR ''a''"; auto simp: names_table_def)+

definition table_first :: "string \<Rightarrow> bool" where
  "table_first s \<longleftrightarrow> names_table s \<and> \<not> bare_table (dropWhile ident_char s)"

definition pieces_ok :: "string list \<Rightarrow> nat \<Rightarrow> bool" where
  "pieces_ok ps n \<longleftrightarrow> placeholders (concat ps) = n \<and> list_all positional ps
     \<and> list_all (\<lambda>p. p \<noteq> [] \<and> last p \<noteq> CHR ''?'') (butlast ps) \<and> 2 \<le> length ps
     \<and> \<not> bare_table (hd ps) \<and> list_all table_first (tl ps)"

definition template_ok :: "string \<times> nat \<Rightarrow> bool" where
  "template_ok x = (case pieces (fst x) of None \<Rightarrow> False | Some ps \<Rightarrow> pieces_ok ps (snd x))"

lemma session_templates_ok: "list_all template_ok session_templates"
  by code_simp

lemma authn_templates_ok: "list_all template_ok authn_templates"
  by code_simp

lemma role_templates_ok: "list_all template_ok role_templates"
  by code_simp

lemma vault_templates_ok: "list_all template_ok vault_templates"
  by code_simp

lemmas templates_ok = session_templates_ok authn_templates_ok role_templates_ok vault_templates_ok

section \<open>Gluing\<close>

lemma positional_append:
  "positional s \<Longrightarrow> positional t \<Longrightarrow> s = [] \<or> last s \<noteq> CHR ''?'' \<Longrightarrow> positional (s @ t)"
proof (induction s rule: positional.induct)
  case (2 c)
  then show ?case by (cases t) auto
qed auto

lemma positional_free: "CHR ''?'' \<notin> set s \<Longrightarrow> positional s"
  by (induction s rule: positional.induct) auto

lemma placeholders_join:
  "placeholders arg = 0 \<Longrightarrow> placeholders (join arg ps) = placeholders (concat ps)"
  by (induction arg ps rule: join.induct) simp_all

lemma positional_join:
  "CHR ''?'' \<notin> set arg \<Longrightarrow> list_all positional ps \<Longrightarrow> list_all (\<lambda>p. p \<noteq> [] \<and> last p \<noteq> CHR ''?'') (butlast ps) \<Longrightarrow> positional (join arg ps)"
proof (induction arg ps rule: join.induct)
  case (3 sep x y xs)
  from 3 have "positional (join sep (y # xs))" by simp
  moreover have "sep = [] \<or> last sep \<noteq> CHR ''?''"
    using 3(2) last_in_set by metis
  ultimately have "positional (sep @ join sep (y # xs))"
    using 3(2) positional_append positional_free by blast
  then show ?case
    using 3(3,4) positional_append [of x] by simp
qed simp_all

text \<open>A template that keeps to the rules, rendered under a prefix without a question mark.\<close>

definition bound_in :: "string \<Rightarrow> string \<times> nat \<Rightarrow> bool" where
  "bound_in prefix x \<longleftrightarrow> placeholders (fst x) = snd x \<and> positional (fst x)
     \<and> (\<exists>first rest. fst x = join prefix (first # rest) \<and> rest \<noteq> [] \<and> \<not> bare_table first \<and> list_all table_first rest)"

lemma rendered_bound:
  assumes "template_ok (t, n)" and "CHR ''?'' \<notin> set prefix"
  shows "bound_in prefix (sprintf1 t prefix, n)"
proof -
  obtain ps where ps: "pieces t = Some ps" "pieces_ok ps n"
    using assms(1) by (auto simp: template_ok_def split: option.splits)
  then obtain first rest where split: "ps = first # rest" "rest \<noteq> []"
    by (cases ps; cases "tl ps") (auto simp: pieces_ok_def)
  have "placeholders prefix = 0"
    using assms(2) by (auto simp: placeholders_def filter_empty_conv)
  with ps split positional_join [OF assms(2), of ps] show ?thesis
    by (auto simp: bound_in_def sprintf1_def placeholders_join pieces_ok_def)
qed

text \<open>Every call of the four groups.\<close>

lemma rendered_all:
  assumes "CHR ''?'' \<notin> set p"
  shows "list_all (bound_in p) (session_calls (render_session p))" "list_all (bound_in p) (authn_calls (render_authn p))"
    "list_all (bound_in p) (role_calls (render_roles p))" "list_all (bound_in p) (vault_calls (render_vaults p))"
  using templates_ok rendered_bound [OF _ assms]
  by (simp_all add: session_templates_def session_calls_def render_session_def authn_templates_def authn_calls_def
      render_authn_def role_templates_def role_calls_def render_roles_def vault_templates_def vault_calls_def
      render_vaults_def)

text \<open>What go-pg's identifier writer does with a plain name: it puts it in double quotes.\<close>

definition quotes_plain :: "(string \<Rightarrow> string) \<Rightarrow> bool" where
  "quotes_plain append_ident \<longleftrightarrow> (\<forall>s. ident_ok s \<longrightarrow> append_ident s = CHR 0x22 # s @ [CHR 0x22])"

definition quoted_prefix :: "string \<Rightarrow> string" where
  "quoted_prefix schema = (if schema = [] then [] else CHR 0x22 # schema @ [CHR 0x22] @ ''.'')"

lemma schema_prefix_quoted:
  assumes "schema_prefix append_ident schema = Some p" and "quotes_plain append_ident"
  shows "p = quoted_prefix schema" and "CHR ''?'' \<notin> set p"
proof -
  show p: "p = quoted_prefix schema"
    using assms by (auto simp: schema_prefix_def quotes_plain_def quoted_prefix_def split: if_splits)
  show "CHR ''?'' \<notin> set p"
    using assms(1) ident_ok_chars [of schema "CHR ''?''"]
    by (auto simp: p quoted_prefix_def schema_prefix_def ident_char_def ident_start_def is_digit_def split: if_splits)
qed

text \<open>C28 What New builds sends whole statements to its own schema: every statement of the session
  store, the flows, the roles and the vaults, rendered for the configured schema, has exactly as
  many placeholders as its call passes arguments, none of them one go-pg would read as named, and
  is the template's text with the schema's quoted name before every table: cut there, no
  part names a table but at its start.\<close>

theorem statements_stay_in_schema:
  assumes "kal_new append_ident gomaxprocs cfg E w = (Inr a, w')" and "quotes_plain append_ident"
  shows "\<forall>(text, n) \<in> set (statements_of a). placeholders text = n \<and> positional text
    \<and> (\<exists>first rest. text = join (quoted_prefix (cf_schema cfg)) (first # rest) \<and> rest \<noteq> []
         \<and> \<not> bare_table first \<and> list_all table_first rest)"
proof -
  let ?p = "quoted_prefix (cf_schema cfg)"
  obtain H where S: "config_sessions append_ident cfg = Inr (au_sessions a)"
    and V: "config_vaults append_ident cfg = Inr (au_vaults a)"
    and A: "config_accounts append_ident cfg H (au_sessions a) = Inr (au_accounts a, au_accounts_prefix a)"
    and R: "new_roles append_ident (cf_schema cfg) = Inr (au_roles a)"
    using assms(1) by (rule kal_new_Inr)
  have roles: "schema_prefix append_ident (cf_schema cfg) = Some (au_roles a)"
    using R by (simp add: new_roles_def split: option.splits)
  note same = schema_prefix_quoted [OF roles assms(2)]
  have "ss_prefix (au_sessions a) = ?p" "au_accounts_prefix a = ?p" "\<And>v. au_vaults a = Some v \<Longrightarrow> vc_prefix v = ?p"
    using new_sessions_Inr [OF S [unfolded config_sessions_def]] config_accounts_Inr [OF A] config_vaults_Inr [OF V]
      roles same(1) by auto
  then have "list_all (bound_in ?p) (statements_of a)"
    using rendered_all [of ?p] same by (auto simp: statements_of_def split: option.splits)
  then show ?thesis
    unfolding list_all_iff bound_in_def by fastforce
qed

definition quote_ident :: "string \<Rightarrow> string" where
  "quote_ident s = CHR 0x22 # s @ [CHR 0x22]"

theorem statements_stay_in_schema_witness:
  "\<exists>a. kal_new quote_ident 4 (sample_config\<lparr>cf_schema := ''kal''\<rparr>) sample_env (world_of empty_db) = (Inr a, world_of empty_db)
     \<and> (sprintf1 revoke_text (quoted_prefix ''kal''), 1) \<in> set (statements_of a)
     \<and> placeholders (sprintf1 revoke_text (quoted_prefix ''kal'')) = 1"
proof -
  have name: "ident_ok ''kal''" by (simp add: ident_start_def ident_char_def)
  obtain a where run: "kal_new quote_ident 4 (sample_config\<lparr>cf_schema := ''kal''\<rparr>) sample_env (world_of empty_db)
      = (Inr a, world_of empty_db)" and p: "ss_prefix (au_sessions a) = quoted_prefix ''kal''"
    using name
    by (simp add: kal_new_def config_fault_def sample_base config_hasher_def config_sessions_def
      new_sessions_def schema_prefix_def config_vaults_def config_accounts_def new_accounts_def
      new_roles_def config_jwt_def sample_config_def DefaultIdle_def DefaultAbsolute_def hours_def seconds_def
      quote_ident_def quoted_prefix_def) (simp add: ret_def)
  have q: "quotes_plain quote_ident" by (simp add: quotes_plain_def quote_ident_def)
  have sent: "(sprintf1 revoke_text (quoted_prefix ''kal''), 1) \<in> set (statements_of a)"
    by (simp add: statements_of_def session_calls_def render_session_def p)
  have "placeholders (sprintf1 revoke_text (quoted_prefix ''kal'')) = 1"
    using bspec [OF statements_stay_in_schema [OF run q] sent] unfolding split_conv by (rule conjunct1)
  with run sent show ?thesis by (intro exI conjI)
qed

end
