(* ===== verification/Audit_Log.thy ===== *)
theory Audit_Log
  imports Kal_Facts
begin

text \<open>
  The process log against the audit trail. What kal logs it logs because a best-effort step
  failed and the request goes on; this theory shows that the audit hook is told each time, but
  for the failure counters. \<open>LogMailer\<close> of \<open>authn/mailer.go\<close> is here too.
\<close>

section \<open>LogMailer\<close>

definition right_arrow :: string where
  "right_arrow = [CHR 0xE2, CHR 0x86, CHR 0x92]"

definition log_mailer_line :: "string \<Rightarrow> message \<Rightarrow> string" where
  "log_mailer_line to msg = ''kal mail '' @ right_arrow @ '' '' @ to @ '' ['' @ kind_text (m_kind msg)
     @ ''] '' @ m_subject msg @ '' | '' @ m_text msg @ '' '' @ m_url msg"

definition log_mailer_send :: "string \<Rightarrow> message \<Rightarrow> unit prog" where
  "log_mailer_send to msg = log_printf (log_mailer_line to msg)"

text \<open>It never fails, and the link of the message ends the line: the log holds a live token.\<close>

lemma log_mailer_leaks_link:
  "\<exists>w' l. log_mailer_send to msg E w = (Inr (), w') \<and> log_lines w' = log_lines w @ [l @ m_url msg] \<and> db w' = db w"
  by (simp add: log_mailer_send_def log_mailer_line_def log_printf_def)

text \<open>A line of LogMailer, and the environments whose Mailer prints such lines at most.\<close>

definition mail_line :: "string \<Rightarrow> bool" where
  "mail_line l \<longleftrightarrow> has_prefix l ''kal mail ''"

definition mailer_marks :: "env \<Rightarrow> bool" where
  "mailer_marks E \<longleftrightarrow> (\<forall>to msg. list_all mail_line (mail_lines E to msg))"

definition uses_log_mailer :: "env \<Rightarrow> bool" where
  "uses_log_mailer E \<longleftrightarrow> (\<forall>n. \<not> mail_fails E n) \<and> (\<forall>to msg. mail_lines E to msg = [log_mailer_line to msg])"

lemma mailers_mark:
  "uses_log_mailer E \<Longrightarrow> mailer_marks E" "(\<And>to msg. mail_lines E to msg = []) \<Longrightarrow> mailer_marks E"
  by (simp_all add: mailer_marks_def uses_log_mailer_def mail_line_def log_mailer_line_def)

text \<open>With LogMailer configured, a mail sent is a call of its Send.\<close>

lemma send_mail_logs:
  "uses_log_mailer E \<Longrightarrow> log_lines (snd (send_mail to msg E w)) = log_lines (snd (log_mailer_send to msg E w))
     \<and> fst (send_mail to msg E w) = fst (log_mailer_send to msg E w)"
  by (simp add: uses_log_mailer_def send_mail_def log_mailer_send_def log_printf_def)

section \<open>Lines and events\<close>

text \<open>
  What the counters log is nowhere else, and LogMailer's lines are the mails themselves; every
  other line comes with an event that has it all.
\<close>

definition counter_line :: "string \<Rightarrow> bool" where
  "counter_line l \<longleftrightarrow> has_prefix l ''kal/authn: recording login failure: ''
     \<or> has_prefix l ''kal/authn: resetting login counters: ''"

definition told_line :: "string \<Rightarrow> bool" where
  "told_line l \<longleftrightarrow> \<not> counter_line l \<and> \<not> mail_line l"

definition detail :: "event \<Rightarrow> string \<Rightarrow> string" where
  "detail e k = (case map_of (ev_detail e) k of None \<Rightarrow> [] | Some v \<Rightarrow> v)"

definition logged_of :: "event \<Rightarrow> string list" where
  "logged_of e =
     (if ev_kind e = ''mail.fail''
      then [''kal/authn: sending '' @ detail e ''message'' @ '' mail: '' @ detail e ''error'']
      else if ev_kind e = ''password.rehash'' then [''kal/authn: rehash-on-login: '' @ detail e ''error'']
      else if ev_kind e = ''session.lookup.fail'' then [lookup_failed @ detail e ''error'']
      else [])"

definition audited :: "env \<Rightarrow> world \<Rightarrow> world \<Rightarrow> bool" where
  "audited E w w' \<longleftrightarrow> (\<exists>ls es. log_lines w' = log_lines w @ ls \<and> trail w' = trail w @ es
     \<and> filter told_line ls = concat (map logged_of es))"

lemma audited_same: "log_lines w' = log_lines w \<Longrightarrow> trail w' = trail w \<Longrightarrow> audited E w w'"
  by (simp add: audited_def)

lemma audited_one:
  assumes "log_lines w' = log_lines w @ [l]" and "trail w' = trail w @ [e]" and "told_line l"
    and "logged_of e = [l]"
  shows "audited E w w'"
  unfolding audited_def using assms by (intro exI [of _ "[l]"] exI [of _ "[e]"]) simp

lemma audited_trans:
  assumes "audited E w w1" and "audited E w1 w2"
  shows "audited E w w2"
proof -
  obtain ls es where "log_lines w1 = log_lines w @ ls" "trail w1 = trail w @ es"
    "filter told_line ls = concat (map logged_of es)"
    using assms(1) by (auto simp: audited_def)
  moreover obtain ks fs where "log_lines w2 = log_lines w1 @ ks" "trail w2 = trail w1 @ fs"
    "filter told_line ks = concat (map logged_of fs)"
    using assms(2) by (auto simp: audited_def)
  ultimately show ?thesis
    unfolding audited_def by (intro exI [of _ "ls @ ks"] exI [of _ "es @ fs"]) simp
qed

interpretation audits: guarantee audited
  by unfold_locales (auto intro: audited_same audited_trans)

section \<open>Single steps\<close>

lemma audits_effects [guar]:
  "keeps audited E (exec st)" "keeps audited E (rand_read n)"
  "keeps audited E (add_cookie c)" "keeps audited E count_hash" "keeps audited E (acquire_slot limit)"
  "keeps audited E release_slot"
  by (auto simp: keeps_def exec_def rand_read_def add_cookie_def count_hash_def
      acquire_slot_def release_slot_def intro!: audited_same split: sum.split)

lemma audits_mail [guar]:
  assumes "mailer_marks E"
  shows "keeps audited E (send_mail to msg)"
proof -
  have "filter told_line (mail_lines E to msg) = []"
    using assms by (auto simp: mailer_marks_def told_line_def list_all_iff filter_empty_conv)
  then show ?thesis
    by (auto simp: keeps_def send_mail_def audited_def)
qed

lemma logged_of_at [simp]: "logged_of (e\<lparr>ev_at := t\<rparr>) = logged_of e"
  by (simp add: logged_of_def detail_def)

lemma audits_emit: "logged_of e = [] \<Longrightarrow> keeps audited E (emit hook e)"
  by (auto simp: keeps_def emit_def audited_def)

lemma audits_counter_line: "counter_line l \<Longrightarrow> keeps audited E (log_printf l)"
  by (simp add: keeps_def log_printf_def audited_def told_line_def)

text \<open>A line and the event that goes with it.\<close>

lemma audits_failure:
  assumes "logged_of e = [l]" and "told_line l"
  shows "keeps audited E (tryM (log_printf l) (\<lambda>_. emit True e))"
  unfolding keeps_def
  by (auto simp: emit_def assms intro!: audited_one [where l = l])

lemma told_lines [simp]:
  "told_line (''kal/authn: sending '' @ s)" "told_line (''kal/authn: rehash-on-login: '' @ s)"
  "told_line (lookup_failed @ s)"
  by (simp_all add: told_line_def counter_line_def mail_line_def lookup_failed_def)

lemma counter_lines [simp]:
  "counter_line (''kal/authn: recording login failure: '' @ s)"
  "counter_line (''kal/authn: resetting login counters: '' @ s)"
  by (simp_all add: counter_line_def)

section \<open>The flows\<close>

lemma audits_logged [guar]:
  "ac_audit A \<Longrightarrow> mailer_marks E \<Longrightarrow> keeps audited E (notify A to msg)"
  "ac_audit A \<Longrightarrow> keeps audited E (rehash_failed A user e)"
  "keeps audited E (record_failure key ip)" "keeps audited E (reset_backoff key ip)"
proof -
  assume "ac_audit A"
  then show "keeps audited E (rehash_failed A user e)"
    unfolding rehash_failed_def
    by (auto simp only: intro!: audits.keeps_rules guar audits_failure)
      (simp_all add: logged_of_def detail_def told_line_def counter_line_def mail_line_def)
  assume "mailer_marks E"
  with \<open>ac_audit A\<close> show "keeps audited E (notify A to msg)"
    unfolding notify_def
    by (auto simp only: intro!: audits.keeps_rules guar audits_failure)
      (simp_all add: logged_of_def detail_def told_line_def counter_line_def mail_line_def)
next
  show "keeps audited E (record_failure key ip)" "keeps audited E (reset_backoff key ip)"
    unfolding record_failure_def reset_backoff_def
    by (intro audits.keeps_rules guar audits_counter_line counter_lines)+
qed

lemma quiet_events [simp]:
  "logged_of (no_event\<lparr>ev_kind := ''session.revoked'', ev_user := u, ev_detail := d\<rparr>) = []"
  "logged_of (no_event\<lparr>ev_kind := ''session.revoked'', ev_detail := d\<rparr>) = []"
  "logged_of (no_event\<lparr>ev_kind := ''backoff.open'', ev_email := m, ev_ip := i, ev_detail := d\<rparr>) = []"
  "logged_of (no_event\<lparr>ev_kind := ''login.ok'', ev_user := u, ev_email := m, ev_ip := i, ev_detail := d\<rparr>) = []"
  "logged_of (login_fail_event u m i why) = []"
  by (simp_all add: logged_of_def login_fail_event_def)

lemma audits_sessions [guar]:
  "keeps audited E (issue S user mt)" "keeps audited E (lookup S token)" "keeps audited E (lookup_cookie S token)"
  "keeps audited E (rotate S sid)" "keeps audited E (set_cookie c k)"
  "keeps audited E (revoke S sid)" "keeps audited E (revoke_all_for_user S user)"
  unfolding issue_def lookup_cookie_def lookup_def rotate_def new_token_def set_cookie_def revoke_def
    revoke_all_for_user_def Let_def
  by (intro audits.keeps_rules guar audits_emit quiet_events)+

lemma audits_hashing [guar]:
  "keeps audited E (hash_password H pw)" "keeps audited E (verify H pw enc)" "keeps audited E (verify_dummy H pw)"
  unfolding verify_dummy_def verify_def hash_password_def verify_stored_def within_bound_def acquire_def hash_bytes_def
    id_key_def Let_def
  by (intro audits.keeps_rules guar)+

lemma audits_checks [guar]:
  "keeps audited E (check_backoff A key ip)" "keeps audited E (check_secret A secret)"
  unfolding check_backoff_def check_secret_def by (intro audits.keeps_rules guar audits_emit quiet_events)+

lemma audits_rehash [guar]: "ac_audit A \<Longrightarrow> keeps audited E (rehash_stored A user pw old)"
  unfolding rehash_stored_def by (intro audits.keeps_rules guar)

lemma audits_login [guar]:
  assumes "ac_audit A" and "mailer_marks E"
  shows "keeps audited E (login A c email pw)"
  unfolding login_parts Let_def
  by (intro audits.keeps_rules guar audits_emit quiet_events assms)

lemma audits_accounts [guar]:
  assumes "ac_audit A" and "mailer_marks E"
  shows "keeps audited E (logout A c)" "keeps audited E (change_password A c pw nxt)"
  unfolding logout_def change_password_def swap_password_def
  by (intro audits.keeps_rules guar assms)+

lemma audits_tokens [guar]:
  assumes "ac_audit A" and "mailer_marks E"
  shows "keeps audited E (register A email pw)" "keeps audited E (request_password_reset A email)"
    "keeps audited E (reset_password A token pw)" "keeps audited E (verify_email token)"
    "keeps audited E (invite A email)" "keeps audited E (accept_invite A token pw)"
  unfolding token_flows enrol_def recover_def mint_def consume_def new_token_def Let_def
  by (intro audits.keeps_rules guar assms)+

lemma audits_identify:
  assumes "ss_audit S"
  shows "keeps audited E (identify S opts c r)"
proof -
  let ?e = "\<lambda>e. no_event\<lparr>ev_kind := ''session.lookup.fail'', ev_ip := client_ip opts r, ev_detail := [(''error'', error_text e)]\<rparr>"
  have pair: "tryM (log_printf l) (\<lambda>_. tryM (emit b e) f) = tryM (tryM (log_printf l) (\<lambda>_. emit b e)) f" for l b e and f :: "unit \<Rightarrow> ctx prog"
    by (intro ext) (simp add: tryM_def bindM_def log_printf_def)
  have failed: "keeps audited E (tryM (log_printf (lookup_failed @ error_text e)) (\<lambda>_. emit (ss_audit S) (?e e)))" for e
    using assms by (auto intro!: audits_failure) (simp_all add: logged_of_def detail_def)
  show ?thesis
    unfolding identify_def pair
    by (intro audits.keeps_case_option audits.keeps_case_sum audits.keeps_bindM audits.keeps_ret
        audits.keeps_tryM [OF failed] audits.keeps_tryM [OF audits_effects(3)] guar)
qed

lemma audits_middleware:
  assumes "ss_audit S" and "\<And>c r. keeps audited E (nxt c r)"
  shows "keeps audited E (middleware S opts nxt c r)"
  unfolding middleware_def by (intro audits.keeps_rules audits_identify assms)

text \<open>Both services of New have the hook of its configuration.\<close>

lemma new_services_audit:
  "new_sessions append_ident so = Inr S \<Longrightarrow> ss_audit S = so_audit so"
  "new_accounts append_ident ao = Inr (A, prefix) \<Longrightarrow> ac_audit A = ao_audit ao"
  by (auto simp: new_sessions_def new_accounts_Inr Let_def split: if_splits option.splits)

lemma kal_new_audit:
  assumes "kal_new append_ident gomaxprocs cfg E w = (Inr a, w')"
  shows "ac_audit (au_accounts a) = cf_audit cfg \<and> ss_audit (au_sessions a) = cf_audit cfg \<and> au_cfg a = cfg"
proof -
  obtain H where "config_sessions append_ident cfg = Inr (au_sessions a)"
    and "config_accounts append_ident cfg H (au_sessions a) = Inr (au_accounts a, au_accounts_prefix a)"
    and "au_cfg a = cfg"
    using assms by (rule kal_new_Inr) blast
  then show ?thesis
    using new_services_audit(1) [of append_ident _ "au_sessions a"]
      new_services_audit(2) [of append_ident _ "au_accounts a" "au_accounts_prefix a"]
    unfolding config_sessions_def config_accounts_def by fastforce
qed

lemma sample_audited_new:
  "\<exists>a. kal_new id 4 (sample_config\<lparr>cf_audit := True\<rparr>) E w = (Inr a, w)"
  by (simp add: kal_new_def config_fault_def sample_base config_hasher_def config_sessions_def
      new_sessions_def schema_prefix_def config_vaults_def config_accounts_def new_accounts_def
      new_roles_def config_jwt_def sample_config_def DefaultIdle_def DefaultAbsolute_def hours_def seconds_def)
    (simp add: ret_def)

section \<open>Property\<close>

text \<open>C37 What kal logs, the audit hook is told: for every service New builds with an audit hook,
  whatever fails on the way, the lines a flow or a request adds to the process log are, one by
  one and in order, what the failure events it adds to the trail say, but for the lines of a
  failure counter that could not be written and for those the Mailer prints itself, which are
  LogMailer's if it is the one configured and none if it is a Mailer that does not log. The
  middlewares in between and the handler have to keep to this themselves.\<close>

theorem log_reaches_trail:
  assumes "kal_new append_ident gomaxprocs cfg E0 w0 = (Inr a, w1)" and "cf_audit cfg" and "mailer_marks E"
    and "\<And>c r. keeps audited E (nxt c r)"
    and "\<And>v n c r. v \<in> set (cf_extras cfg) \<Longrightarrow> (\<And>c r. keeps audited E (n c r)) \<Longrightarrow> keeps audited E (v n c r)"
  shows "audited E w (snd (login (au_accounts a) c email pw E w))
    \<and> audited E w (snd (logout (au_accounts a) c E w))
    \<and> audited E w (snd (change_password (au_accounts a) c pw new E w))
    \<and> audited E w (snd (register (au_accounts a) email pw E w))
    \<and> audited E w (snd (request_password_reset (au_accounts a) email E w))
    \<and> audited E w (snd (reset_password (au_accounts a) token pw E w))
    \<and> audited E w (snd (verify_email token E w))
    \<and> audited E w (snd (invite (au_accounts a) email E w))
    \<and> audited E w (snd (accept_invite (au_accounts a) token pw E w))
    \<and> audited E w (snd (kal_middleware a nxt c r E w))"
proof -
  have on: "ac_audit (au_accounts a)" "ss_audit (au_sessions a)" and cfg: "au_cfg a = cfg"
    using kal_new_audit [OF assms(1)] assms(2) by simp_all
  have "keeps audited E (with_extras vs nxt c r)" if "set vs \<subseteq> set (cf_extras cfg)" for vs c r
    using that by (induction vs arbitrary: c r) (simp_all add: with_extras_def assms(4,5))
  then have "keeps audited E (carrying_bypass (cf_bypass cfg) (with_extras (cf_extras cfg) nxt) c r)" for c r
    by (simp add: carrying_bypass_def)
  then have request: "keeps audited E (kal_middleware a nxt c r)"
    unfolding kal_middleware_def cfg by (intro audits_middleware on)
  note steps = request audits_login [OF on(1) assms(3)] audits_accounts [OF on(1) assms(3)] audits_tokens [OF on(1) assms(3)]
  show ?thesis
    by (intro conjI steps [unfolded keeps_def, THEN spec])
qed

text \<open>A reset asked for while the mailer is down, one line and one event; and one that LogMailer
  prints, a line and no event.\<close>

theorem log_reaches_trail_witness:
  "\<exists>a w w' l e. kal_new id 4 (sample_config\<lparr>cf_audit := True\<rparr>) sample_env w = (Inr a, w)
     \<and> request_password_reset (au_accounts a) ''b@x.io'' (sample_env\<lparr>mail_fails := \<lambda>_. True\<rparr>) (world_of sample_db) = (Inr (), w')
     \<and> log_lines w' = [l] \<and> trail w' = [e] \<and> logged_of e = [l]
     \<and> audited (sample_env\<lparr>mail_lines := \<lambda>to msg. [log_mailer_line to msg]\<rparr>) (world_of sample_db)
         (snd (request_password_reset (au_accounts a) ''b@x.io''
            (sample_env\<lparr>mail_lines := \<lambda>to msg. [log_mailer_line to msg]\<rparr>) (world_of sample_db)))"
proof -
  let ?E = "sample_env\<lparr>mail_fails := \<lambda>_. True\<rparr>" and ?F = "sample_env\<lparr>mail_lines := \<lambda>to msg. [log_mailer_line to msg]\<rparr>"
  let ?l = "''kal/authn: sending reset-no-account mail: mail''"
  obtain a where new: "kal_new id 4 (sample_config\<lparr>cf_audit := True\<rparr>) sample_env (world_of sample_db) = (Inr a, world_of sample_db)"
    using sample_audited_new by blast
  then have "ac_audit (au_accounts a)"
    using kal_new_audit by fastforce
  then obtain w' e where run: "request_password_reset (au_accounts a) ''b@x.io'' ?E (world_of sample_db) = (Inr (), w')"
    and out: "log_lines w' = [?l]" "trail w' = [e]"
    by (auto simp: request_password_reset_def with_env_def query_one_def tryM_def bindM_def exec_def
        user_id_by_email_sql_def lift_def fail_def notify_def send_mail_def emit_def log_printf_def no_account_mail_def Let_def)
  have marks: "mailer_marks ?E" "mailer_marks ?F"
    by (intro mailers_mark(2) mailers_mark(1); simp add: uses_log_mailer_def)+
  have both: "audited G (world_of sample_db) (snd (request_password_reset (au_accounts a) ''b@x.io'' G (world_of sample_db)))"
    if "mailer_marks G" for G
    using log_reaches_trail [OF new _ that, of "\<lambda>c r. ret []"]
    by (simp add: sample_config_def audits.keeps_ret)
  from both [OF marks(1)] run have "audited ?E (world_of sample_db) w'" by simp
  with out have "logged_of e = [?l]"
    by (simp add: audited_def told_line_def counter_line_def mail_line_def)
  with new run out both [OF marks(2)] show ?thesis by blast
qed

end
