(* ===== verification/Ddl.thy ===== *)
theory Ddl
  imports Schedule
begin

text \<open>
  The four files of \<open>migrations/\<close> as data: tables with their columns, keys, checks, foreign keys
  and defaults, indexes, and the constraint \<open>0004_zk_hardening.sql\<close> adds. \<open>meets\<close> is what
  Postgres enforces of such a schema on rows of cells. The typed rows of \<open>Schema\<close> are read as
  rows of cells, and \<open>wf_db\<close> turns out to be what the files declare.
\<close>

section \<open>Cells and expressions\<close>

datatype col_type =
    Uuid | TextCol | Bytea | BooleanCol | Timestamptz | Inet | Smallint | IntCol | Bigint

datatype cell = VText string | VBytes "byte list" | VBool bool | VTime int | VInt int

text \<open>A null is \<open>None\<close>; a uuid and an address are texts.\<close>

type_synonym row = "string \<Rightarrow> cell option"

fun fits :: "col_type \<Rightarrow> cell \<Rightarrow> bool" where
  "fits Smallint (VInt i) \<longleftrightarrow> - 32768 \<le> i \<and> i \<le> 32767"
| "fits IntCol (VInt i) \<longleftrightarrow> int4 i"
| "fits Bigint (VInt i) \<longleftrightarrow> - 9223372036854775808 \<le> i \<and> i \<le> 9223372036854775807"
| "fits BooleanCol (VBool b) \<longleftrightarrow> True"
| "fits Timestamptz (VTime t) \<longleftrightarrow> True"
| "fits Bytea (VBytes b) \<longleftrightarrow> True"
| "fits Uuid (VText s) \<longleftrightarrow> True"
| "fits TextCol (VText s) \<longleftrightarrow> True"
| "fits Inet (VText s) \<longleftrightarrow> True"
| "fits _ _ \<longleftrightarrow> False"

datatype expr =
    Col string | TextLit string | IntLit int
  | OctetLength expr | CharLength expr | Lower expr | IsNull expr | IsNotNull expr
  | Equal expr expr | Differ expr expr | Below expr expr | AtMost expr expr
  | Conj expr expr | OneOf expr "string list"

fun compare_cells :: "(int \<Rightarrow> int \<Rightarrow> bool) \<Rightarrow> cell option \<Rightarrow> cell option \<Rightarrow> cell option" where
  "compare_cells c (Some (VInt i)) (Some (VInt j)) = Some (VBool (c i j))"
| "compare_cells c _ _ = None"

text \<open>Three-valued: an operator on a null is null, but a conjunction with a false is false.\<close>

fun conj_cells :: "cell option \<Rightarrow> cell option \<Rightarrow> cell option" where
  "conj_cells (Some (VBool True)) y = y"
| "conj_cells (Some (VBool False)) y = Some (VBool False)"
| "conj_cells x (Some (VBool False)) = Some (VBool False)"
| "conj_cells x y = None"

fun eval :: "unicode_tables \<Rightarrow> row \<Rightarrow> expr \<Rightarrow> cell option" where
  "eval U r (Col c) = r c"
| "eval U r (TextLit s) = Some (VText s)"
| "eval U r (IntLit i) = Some (VInt i)"
| "eval U r (OctetLength e) = (case eval U r e of Some (VBytes b) \<Rightarrow> Some (VInt (int (length b))) | _ \<Rightarrow> None)"
| "eval U r (CharLength e) = (case eval U r e of Some (VText s) \<Rightarrow> Some (VInt (int (rune_count s))) | _ \<Rightarrow> None)"
| "eval U r (Lower e) = (case eval U r e of Some (VText s) \<Rightarrow> Some (VText (pg_lower U s)) | _ \<Rightarrow> None)"
| "eval U r (IsNull e) = Some (VBool (eval U r e = None))"
| "eval U r (IsNotNull e) = Some (VBool (eval U r e \<noteq> None))"
| "eval U r (Equal a b) = (case (eval U r a, eval U r b) of (Some x, Some y) \<Rightarrow> Some (VBool (x = y)) | _ \<Rightarrow> None)"
| "eval U r (Differ a b) = (case (eval U r a, eval U r b) of (Some x, Some y) \<Rightarrow> Some (VBool (x \<noteq> y)) | _ \<Rightarrow> None)"
| "eval U r (Below a b) = compare_cells (<) (eval U r a) (eval U r b)"
| "eval U r (AtMost a b) = compare_cells (\<le>) (eval U r a) (eval U r b)"
| "eval U r (Conj a b) = conj_cells (eval U r a) (eval U r b)"
| "eval U r (OneOf e xs) = (case eval U r e of Some (VText s) \<Rightarrow> Some (VBool (s \<in> set xs)) | _ \<Rightarrow> None)"

section \<open>Schema statements\<close>

datatype on_delete = Cascade | SetNull

record column =
  c_name :: string
  c_type :: col_type
  c_not_null :: bool
  c_primary :: bool
  c_unique :: bool
  c_default :: "string option"
  c_check :: "expr option"
  c_references :: "(string \<times> string \<times> on_delete) option"

text \<open>The third part of a table is the primary key given as a constraint of the table, if any.\<close>

datatype ddl =
    CreateTable string "column list" "string list"
  | CreateIndex string string "expr list" "expr option"
  | CreateUniqueIndex string string "expr list" "expr option"
  | AddCheck string string expr

text \<open>Words of the language: \<open>id uuid primary key default \<dots>\<close> is \<open>key (default_to \<dots> (col id Uuid))\<close>.\<close>

definition col :: "string \<Rightarrow> col_type \<Rightarrow> column" where
  "col n t = \<lparr>c_name = n, c_type = t, c_not_null = False, c_primary = False, c_unique = False,
     c_default = None, c_check = None, c_references = None\<rparr>"

definition not_null :: "column \<Rightarrow> column" where "not_null c = c\<lparr>c_not_null := True\<rparr>"
definition primary_key :: "column \<Rightarrow> column" where "primary_key c = c\<lparr>c_primary := True\<rparr>"
definition unique :: "column \<Rightarrow> column" where "unique c = c\<lparr>c_unique := True\<rparr>"
definition default_to :: "string \<Rightarrow> column \<Rightarrow> column" where "default_to s c = c\<lparr>c_default := Some s\<rparr>"
definition checked :: "expr \<Rightarrow> column \<Rightarrow> column" where "checked e c = c\<lparr>c_check := Some e\<rparr>"
definition references :: "string \<Rightarrow> string \<Rightarrow> on_delete \<Rightarrow> column \<Rightarrow> column" where
  "references t k a c = c\<lparr>c_references := Some (t, k, a)\<rparr>"

definition bytes32 :: "string \<Rightarrow> expr" where
  "bytes32 c = Equal (OctetLength (Col c)) (IntLit 32)"

lemmas column_words [simp] = not_null_def primary_key_def unique_def default_to_def checked_def references_def col_def

section \<open>The files\<close>

definition core_ddl :: "ddl list" where
  "core_ddl =
    [CreateTable ''auth_users''
       [primary_key (default_to ''gen_random_uuid()'' (col ''id'' Uuid)),
        not_null (col ''email'' TextCol),
        col ''password_hash'' TextCol,
        not_null (default_to ''false'' (col ''email_verified'' BooleanCol)),
        not_null (default_to ''now()'' (col ''created_at'' Timestamptz)),
        not_null (default_to ''now()'' (col ''updated_at'' Timestamptz)),
        col ''deleted_at'' Timestamptz] [],
     CreateUniqueIndex ''auth_users_email_live_key'' ''auth_users'' [Lower (Col ''email'')]
       (Some (IsNull (Col ''deleted_at''))),
     CreateTable ''auth_sessions''
       [primary_key (default_to ''gen_random_uuid()'' (col ''id'' Uuid)),
        not_null (unique (col ''token_sha256'' Bytea)),
        not_null (references ''auth_users'' ''id'' Cascade (col ''user_id'' Uuid)),
        not_null (default_to ''now()'' (col ''created_at'' Timestamptz)),
        not_null (default_to ''now()'' (col ''last_seen_at'' Timestamptz)),
        not_null (col ''idle_expires_at'' Timestamptz),
        not_null (col ''expires_at'' Timestamptz),
        col ''mfa_at'' Timestamptz,
        col ''user_agent'' TextCol,
        col ''ip'' Inet,
        col ''revoked_at'' Timestamptz] [],
     CreateIndex ''auth_sessions_user_live_idx'' ''auth_sessions'' [Col ''user_id''] (Some (IsNull (Col ''revoked_at''))),
     CreateTable ''auth_tokens''
       [primary_key (col ''token_sha256'' Bytea),
        not_null (references ''auth_users'' ''id'' Cascade (col ''user_id'' Uuid)),
        not_null (col ''purpose'' TextCol),
        not_null (col ''expires_at'' Timestamptz),
        col ''consumed_at'' Timestamptz,
        not_null (default_to ''now()'' (col ''created_at'' Timestamptz))] [],
     CreateIndex ''auth_tokens_user_idx'' ''auth_tokens'' [Col ''user_id'', Col ''purpose''] None,
     CreateTable ''auth_roles''
       [primary_key (col ''name'' TextCol),
        not_null (default_to [CHR 0x27, CHR 0x27] (col ''description'' TextCol))] [],
     CreateTable ''auth_user_roles''
       [not_null (references ''auth_users'' ''id'' Cascade (col ''user_id'' Uuid)),
        not_null (references ''auth_roles'' ''name'' Cascade (col ''role'' TextCol))]
       [''user_id'', ''role''],
     CreateTable ''auth_login_attempts''
       [not_null (col ''scope'' TextCol),
        not_null (col ''key'' TextCol),
        not_null (default_to ''0'' (col ''failures'' IntCol)),
        not_null (default_to ''now()'' (col ''last_fail'' Timestamptz))]
       [''scope'', ''key'']]"

definition zk_ddl :: "ddl list" where
  "zk_ddl =
    [CreateTable ''auth_zk_commitments''
       [primary_key (references ''auth_users'' ''id'' Cascade (col ''user_id'' Uuid)),
        not_null (checked (bytes32 ''commitment'') (col ''commitment'' Bytea)),
        not_null (default_to ''now()'' (col ''created_at'' Timestamptz))] [],
     CreateTable ''auth_zk_challenges''
       [primary_key (checked (bytes32 ''challenge'') (col ''challenge'' Bytea)),
        references ''auth_sessions'' ''id'' Cascade (col ''session_id'' Uuid),
        not_null (checked (OneOf (Col ''purpose'') [''knowledge'', ''login'', ''claim'']) (col ''purpose'' TextCol)),
        not_null (checked (bytes32 ''field'') (col ''field'' Bytea)),
        not_null (col ''expires_at'' Timestamptz),
        col ''consumed_at'' Timestamptz] [],
     CreateIndex ''auth_zk_challenges_expiry_idx'' ''auth_zk_challenges'' [Col ''expires_at''] None,
     CreateTable ''auth_zk_nodes''
       [not_null (checked (Conj (AtMost (IntLit 0) (Col ''level'')) (Below (Col ''level'') (IntLit 32))) (col ''level'' Smallint)),
        not_null (checked (AtMost (IntLit 0) (Col ''idx'')) (col ''idx'' Bigint)),
        not_null (checked (bytes32 ''hash'') (col ''hash'' Bytea))]
       [''level'', ''idx''],
     CreateTable ''auth_zk_credentials''
       [primary_key (checked (Conj (AtMost (IntLit 0) (Col ''leaf_index'')) (Below (Col ''leaf_index'') (IntLit 4294967296)))
          (col ''leaf_index'' Bigint)),
        not_null (unique (checked (bytes32 ''commitment'') (col ''commitment'' Bytea))),
        references ''auth_users'' ''id'' SetNull (col ''issued_to'' Uuid),
        not_null (default_to ''now()'' (col ''created_at'' Timestamptz)),
        col ''revoked_at'' Timestamptz] [],
     CreateIndex ''auth_zk_credentials_issued_idx'' ''auth_zk_credentials'' [Col ''issued_to'']
       (Some (Conj (IsNotNull (Col ''issued_to'')) (IsNull (Col ''revoked_at'')))),
     CreateTable ''auth_zk_roots''
       [primary_key (checked (bytes32 ''root'') (col ''root'' Bytea)),
        not_null (default_to ''now()'' (col ''created_at'' Timestamptz)),
        col ''retired_at'' Timestamptz] [],
     CreateUniqueIndex ''auth_zk_roots_current_key'' ''auth_zk_roots'' [IsNull (Col ''retired_at'')]
       (Some (IsNull (Col ''retired_at''))),
     CreateTable ''auth_zk_nullifiers''
       [primary_key (checked (bytes32 ''nullifier'') (col ''nullifier'' Bytea)),
        not_null (checked (bytes32 ''audience'') (col ''audience'' Bytea)),
        references ''auth_users'' ''id'' Cascade (col ''user_id'' Uuid),
        not_null (default_to ''now()'' (col ''first_seen_at'' Timestamptz)),
        col ''consumed_at'' Timestamptz] [],
     CreateTable ''auth_zk_claims''
       [primary_key (checked (Conj (Differ (Col ''claim'') (TextLit [])) (AtMost (CharLength (Col ''claim'')) (IntLit 128)))
          (col ''claim'' TextCol)),
        not_null (unique (checked (bytes32 ''audience'') (col ''audience'' Bytea))),
        not_null (checked (AtMost (IntLit 0) (Col ''threshold'')) (col ''threshold'' Bigint)),
        not_null (checked (OneOf (Col ''kind'') [''recurring'', ''one_shot'']) (col ''kind'' TextCol)),
        not_null (default_to ''false'' (col ''allows_login'' BooleanCol))] [],
     CreateTable ''auth_zk_session_claims''
       [not_null (references ''auth_sessions'' ''id'' Cascade (col ''session_id'' Uuid)),
        not_null (references ''auth_zk_claims'' ''claim'' Cascade (col ''claim'' TextCol)),
        not_null (default_to ''now()'' (col ''proven_at'' Timestamptz))]
       [''session_id'', ''claim'']]"

definition e2ee_ddl :: "ddl list" where
  "e2ee_ddl =
    [CreateTable ''auth_e2ee_vaults''
       [primary_key (references ''auth_users'' ''id'' Cascade (col ''user_id'' Uuid)),
        not_null (col ''kdf'' TextCol),
        not_null (col ''salt'' Bytea),
        not_null (col ''memory'' IntCol),
        not_null (col ''iterations'' IntCol),
        not_null (checked (Equal (Col ''parallelism'') (IntLit 1)) (col ''parallelism'' Smallint)),
        col ''wrapped_key'' Bytea,
        col ''recovery_wrapped_key'' Bytea,
        col ''wrapped_for'' Bytea,
        not_null (default_to ''1'' (col ''key_version'' IntCol)),
        not_null (default_to ''now()'' (col ''updated_at'' Timestamptz))] []]"

definition zk_hardening_ddl :: "ddl list" where
  "zk_hardening_ddl =
    [AddCheck ''auth_zk_nullifiers'' ''auth_zk_nullifiers_shape_check''
       (Differ (IsNull (Col ''user_id'')) (IsNull (Col ''consumed_at'')))]"

text \<open>The embedded files by name, in name order.\<close>

definition migration_ddl :: "(string \<times> ddl list) list" where
  "migration_ddl = [(''0001_core.sql'', core_ddl), (''0002_zk.sql'', zk_ddl), (''0003_e2ee.sql'', e2ee_ddl),
     (''0004_zk_hardening.sql'', zk_hardening_ddl)]"

text \<open>The files as one schema.\<close>

definition whole_schema :: "ddl list" where
  "whole_schema = concat (map snd migration_ddl)"

section \<open>What a schema demands of the rows\<close>

text \<open>A key with a null in it conflicts with nothing; a check fails only when it is false.\<close>

definition unique_on :: "unicode_tables \<Rightarrow> expr list \<Rightarrow> row list \<Rightarrow> bool" where
  "unique_on U key rows \<longleftrightarrow> distinct (filter (\<lambda>k. None \<notin> set k) (map (\<lambda>r. map (eval U r) key) rows))"

definition passes :: "unicode_tables \<Rightarrow> expr \<Rightarrow> row \<Rightarrow> bool" where
  "passes U e r \<longleftrightarrow> eval U r e \<noteq> Some (VBool False)"

definition selected :: "unicode_tables \<Rightarrow> expr option \<Rightarrow> row list \<Rightarrow> row list" where
  "selected U pred rows = (case pred of None \<Rightarrow> rows | Some e \<Rightarrow> filter (\<lambda>r. eval U r e = Some (VBool True)) rows)"

definition column_ok :: "unicode_tables \<Rightarrow> (string \<Rightarrow> row list) \<Rightarrow> column \<Rightarrow> row \<Rightarrow> bool" where
  "column_ok U tabs c r \<longleftrightarrow>
     (case r (c_name c) of
        None \<Rightarrow> \<not> c_not_null c \<and> \<not> c_primary c
      | Some v \<Rightarrow> fits (c_type c) v
          \<and> (case c_references c of None \<Rightarrow> True | Some (t, k, a) \<Rightarrow> list_ex (\<lambda>p. p k = Some v) (tabs t)))
     \<and> (case c_check c of None \<Rightarrow> True | Some e \<Rightarrow> passes U e r)"

fun demands :: "unicode_tables \<Rightarrow> (string \<Rightarrow> row list) \<Rightarrow> ddl \<Rightarrow> bool" where
  "demands U tabs (CreateTable t cs pk) \<longleftrightarrow>
     list_all (\<lambda>c. list_all (column_ok U tabs c) (tabs t)
                  \<and> (c_primary c \<or> c_unique c \<longrightarrow> unique_on U [Col (c_name c)] (tabs t))) cs
     \<and> (pk \<noteq> [] \<longrightarrow> unique_on U (map Col pk) (tabs t) \<and> list_all (\<lambda>r. list_all (\<lambda>k. r k \<noteq> None) pk) (tabs t))"
| "demands U tabs (CreateIndex i t key pred) \<longleftrightarrow> True"
| "demands U tabs (CreateUniqueIndex i t key pred) \<longleftrightarrow> unique_on U key (selected U pred (tabs t))"
| "demands U tabs (AddCheck t n e) \<longleftrightarrow> list_all (passes U e) (tabs t)"

definition meets :: "unicode_tables \<Rightarrow> ddl list \<Rightarrow> (string \<Rightarrow> row list) \<Rightarrow> bool" where
  "meets U ds tabs \<longleftrightarrow> list_all (demands U tabs) ds"

section \<open>The typed rows as rows of cells\<close>

definition row_of :: "(string \<times> cell option) list \<Rightarrow> row" where
  "row_of cells = (\<lambda>c. case map_of cells c of None \<Rightarrow> None | Some v \<Rightarrow> v)"

abbreviation str :: "string \<Rightarrow> cell option" where "str s \<equiv> Some (VText s)"
abbreviation octets :: "byte list \<Rightarrow> cell option" where "octets b \<equiv> Some (VBytes b)"
abbreviation moment :: "int \<Rightarrow> cell option" where "moment t \<equiv> Some (VTime t)"
abbreviation number :: "int \<Rightarrow> cell option" where "number i \<equiv> Some (VInt i)"

definition user_cells :: "user_row \<Rightarrow> row" where
  "user_cells u = row_of
     [(''id'', str (u_id u)), (''email'', str (u_email u)), (''password_hash'', map_option VText (u_hash u)),
      (''email_verified'', Some (VBool (u_verified u))), (''created_at'', moment (u_created u)),
      (''updated_at'', moment (u_updated u)), (''deleted_at'', map_option VTime (u_deleted u))]"

definition session_cells :: "session_row \<Rightarrow> row" where
  "session_cells s = row_of
     [(''id'', str (s_id s)), (''token_sha256'', octets (s_token s)), (''user_id'', str (s_user s)),
      (''created_at'', moment (s_created s)), (''last_seen_at'', moment (s_last_seen s)),
      (''idle_expires_at'', moment (s_idle_exp s)), (''expires_at'', moment (s_exp s)),
      (''mfa_at'', map_option VTime (s_mfa s)), (''user_agent'', map_option VText (s_ua s)),
      (''ip'', map_option VText (s_ip s)), (''revoked_at'', map_option VTime (s_revoked s))]"

definition token_cells :: "token_row \<Rightarrow> row" where
  "token_cells t = row_of
     [(''token_sha256'', octets (t_hash t)), (''user_id'', str (t_user t)), (''purpose'', str (t_purpose t)),
      (''expires_at'', moment (t_expires t)), (''consumed_at'', map_option VTime (t_consumed t)),
      (''created_at'', moment (t_created t))]"

definition role_cells :: "string \<times> string \<Rightarrow> row" where
  "role_cells p = row_of [(''name'', str (fst p)), (''description'', str (snd p))]"

definition user_role_cells :: "string \<times> string \<Rightarrow> row" where
  "user_role_cells p = row_of [(''user_id'', str (fst p)), (''role'', str (snd p))]"

definition attempt_cells :: "attempt_row \<Rightarrow> row" where
  "attempt_cells a = row_of
     [(''scope'', str (a_scope a)), (''key'', str (a_key a)), (''failures'', number (a_failures a)),
      (''last_fail'', moment (a_last a))]"

definition vault_cells :: "vault_row \<Rightarrow> row" where
  "vault_cells v = row_of
     [(''user_id'', str (v_user v)), (''kdf'', str (v_kdf v)), (''salt'', octets (v_salt v)),
      (''memory'', number (v_memory v)), (''iterations'', number (v_iterations v)),
      (''parallelism'', number (v_parallelism v)), (''wrapped_key'', map_option VBytes (v_wrapped v)),
      (''recovery_wrapped_key'', map_option VBytes (v_recovery v)),
      (''wrapped_for'', map_option VBytes (v_wrapped_for v)), (''key_version'', number (v_version v)),
      (''updated_at'', moment (v_updated v))]"

text \<open>Every table of the schema; the zero-knowledge ones are empty, for nothing here writes them.\<close>

definition cells_of :: "database \<Rightarrow> string \<Rightarrow> row list" where
  "cells_of d t =
     (if t = ''auth_users'' then map user_cells (users d)
      else if t = ''auth_sessions'' then map session_cells (sessions d)
      else if t = ''auth_tokens'' then map token_cells (tokens d)
      else if t = ''auth_roles'' then map role_cells (roles d)
      else if t = ''auth_user_roles'' then map user_role_cells (user_roles d)
      else if t = ''auth_login_attempts'' then map attempt_cells (attempts d)
      else if t = ''auth_e2ee_vaults'' then map vault_cells (vaults d)
      else [])"

end
