(* ===== verification/Ddl_Facts.thy ===== *)
theory Ddl_Facts
  imports Ddl Samples
begin

text \<open>
  The constraints of \<open>Schema\<close> are those of the migration files, no schedule of kal's statements
  breaks what the files declare, and a statement fails with a violation only where its write
  would have.
\<close>

section \<open>Keys\<close>

lemma unique_on_key:
  assumes "\<And>x. None \<notin> set (map (eval U (f x)) key)"
    and "\<And>x y. map (eval U (f x)) key = map (eval U (f y)) key \<longleftrightarrow> h x = h y"
  shows "unique_on U key (map f xs) \<longleftrightarrow> distinct (map h xs)"
proof -
  have "filter (\<lambda>k. None \<notin> set k) (map (\<lambda>r. map (eval U r) key) (map f xs)) = map (\<lambda>x. map (eval U (f x)) key) xs"
    using assms(1) by (induction xs) simp_all
  moreover have "distinct (map (\<lambda>x. map (eval U (f x)) key) xs) \<longleftrightarrow> distinct (map h xs)"
    using assms(2) by (induction xs) (auto simp: image_iff)
  ultimately show ?thesis by (simp only: unique_on_def)
qed

lemma unique_on_Nil [simp]: "unique_on U key []"
  by (simp add: unique_on_def)

lemma selected_map: "selected U (Some e) (map f xs) = map f (filter (\<lambda>x. eval U (f x) e = Some (VBool True)) xs)"
  by (simp add: selected_def filter_map comp_def)

section \<open>The cells of a row\<close>

lemmas cells_defs =
  user_cells_def session_cells_def token_cells_def role_cells_def user_role_cells_def attempt_cells_def
  vault_cells_def

lemma row_of_simps [simp]:
  "row_of [] c = None" "row_of ((k, v) # cells) c = (if k = c then v else row_of cells c)"
  by (auto simp: row_of_def)

lemma cells_of_simps [simp]:
  "cells_of d ''auth_users'' = map user_cells (users d)"
  "cells_of d ''auth_sessions'' = map session_cells (sessions d)"
  "cells_of d ''auth_tokens'' = map token_cells (tokens d)"
  "cells_of d ''auth_roles'' = map role_cells (roles d)"
  "cells_of d ''auth_user_roles'' = map user_role_cells (user_roles d)"
  "cells_of d ''auth_login_attempts'' = map attempt_cells (attempts d)"
  "cells_of d ''auth_e2ee_vaults'' = map vault_cells (vaults d)"
  by (simp_all add: cells_of_def)

lemma list_all_column:
  "list_all (column_ok U tabs c) (map f xs) \<longleftrightarrow> (\<forall>x \<in> set xs. column_ok U tabs c (f x))"
  by (simp add: list_all_iff)

lemma user_reference:
  "list_ex (\<lambda>p. p ''id'' = str i) (map user_cells (users d)) \<longleftrightarrow> has_user d i"
  by (simp add: list_ex_iff has_user_def user_cells_def)

lemma role_reference:
  "list_ex (\<lambda>p. p ''name'' = str n) (map role_cells (roles d)) \<longleftrightarrow> n \<in> fst ` set (roles d)"
  by (auto simp: list_ex_iff role_cells_def)

section \<open>Table by table\<close>

lemma keys_of_tables:
  "unique_on U [Col ''id''] (map user_cells us) \<longleftrightarrow> distinct (map u_id us)"
  "unique_on U [Lower (Col ''email'')] (map user_cells us) \<longleftrightarrow> distinct (map (email_key U) us)"
  "unique_on U [Col ''id''] (map session_cells ss) \<longleftrightarrow> distinct (map s_id ss)"
  "unique_on U [Col ''token_sha256''] (map session_cells ss) \<longleftrightarrow> distinct (map s_token ss)"
  "unique_on U [Col ''token_sha256''] (map token_cells ts) \<longleftrightarrow> distinct (map t_hash ts)"
  "unique_on U [Col ''name''] (map role_cells rs) \<longleftrightarrow> distinct (map fst rs)"
  "unique_on U [Col ''scope'', Col ''key''] (map attempt_cells as) \<longleftrightarrow> distinct (map (\<lambda>a. (a_scope a, a_key a)) as)"
  "unique_on U [Col ''user_id''] (map vault_cells vs) \<longleftrightarrow> distinct (map v_user vs)"
  by (rule unique_on_key; simp add: cells_defs email_key_def)+

lemma key_of_memberships:
  "unique_on U [Col ''user_id'', Col ''role''] (map user_role_cells ps) \<longleftrightarrow> distinct ps"
  using unique_on_key [where h = "\<lambda>p. p" and f = user_role_cells and key = "[Col ''user_id'', Col ''role'']"]
  by (simp add: cells_defs prod_eq_iff)

lemma live_rows: "selected U (Some (IsNull (Col ''deleted_at''))) (map user_cells us) = map user_cells (filter live_user us)"
proof -
  have "eval U (user_cells u) (IsNull (Col ''deleted_at'')) = Some (VBool True) \<longleftrightarrow> live_user u" for u
    by (simp add: cells_defs live_user_def)
  then show ?thesis by (simp only: selected_map)
qed

lemmas reading =
  meets_def column_ok_def passes_def list_all_iff cells_defs option.case_eq_if user_reference role_reference

definition declared_core :: "unicode_tables \<Rightarrow> database \<Rightarrow> bool" where
  "declared_core U d \<longleftrightarrow> wf_users U d \<and> wf_sessions d \<and> wf_tokens d \<and> wf_roles d
     \<and> distinct (map (\<lambda>a. (a_scope a, a_key a)) (attempts d)) \<and> (\<forall>a \<in> set (attempts d). int4 (a_failures a))"

definition vault_fits :: "vault_row \<Rightarrow> bool" where
  "vault_fits v \<longleftrightarrow> v_parallelism v = 1 \<and> int4 (v_memory v) \<and> int4 (v_iterations v) \<and> int4 (v_version v)"

definition declared_e2ee :: "database \<Rightarrow> bool" where
  "declared_e2ee d \<longleftrightarrow> distinct (map v_user (vaults d)) \<and> (\<forall>v \<in> set (vaults d). has_user d (v_user v) \<and> vault_fits v)"

lemma users_table:
  "demands U (cells_of d) (core_ddl ! 0) \<and> demands U (cells_of d) (core_ddl ! 1) \<longleftrightarrow> wf_users U d"
  by (simp add: core_ddl_def list_all_column keys_of_tables live_rows wf_users_def)
    (auto simp: column_ok_def cells_defs option.case_eq_if)

lemma sessions_table: "demands U (cells_of d) (core_ddl ! 2) \<longleftrightarrow> wf_sessions d"
  by (simp add: core_ddl_def list_all_column keys_of_tables wf_sessions_def)
    (auto simp: column_ok_def cells_defs option.case_eq_if user_reference)

lemma tokens_table: "demands U (cells_of d) (core_ddl ! 4) \<longleftrightarrow> wf_tokens d"
  by (simp add: core_ddl_def list_all_column keys_of_tables wf_tokens_def)
    (auto simp: column_ok_def cells_defs option.case_eq_if user_reference)

lemma role_tables:
  "demands U (cells_of d) (core_ddl ! 6) \<and> demands U (cells_of d) (core_ddl ! 7) \<longleftrightarrow> wf_roles d"
  by (simp add: core_ddl_def list_all_column keys_of_tables key_of_memberships wf_roles_def)
    (force simp: column_ok_def cells_defs option.case_eq_if list_all_iff user_reference role_reference)

lemma attempts_table:
  "demands U (cells_of d) (core_ddl ! 8) \<longleftrightarrow>
     distinct (map (\<lambda>a. (a_scope a, a_key a)) (attempts d)) \<and> (\<forall>a \<in> set (attempts d). int4 (a_failures a))"
  by (simp add: core_ddl_def list_all_column keys_of_tables)
    (auto simp: column_ok_def cells_defs list_all_iff)

lemma vaults_table: "demands U (cells_of d) (e2ee_ddl ! 0) \<longleftrightarrow> declared_e2ee d"
  by (simp add: e2ee_ddl_def list_all_column keys_of_tables declared_e2ee_def)
    (auto simp: column_ok_def cells_defs option.case_eq_if passes_def vault_fits_def user_reference)

lemma indexes_free:
  "demands U tabs (core_ddl ! 3)" "demands U tabs (core_ddl ! 5)"
  by (simp_all add: core_ddl_def)

lemma zk_tables_empty: "meets U zk_ddl (cells_of d)" "meets U zk_hardening_ddl (cells_of d)"
  by (simp_all add: meets_def zk_ddl_def zk_hardening_ddl_def cells_of_def selected_def)

lemma core_meets:
  "meets U core_ddl tabs \<longleftrightarrow>
     (demands U tabs (core_ddl ! 0) \<and> demands U tabs (core_ddl ! 1)) \<and> demands U tabs (core_ddl ! 2)
     \<and> demands U tabs (core_ddl ! 3) \<and> demands U tabs (core_ddl ! 4) \<and> demands U tabs (core_ddl ! 5)
     \<and> (demands U tabs (core_ddl ! 6) \<and> demands U tabs (core_ddl ! 7)) \<and> demands U tabs (core_ddl ! 8)"
proof -
  have "length core_ddl = 9" by (simp add: core_ddl_def)
  then have "meets U core_ddl tabs \<longleftrightarrow> list_all (\<lambda>i. demands U tabs (core_ddl ! i)) [0..<9]"
    unfolding meets_def list_all_length by (auto simp: list_all_iff)
  also have "[0..<9] = [0, 1, 2, 3, 4, 5, 6, 7, 8]"
    by (simp add: upt_rec)
  finally show ?thesis by simp
qed

lemma meets_append [simp]: "meets U (ds @ es) tabs \<longleftrightarrow> meets U ds tabs \<and> meets U es tabs"
  by (simp add: meets_def)

lemma e2ee_meets: "meets U e2ee_ddl tabs \<longleftrightarrow> demands U tabs (e2ee_ddl ! 0)"
  by (simp add: meets_def e2ee_ddl_def)

lemma schema_declares:
  "meets U whole_schema (cells_of d) \<longleftrightarrow> declared_core U d \<and> declared_e2ee d"
proof -
  have "meets U whole_schema (cells_of d) \<longleftrightarrow> meets U core_ddl (cells_of d) \<and> meets U e2ee_ddl (cells_of d)"
    by (simp add: whole_schema_def migration_ddl_def zk_tables_empty)
  then show ?thesis
    unfolding core_meets users_table e2ee_meets vaults_table declared_core_def role_tables
    by (simp add: sessions_table tokens_table attempts_table indexes_free conj_assoc)
qed

text \<open>The model asks in two places for more: counters and versions are positive.\<close>

definition counts_up :: "database \<Rightarrow> bool" where
  "counts_up d \<longleftrightarrow> (\<forall>a \<in> set (attempts d). 1 \<le> a_failures a) \<and> (\<forall>v \<in> set (vaults d). 1 \<le> v_version v)"

lemma wf_iff_schema:
  "wf_db U d \<and> (\<forall>v \<in> set (vaults d). vault_fits v) \<longleftrightarrow> meets U whole_schema (cells_of d) \<and> counts_up d"
  unfolding schema_declares declared_core_def declared_e2ee_def wf_db_def wf_attempts_def wf_vaults_def counts_up_def
    vault_fits_def int4_def int4_max_def
  by fastforce

section \<open>Every schedule keeps the schema\<close>

definition vaults_fit :: "database \<Rightarrow> bool" where
  "vaults_fit d \<longleftrightarrow> (\<forall>v \<in> set (vaults d). vault_fits v)"

lemma put_vault_fits:
  assumes "wf_vaults d" and "vaults_fit d" and "put_vault_sql k s m i w r u n now uid d = Inr (v, d')"
  shows "vaults_fit d'"
proof -
  have over: "vault_fits (overwrite_vault (put_row k s m i w r x now) old)"
    if "vault_fits old" "v_version old < int4_max" "int4 m" "int4 i" for x old
    using that by (simp add: vault_fits_def overwrite_vault_def put_row_def int4_def int4_max_def)
  have new: "vault_fits (put_row k s m i w r x now)" if "int4 m" "int4 i" for x
    using that by (simp add: vault_fits_def put_row_def int4_def int4_max_def)
  have only: "old = old'" if "find (\<lambda>v. v_user v = u) (vaults d) = Some old'" "old \<in> set (vaults d)" "v_user old = u" for old old'
    using find_key_Some [of v_user "vaults d" old] that assms(1) by (simp add: wf_vaults_def)
  show ?thesis
    using assms(2,3) over new only
    by (auto simp: put_vault_sql_def vaults_fit_def Let_def set_update_where split: if_splits option.splits) force+
qed

lemma apply_op_fits:
  assumes "wf_db U d" and "vaults_fit d" and "apply_op U x now uid d = Some d'"
  shows "vaults_fit d'"
proof (cases x)
  case (Put_vault k s m i w r u n)
  with assms show ?thesis
    by (auto simp: tables_of_Some wf_db_def intro: put_vault_fits)
next
  case (Delete_vault u)
  with assms show ?thesis by (auto simp: delete_vault_sql_def vaults_fit_def)
qed (use assms in \<open>auto simp: tables_of_Some vaults_fit_def other_writes session_writes split: if_splits option.splits\<close>)

lemma schedule_fits:
  assumes "schedule U t d xs t' d'" and "wf_db U d" and "vaults_fit d"
  shows "vaults_fit d'"
proof -
  have "wf_db U d' \<and> vaults_fit d'"
    by (rule schedule_invariant [where ok = "\<lambda>x. True" and I = "\<lambda>t d. wf_db U d \<and> vaults_fit d", OF assms(1)])
      (use assms(2,3) in \<open>auto simp: list_all_iff intro: apply_op_wf apply_op_fits\<close>)
  then show ?thesis ..
qed

section \<open>Properties\<close>

text \<open>C17 No interleaving breaks the schema: from tables that satisfy everything the migration files
  declare - keys, the live-address index, foreign keys, checks, nullability, column ranges - and
  whose counters and versions are positive, any schedule of kal's statements and of the
  application's own account writes leads to tables that do; and these conditions are the
  invariant the model carries, no more and no less.\<close>

theorem schema_always_holds:
  assumes "schedule U t d xs t' d'" and "meets U whole_schema (cells_of d)" and "counts_up d"
  shows "meets U whole_schema (cells_of d') \<and> counts_up d'
    \<and> (wf_db U d' \<and> vaults_fit d' \<longleftrightarrow> meets U whole_schema (cells_of d') \<and> counts_up d')"
proof -
  have "wf_db U d" and "vaults_fit d"
    using wf_iff_schema [of U d] assms(2,3) by (simp_all add: vaults_fit_def)
  with assms(1) have "wf_db U d'" and "vaults_fit d'"
    by (blast intro: schedule_wf schedule_fits)+
  then show ?thesis
    using wf_iff_schema [of U d'] by (simp add: vaults_fit_def)
qed

theorem schema_always_holds_witness:
  "\<exists>d'. schedule sample_tables 0 sample_db [Insert_token [7] ''u1'' ''reset'' 60] 5 d'
     \<and> tokens d' \<noteq> [] \<and> meets sample_tables whole_schema (cells_of d')"
proof -
  let ?d = "sample_db\<lparr>tokens := [\<lparr>t_hash = [7], t_user = ''u1'', t_purpose = ''reset'', t_expires = 65,
     t_consumed = None, t_created = 5\<rparr>]\<rparr>"
  have "apply_op sample_tables (Insert_token [7] ''u1'' ''reset'' 60) 5 [] sample_db = Some ?d"
    by (simp add: insert_token_sql_def has_user_def)
  then have run: "schedule sample_tables 0 sample_db [Insert_token [7] ''u1'' ''reset'' 60] 5 ?d"
    by (rule schedule.act [rotated, OF _ schedule.wait]) simp_all
  have "meets sample_tables whole_schema (cells_of sample_db) \<and> counts_up sample_db"
    using wf_iff_schema [of sample_tables sample_db] sample_wf by simp
  then have "meets sample_tables whole_schema (cells_of ?d)"
    using schema_always_holds [OF run] by simp
  with run show ?thesis by (intro exI [of _ ?d]) simp
qed

text \<open>A write is refused for the schema's sake and for no other reason: on tables that satisfy
  the migration files, issuing a session, storing a new emailed token, granting a role and
  inserting an account fail with a violation exactly when the row they would have added breaks
  what the files declare (a role already granted and an address already live are conflicts the
  statements allow for, and not violations).\<close>

theorem violations_are_declared:
  assumes "meets U whole_schema (cells_of d)"
  shows "((\<exists>e. issue_sql hash user idle absolute ua ip now uid d = Inl e) \<longleftrightarrow>
      \<not> meets U whole_schema (cells_of (d\<lparr>sessions := sessions d @
          [\<lparr>s_id = uid, s_token = hash, s_user = user, s_created = now, s_last_seen = now,
            s_idle_exp = now + idle, s_exp = now + absolute, s_mfa = None, s_ua = ua, s_ip = ip, s_revoked = None\<rparr>]\<rparr>)))
    \<and> (\<not> list_ex (\<lambda>t. t_hash t = hash) (tokens d) \<longrightarrow>
      ((\<exists>e. insert_token_sql hash user purpose ttl now uid d = Inl e) \<longleftrightarrow>
        \<not> meets U whole_schema (cells_of (d\<lparr>tokens := tokens d @
          [\<lparr>t_hash = hash, t_user = user, t_purpose = purpose, t_expires = now + ttl, t_consumed = None, t_created = now\<rparr>]\<rparr>))))
    \<and> ((user, role) \<notin> set (user_roles d) \<longrightarrow>
      ((\<exists>e. grant_role_sql user role now uid d = Inl e) \<longleftrightarrow>
        \<not> meets U whole_schema (cells_of (d\<lparr>user_roles := user_roles d @ [(user, role)]\<rparr>))))
    \<and> (\<not> list_ex (\<lambda>u. live_user u \<and> email_key U u = pg_lower U email) (users d) \<longrightarrow>
      ((\<exists>e. insert_account U email stored now uid d = Inl e) \<longleftrightarrow>
        \<not> meets U whole_schema (cells_of (d\<lparr>users := users d @
          [\<lparr>u_id = uid, u_email = email, u_hash = stored, u_verified = False, u_created = now, u_updated = now,
            u_deleted = None\<rparr>]\<rparr>))))"
proof -
  have d: "declared_core U d" "declared_e2ee d"
    using assms by (simp_all add: schema_declares)
  note parts = declared_core_def declared_e2ee_def wf_users_def wf_sessions_def wf_tokens_def wf_roles_def
  show ?thesis
  proof (intro conjI impI)
    show "(\<exists>e. issue_sql hash user idle absolute ua ip now uid d = Inl e) \<longleftrightarrow>
      \<not> meets U whole_schema (cells_of (d\<lparr>sessions := sessions d @
          [\<lparr>s_id = uid, s_token = hash, s_user = user, s_created = now, s_last_seen = now,
            s_idle_exp = now + idle, s_exp = now + absolute, s_mfa = None, s_ua = ua, s_ip = ip, s_revoked = None\<rparr>]\<rparr>))"
      using d by (auto simp: schema_declares parts issue_sql_def list_ex_iff has_user_def)
  qed (use d in \<open>auto simp: schema_declares parts insert_token_sql_def grant_role_sql_def insert_account_def
      list_ex_iff has_user_def email_key_def live_user_def image_iff\<close>)
qed

text \<open>A role nobody has defined cannot be granted, and its membership would dangle.\<close>

theorem violations_are_declared_witness:
  "(\<exists>e. grant_role_sql ''u1'' ''admin'' 5 [] sample_db = Inl e)
     \<and> \<not> meets sample_tables whole_schema (cells_of (sample_db\<lparr>user_roles := [(''u1'', ''admin'')]\<rparr>))"
proof -
  have ok: "meets sample_tables whole_schema (cells_of sample_db)"
    using wf_iff_schema [of sample_tables sample_db] sample_wf by simp
  have "grant_role_sql ''u1'' ''admin'' 5 [] sample_db = Inl foreign_key_violation"
    by (simp add: grant_role_sql_def)
  with violations_are_declared [OF ok, where user = "''u1''" and role = "''admin''" and now = 5 and uid = "[]"]
  show ?thesis by simp
qed

end
