(* ===== verification/Catalog.thy ===== *)
theory Catalog
  imports Migrate Ddl Set_Config
begin

text \<open>
  What Migrate and MigrateSchema do to a Postgres catalog: which relations exist in which schema,
  and the search path of the connection. Names in the files are unqualified, so where a table
  ends up is a matter of the path alone.
\<close>

section \<open>The catalog\<close>

record catalog =
  ct_schemas :: "string list"
  ct_relations :: "(string \<times> string) list"  \<comment> \<open>schema and name of a table or an index\<close>
  ct_checks :: "(string \<times> string \<times> string) list"  \<comment> \<open>schema, table and name of a named constraint\<close>
  ct_path :: "string list"  \<comment> \<open>the session's search path\<close>
  ct_local :: "string list option"  \<comment> \<open>the transaction's own, if it set one\<close>

text \<open>An unqualified name is created in the first schema of the path that exists, and is looked up
  in each of them in turn.\<close>

definition path_of :: "catalog \<Rightarrow> string list" where
  "path_of c = (case ct_local c of Some p \<Rightarrow> p | None \<Rightarrow> ct_path c)"

lemma path_of_update [simp]:
  "path_of (c\<lparr>ct_relations := r\<rparr>) = path_of c" "path_of (c\<lparr>ct_checks := k\<rparr>) = path_of c"
  by (simp_all add: path_of_def split: option.split)

definition current_schema :: "catalog \<Rightarrow> string option" where
  "current_schema c = find (\<lambda>s. s \<in> set (ct_schemas c)) (path_of c)"

definition located :: "catalog \<Rightarrow> string \<Rightarrow> string option" where
  "located c t = find (\<lambda>s. (s, t) \<in> set (ct_relations c)) (path_of c)"

definition no_schema :: goerr where "no_schema = Driver ''3F000''"
definition duplicate_table :: goerr where "duplicate_table = Driver ''42P07''"
definition undefined_table :: goerr where "undefined_table = Driver ''42P01''"
definition duplicate_object :: goerr where "duplicate_object = Driver ''42710''"

definition targets :: "column list \<Rightarrow> string list" where
  "targets cs = map (\<lambda>(t, k, a). t) (map the (filter (\<lambda>r. r \<noteq> None) (map c_references cs)))"

text \<open>The indexes behind keys get names that are free, and are left out.\<close>

definition add_index :: "string \<Rightarrow> string \<Rightarrow> catalog \<Rightarrow> goerr + catalog" where
  "add_index i t c = (case located c t of
     None \<Rightarrow> Inl undefined_table
   | Some s \<Rightarrow> if (s, i) \<in> set (ct_relations c) then Inl duplicate_table
               else Inr (c\<lparr>ct_relations := ct_relations c @ [(s, i)]\<rparr>))"

fun add_ddl :: "ddl \<Rightarrow> catalog \<Rightarrow> goerr + catalog" where
  "add_ddl (CreateTable t cs pk) c = (case current_schema c of
     None \<Rightarrow> Inl no_schema
   | Some s \<Rightarrow>
       if (s, t) \<in> set (ct_relations c) then Inl duplicate_table
       else if list_ex (\<lambda>x. x \<noteq> t \<and> located c x = None) (targets cs) then Inl undefined_table
       else Inr (c\<lparr>ct_relations := ct_relations c @ [(s, t)]\<rparr>))"
| "add_ddl (CreateIndex i t key pred) c = add_index i t c"
| "add_ddl (CreateUniqueIndex i t key pred) c = add_index i t c"
| "add_ddl (AddCheck t n e) c = (case located c t of
     None \<Rightarrow> Inl undefined_table
   | Some s \<Rightarrow> if (s, t, n) \<in> set (ct_checks c) then Inl duplicate_object
               else Inr (c\<lparr>ct_checks := ct_checks c @ [(s, t, n)]\<rparr>))"

fun add_script :: "ddl list \<Rightarrow> catalog \<Rightarrow> goerr + catalog" where
  "add_script [] c = Inr c"
| "add_script (d # ds) c = (case add_ddl d c of Inl e \<Rightarrow> Inl e | Inr c1 \<Rightarrow> add_script ds c1)"

section \<open>Executing a text\<close>

text \<open>
  What Postgres reads in the text of a statement that is not a query is a parameter, \<open>reads\<close>;
  a query is a select of settings, and is read by \<open>Set_Config\<close>. Several statements sent as one
  text are one transaction of their own: all take effect, or none. A setting that is local to
  the transaction ends with it. Paths of more than one plain name are left out.
\<close>

datatype sent = CreateSchema string | Script "ddl list" | Query | OtherText

definition set_path :: "setting \<Rightarrow> catalog \<Rightarrow> catalog" where
  "set_path x c =
     (if st_name x \<noteq> ''search_path'' then c
      else if st_local x then c\<lparr>ct_local := Some [st_value x]\<rparr>
      else c\<lparr>ct_path := [st_value x], ct_local := None\<rparr>)"

definition pg_exec :: "(string \<Rightarrow> sent) \<Rightarrow> string \<Rightarrow> string list \<Rightarrow> (catalog, unit) action" where
  "pg_exec reads sql args = (\<lambda>c. case reads sql of
     CreateSchema s \<Rightarrow> (Inr (), if s \<in> set (ct_schemas c) then c else c\<lparr>ct_schemas := ct_schemas c @ [s]\<rparr>)
   | Script ds \<Rightarrow> (case add_script ds c of Inl e \<Rightarrow> (Inl e, c) | Inr c1 \<Rightarrow> (Inr (), c1))
   | Query \<Rightarrow> (case set_config_calls sql args of
        None \<Rightarrow> (Inl (Driver ''42601''), c)
      | Some made \<Rightarrow> if list_all (\<lambda>x. st_name x = ''search_path'' \<longrightarrow> ident_ok (st_value x)) made
          then (Inr (), fold set_path made c) else (Inl (Driver ''22023''), c))
   | OtherText \<Rightarrow> (Inl (Driver ''42601''), c))"

definition pg_transaction :: "(catalog, unit) action \<Rightarrow> (catalog, unit) action" where
  "pg_transaction m = (\<lambda>c. case m c of
     (Inl e, c1) \<Rightarrow> (Inl e, c)
   | (Inr u, c1) \<Rightarrow> (Inr u, c1\<lparr>ct_local := ct_local c\<rparr>))"

text \<open>
  Postgres reads the kinds of text as what they say, a schema name up to the 63 bytes at
  which it cuts identifiers, and the embedded files are the four.
\<close>

definition honours_postgres :: "(string \<Rightarrow> string) \<Rightarrow> (string \<Rightarrow> sent) \<Rightarrow> (string \<times> string) list \<Rightarrow> bool" where
  "honours_postgres append_ident reads fs \<longleftrightarrow>
     (\<forall>s. ident_ok s \<and> length s \<le> 63 \<longrightarrow> reads (create_schema_text append_ident s) = CreateSchema s)
     \<and> (\<forall>sql. has_prefix sql ''select '' \<longrightarrow> reads sql = Query)
     \<and> migration_files fs = map fst migration_ddl
     \<and> list_all (\<lambda>(n, ds). \<exists>sql. map_of fs n = Some sql \<and> reads sql = Script ds) migration_ddl"

section \<open>What a script needs and what it leaves\<close>

fun made :: "ddl \<Rightarrow> string list" where
  "made (CreateTable t cs pk) = [t]"
| "made (CreateIndex i t key pred) = [i]"
| "made (CreateUniqueIndex i t key pred) = [i]"
| "made (AddCheck t n e) = []"

fun checks_made :: "ddl \<Rightarrow> (string \<times> string) list" where
  "checks_made (AddCheck t n e) = [(t, n)]"
| "checks_made _ = []"

fun needs :: "ddl \<Rightarrow> string list" where
  "needs (CreateTable t cs pk) = filter (\<lambda>x. x \<noteq> t) (targets cs)"
| "needs (CreateIndex i t key pred) = [t]"
| "needs (CreateUniqueIndex i t key pred) = [t]"
| "needs (AddCheck t n e) = [t]"

text \<open>Every statement finds what it needs among what was made before it.\<close>

fun ordered :: "string list \<Rightarrow> ddl list \<Rightarrow> bool" where
  "ordered seen [] \<longleftrightarrow> True"
| "ordered seen (d # ds) \<longleftrightarrow> list_all (\<lambda>x. x \<in> set seen) (needs d) \<and> ordered (seen @ made d) ds"

definition all_made :: "ddl list \<Rightarrow> string list" where
  "all_made ds = concat (map made ds)"

definition all_checks :: "ddl list \<Rightarrow> (string \<times> string) list" where
  "all_checks ds = concat (map checks_made ds)"

lemma add_ddl_alone:
  assumes "path_of c = [s]" and "s \<in> set (ct_schemas c)"
    and "list_all (\<lambda>x. (s, x) \<in> set (ct_relations c)) (needs d)"
    and "list_all (\<lambda>x. (s, x) \<notin> set (ct_relations c)) (made d)"
    and "list_all (\<lambda>x. (s, x) \<notin> set (ct_checks c)) (checks_made d)"
  shows "add_ddl d c = Inr (c\<lparr>ct_relations := ct_relations c @ map (Pair s) (made d),
      ct_checks := ct_checks c @ map (Pair s) (checks_made d)\<rparr>)"
  using assms
  by (cases d) (auto simp: current_schema_def located_def add_index_def list_all_iff list_ex_iff)

lemma add_script_alone:
  assumes "path_of c = [s]" and "s \<in> set (ct_schemas c)" and "ordered seen ds"
    and "\<And>x. x \<in> set seen \<Longrightarrow> (s, x) \<in> set (ct_relations c)"
    and "\<And>x. x \<in> set (all_made ds) \<Longrightarrow> (s, x) \<notin> set (ct_relations c)"
    and "\<And>x. x \<in> set (all_checks ds) \<Longrightarrow> (s, x) \<notin> set (ct_checks c)"
    and "distinct (all_made ds)" and "distinct (all_checks ds)"
  shows "add_script ds c = Inr (c\<lparr>ct_relations := ct_relations c @ map (Pair s) (all_made ds),
      ct_checks := ct_checks c @ map (Pair s) (all_checks ds)\<rparr>)"
  using assms
proof (induction ds arbitrary: c seen)
  case Nil
  then show ?case by (simp add: all_made_def all_checks_def)
next
  case (Cons d ds)
  let ?c = "c\<lparr>ct_relations := ct_relations c @ map (Pair s) (made d), ct_checks := ct_checks c @ map (Pair s) (checks_made d)\<rparr>"
  have step: "add_ddl d c = Inr ?c"
    using Cons.prems by (intro add_ddl_alone) (auto simp: list_all_iff all_made_def all_checks_def)
  have "add_script ds ?c = Inr (?c\<lparr>ct_relations := ct_relations ?c @ map (Pair s) (all_made ds),
      ct_checks := ct_checks ?c @ map (Pair s) (all_checks ds)\<rparr>)"
    using Cons.prems
    by (intro Cons.IH [where seen = "seen @ made d"]) (auto simp: all_made_def all_checks_def)
  with step show ?case by (simp add: all_made_def all_checks_def)
qed

text \<open>Conversely, a script that went through found every name free.\<close>

definition occupied :: "string \<Rightarrow> ddl list \<Rightarrow> catalog \<Rightarrow> bool" where
  "occupied s ds c \<longleftrightarrow> (\<exists>x \<in> set (all_made ds). (s, x) \<in> set (ct_relations c))
     \<or> (\<exists>x \<in> set (all_checks ds). (s, x) \<in> set (ct_checks c))"

lemma add_ddl_Inr:
  assumes "path_of c = [s]" and "add_ddl d c = Inr c1"
  shows "\<not> occupied s [d] c \<and> path_of c1 = [s]
    \<and> set (ct_relations c) \<subseteq> set (ct_relations c1) \<and> set (ct_checks c) \<subseteq> set (ct_checks c1)"
  using assms
  by (cases d) (auto simp: occupied_def all_made_def all_checks_def current_schema_def located_def add_index_def
      split: option.splits if_splits)

lemma add_script_Inr: "path_of c = [s] \<Longrightarrow> add_script ds c = Inr c' \<Longrightarrow> \<not> occupied s ds c"
proof (induction ds arbitrary: c)
  case (Cons d ds)
  then obtain c1 where d: "add_ddl d c = Inr c1" and ds: "add_script ds c1 = Inr c'"
    by (auto split: sum.splits)
  from add_ddl_Inr [OF Cons.prems(1) d] Cons.IH [OF _ ds]
  show ?case by (auto simp: occupied_def all_made_def all_checks_def)
qed (simp add: occupied_def all_made_def all_checks_def)

lemma add_script_append:
  "add_script (ds @ es) c = (case add_script ds c of Inl e \<Rightarrow> Inl e | Inr c1 \<Rightarrow> add_script es c1)"
  by (induction ds arbitrary: c) (auto split: sum.split)

text \<open>Files run one by one come to what their statements come to in a row.\<close>

lemma apply_scripts:
  assumes "list_all (\<lambda>(n, ds). \<exists>sql. rd n = Inr sql \<and> reads sql = Script ds) files"
  shows "case add_script (concat (map snd files)) c of
      Inr c' \<Rightarrow> apply_files rd (\<lambda>sql. pg_exec reads sql []) (map fst files) c = (Inr (), c')
    | Inl e \<Rightarrow> \<exists>e' c'. apply_files rd (\<lambda>sql. pg_exec reads sql []) (map fst files) c = (Inl e', c')"
  using assms
proof (induction files arbitrary: c)
  case (Cons f files)
  obtain n ds sql where f: "f = (n, ds)" and sql: "rd n = Inr sql" "reads sql = Script ds"
    using Cons.prems by (cases f) auto
  show ?case
  proof (cases "add_script ds c")
    case (Inl e)
    then show ?thesis by (simp add: f sql add_script_append wrapping_def pg_exec_def)
  next
    case (Inr c1)
    have "list_all (\<lambda>(n, ds). \<exists>sql. rd n = Inr sql \<and> reads sql = Script ds) files"
      using Cons.prems by simp
    from Cons.IH [OF this, of c1] Inr show ?thesis
      by (simp add: f sql add_script_append wrapping_def pg_exec_def split: sum.splits)
  qed
qed simp

section \<open>The schema of the files\<close>

lemma whole_schema_ordered: "ordered [] whole_schema"
  by (simp add: whole_schema_def migration_ddl_def core_ddl_def zk_ddl_def e2ee_ddl_def zk_hardening_ddl_def targets_def)

lemma whole_schema_names: "distinct (all_made whole_schema)" "distinct (all_checks whole_schema)"
  by (simp_all add: whole_schema_def migration_ddl_def core_ddl_def zk_ddl_def e2ee_ddl_def zk_hardening_ddl_def
      all_made_def all_checks_def)

definition tables_made :: "ddl list \<Rightarrow> string list" where
  "tables_made ds = concat (map (\<lambda>d. case d of CreateTable t cs pk \<Rightarrow> [t] | _ \<Rightarrow> []) ds)"

lemma migration_tables_made: "migration_tables = tables_made whole_schema"
  by (simp add: tables_made_def whole_schema_def migration_ddl_def core_ddl_def zk_ddl_def e2ee_ddl_def
      zk_hardening_ddl_def migration_tables_def)

section \<open>MigrateSchema\<close>

text \<open>The state in which the files run: the schema is there and is the whole path.\<close>

definition entered :: "string \<Rightarrow> catalog \<Rightarrow> catalog" where
  "entered schema c = (if schema \<in> set (ct_schemas c) then c
     else c\<lparr>ct_schemas := ct_schemas c @ [schema]\<rparr>)\<lparr>ct_local := Some [schema]\<rparr>"

lemma entered_simps [simp]:
  "path_of (entered schema c) = [schema]" "ct_path (entered schema c) = ct_path c" "schema \<in> set (ct_schemas (entered schema c))"
  "ct_relations (entered schema c) = ct_relations c" "ct_checks (entered schema c) = ct_checks c"
  "occupied schema ds (entered schema c) \<longleftrightarrow> occupied schema ds c"
  by (simp_all add: entered_def occupied_def path_of_def)

definition provisioned :: "string \<Rightarrow> catalog \<Rightarrow> catalog" where
  "provisioned schema c =
     c\<lparr>ct_schemas := (if schema \<in> set (ct_schemas c) then ct_schemas c else ct_schemas c @ [schema]),
       ct_relations := ct_relations c @ map (Pair schema) (all_made whole_schema),
       ct_checks := ct_checks c @ map (Pair schema) (all_checks whole_schema)\<rparr>"

lemma provisioned_occupied: "occupied schema whole_schema (provisioned schema c)"
  by (auto simp: occupied_def provisioned_def all_made_def whole_schema_def migration_ddl_def core_ddl_def)

lemma search_path_call:
  "set_config_calls set_search_path [v] = Some [\<lparr>st_name = ''search_path'', st_value = v, st_local = True\<rparr>]"
proof -
  have sent: "set_search_path
      = ''select '' @ ''set_config('' @ [sql_quote] @ ''search_path'' @ [sql_quote] @ '', ?, true)'' @ []"
    by (simp add: set_search_path_def sql_quote_def)
  show ?thesis
    unfolding sent set_config_calls_def cut_prefix_append option.case
    by (rule scan_calls_last, rule scan_call_named) (simp add: sql_quote_def)
qed

lemma migrate_schema_run:
  assumes "honours_postgres append_ident reads fs" and "ident_ok schema" and "length schema \<le> 63"
  shows "case add_script whole_schema (entered schema c) of
      Inr c1 \<Rightarrow> migrate_schema append_ident pg_transaction fs (pg_exec reads) schema c = (Inr (), c1\<lparr>ct_local := ct_local c\<rparr>)
    | Inl e \<Rightarrow> \<exists>e'. migrate_schema append_ident pg_transaction fs (pg_exec reads) schema c = (Inl e', c)"
proof -
  have reads: "reads set_search_path = Query" "reads (create_schema_text append_ident schema) = CreateSchema schema"
    and files: "migration_files fs = map fst migration_ddl"
    and texts: "list_all (\<lambda>(n, ds). \<exists>sql. read_file fs n = Inr sql \<and> reads sql = Script ds) migration_ddl"
    using assms by (auto simp: honours_postgres_def read_file_def list_all_iff set_search_path_def has_prefix_iff
        split: option.split)
  have "migrate_schema append_ident pg_transaction fs (pg_exec reads) schema c
      = pg_transaction (\<lambda>c. migrate fs (\<lambda>sql. pg_exec reads sql []) (entered schema c)) c"
    using assms(2) reads
    by (simp add: migrate_schema_def wrapping_def pg_exec_def pg_transaction_def entered_def search_path_call set_path_def)
  then show ?thesis
    using apply_scripts [OF texts, of "entered schema c"]
    by (auto simp: migrate_def files whole_schema_def pg_transaction_def split: sum.splits)
qed

lemma migrate_schema_free:
  assumes "honours_postgres append_ident reads fs" and "ident_ok schema" and "length schema \<le> 63"
    and "\<not> occupied schema whole_schema c"
  shows "migrate_schema append_ident pg_transaction fs (pg_exec reads) schema c = (Inr (), provisioned schema c)"
proof -
  have "add_script whole_schema (entered schema c) =
      Inr ((entered schema c)\<lparr>ct_relations := ct_relations c @ map (Pair schema) (all_made whole_schema),
        ct_checks := ct_checks c @ map (Pair schema) (all_checks whole_schema)\<rparr>)"
    using add_script_alone [of "entered schema c" schema "[]" whole_schema] assms(4) whole_schema_ordered whole_schema_names
    by (auto simp: occupied_def)
  with migrate_schema_run [OF assms(1-3), of c] show ?thesis
    by (simp add: provisioned_def entered_def split: if_splits)
qed

lemma migrate_schema_taken:
  assumes "honours_postgres append_ident reads fs" and "length schema \<le> 63" and "occupied schema whole_schema c"
  shows "\<exists>e. migrate_schema append_ident pg_transaction fs (pg_exec reads) schema c = (Inl e, c)"
proof (cases "ident_ok schema")
  case True
  with migrate_schema_run [OF assms(1) True assms(2), of c] add_script_Inr [of "entered schema c" schema whole_schema] assms(3)
  show ?thesis by (cases "add_script whole_schema (entered schema c)") auto
qed (simp add: migrate_schema_def)

section \<open>Property\<close>


text \<open>A reader of texts and files that go with it: every file is its own name, say.\<close>

definition sample_reads :: "string \<Rightarrow> sent" where
  "sample_reads sql =
     (if has_prefix sql ''select '' then Query
      else case map_of migration_ddl sql of
        Some ds \<Rightarrow> Script ds
      | None \<Rightarrow> if has_prefix sql ''create schema if not exists '' then CreateSchema (drop 28 sql) else OtherText)"

lemma sample_honours: "honours_postgres id sample_reads (map (\<lambda>(n, ds). (n, n)) migration_ddl)"
  by (simp add: honours_postgres_def sample_reads_def create_schema_text_def migration_ddl_def migration_files_def)

definition sample_catalog :: catalog where
  "sample_catalog = \<lparr>ct_schemas = [''public'', ''a''], ct_relations = [(''a'', ''auth_users'')], ct_checks = [],
     ct_path = [''public''], ct_local = None\<rparr>"


end
