(* ===== verification/Hash_Slots.thy ===== *)
theory Hash_Slots
  imports Account_Facts
begin

text \<open>
  The bound on concurrent hashing. Each run of a flow leaves a word: what it did with the slots
  and when it computed a hash. Every such word keeps its hashes between a slot taken and that slot
  given back; any number of words, interleaved under a semaphore, then never have more hashes
  computing than slots, and none of them waits for ever.
\<close>

section \<open>The words of the flows\<close>

text \<open>\<open>bracketed held es\<close>: the rest \<open>es\<close> of a run that now holds a slot, or does not.\<close>

fun bracketed :: "bool \<Rightarrow> slot_event list \<Rightarrow> bool" where
  "bracketed held [] \<longleftrightarrow> \<not> held"
| "bracketed held (Slot_taken # es) \<longleftrightarrow> \<not> held \<and> bracketed True es"
| "bracketed held (Slot_refused # es) \<longleftrightarrow> \<not> held \<and> bracketed False es"
| "bracketed held (Hash_computed # es) \<longleftrightarrow> held \<and> bracketed True es"
| "bracketed held (Slot_given # es) \<longleftrightarrow> held \<and> bracketed False es"

lemma bracketed_append: "bracketed h es \<Longrightarrow> bracketed False fs \<Longrightarrow> bracketed h (es @ fs)"
  by (induction h es rule: bracketed.induct) auto

lemma bracketed_block: "bracketed True (replicate n Hash_computed @ [Slot_given])"
  by (induction n) simp_all

definition in_brackets :: "env \<Rightarrow> world \<Rightarrow> world \<Rightarrow> bool" where
  "in_brackets E w w' \<longleftrightarrow> (\<exists>es. slot_log w' = slot_log w @ es \<and> bracketed False es)"

interpretation brackets: guarantee in_brackets
proof
  show "in_brackets E w w" for E w
    by (simp add: in_brackets_def)
  show "in_brackets E w w2" if "in_brackets E w w1" "in_brackets E w1 w2" for E w w1 w2
    using that by (auto simp: in_brackets_def intro: bracketed_append)
qed

text \<open>What happens between the acquire and the release of one call: hashes, and nothing with slots.\<close>

definition only_hashes :: "env \<Rightarrow> world \<Rightarrow> world \<Rightarrow> bool" where
  "only_hashes E w w' \<longleftrightarrow> (\<exists>n. slot_log w' = slot_log w @ replicate n Hash_computed)"

interpretation hashes: guarantee only_hashes
proof
  show "only_hashes E w w" for E w
    by (auto simp: only_hashes_def intro: exI [of _ 0])
  show "only_hashes E w w2" if "only_hashes E w w1" "only_hashes E w1 w2" for E w w1 w2
    using that by (auto simp: only_hashes_def simp flip: replicate_add)
qed

lemma hashes_effects [guar]:
  "keeps only_hashes E count_hash" "keeps only_hashes E (rand_read n)"
  by (auto simp: keeps_def only_hashes_def count_hash_def rand_read_def intro: exI [of _ 0] exI [of _ "Suc 0"])

lemma brackets_effects [guar]:
  "keeps in_brackets E (exec st)" "keeps in_brackets E (emit hook e)" "keeps in_brackets E (send_mail to msg)"
  "keeps in_brackets E (rand_read n)" "keeps in_brackets E (add_cookie c)" "keeps in_brackets E (log_printf l)"
  by (auto simp: keeps_def in_brackets_def log_printf_def exec_def emit_def send_mail_def rand_read_def
      add_cookie_def split: sum.split)

lemma brackets_within_bound:
  assumes "keeps only_hashes E m"
  shows "keeps in_brackets E (within_bound H m)"
proof (rule keepsI)
  fix w r w'
  assume run: "within_bound H m E w = (r, w')"
  show "in_brackets E w w'"
  proof (cases "busy H E w")
    case True
    with run show ?thesis by (auto simp: within_bound_eq in_brackets_def)
  next
    case False
    with run obtain w1 where m: "m E (took_slot w) = (r, w1)" and w': "w' = gave_slot w1"
      by (auto simp: within_bound_eq split: prod.splits)
    obtain n where "slot_log w1 = slot_log w @ Slot_taken # replicate n Hash_computed"
      using keepsD [OF assms m] by (auto simp: only_hashes_def)
    then show ?thesis
      by (auto simp: in_brackets_def w' bracketed_block)
  qed
qed

lemma brackets_hashing [guar]:
  "keeps in_brackets E (hash_password H pw)" "keeps in_brackets E (verify H pw enc)"
  "keeps in_brackets E (verify_dummy H pw)"
proof -
  have stored: "keeps only_hashes E (verify_stored H pw enc)" for enc
    unfolding verify_stored_def id_key_def Let_def by (intro hashes.keeps_rules guar)
  then show "keeps in_brackets E (verify H pw enc)" for enc
    unfolding verify_def by (rule brackets_within_bound)
  then show "keeps in_brackets E (verify_dummy H pw)"
    unfolding verify_dummy_def by (intro brackets.keeps_rules)
  show "keeps in_brackets E (hash_password H pw)"
    unfolding hash_password_def hash_bytes_def id_key_def
    by (intro brackets_within_bound hashes.keeps_rules guar)
qed

lemma brackets_sessions [guar]:
  "keeps in_brackets E (issue S user mt)" "keeps in_brackets E (lookup S token)" "keeps in_brackets E (rotate S sid)"
  "keeps in_brackets E (revoke S sid)" "keeps in_brackets E (revoke_all_for_user S user)"
  "keeps in_brackets E (set_cookie c k)" "keeps in_brackets E new_token"
  unfolding session_ops set_cookie_def Let_def by (intro brackets.keeps_rules guar)+

lemma brackets_accounts [guar]:
  "keeps in_brackets E (login A c email pw)" "keeps in_brackets E (logout A c)"
  "keeps in_brackets E (change_password A c pw nxt)"
  unfolding login_parts logout_def change_password_def swap_password_def account_helpers Let_def
  by (intro brackets.keeps_rules guar)+

lemma brackets_tokens [guar]:
  "keeps in_brackets E (register A email pw)" "keeps in_brackets E (request_password_reset A email)"
  "keeps in_brackets E (reset_password A token pw)" "keeps in_brackets E (verify_email token)"
  "keeps in_brackets E (invite A email)" "keeps in_brackets E (accept_invite A token pw)"
  unfolding token_flows account_helpers Let_def by (intro brackets.keeps_rules guar)+

text \<open>The word of one run of one flow of a service, or of a call of its hasher.\<close>

definition slot_word :: "'a prog \<Rightarrow> env \<Rightarrow> world \<Rightarrow> slot_event list" where
  "slot_word m E w = drop (length (slot_log w)) (slot_log (snd (m E w)))"

definition flow_words :: "accounts \<Rightarrow> slot_event list set" where
  "flow_words A = {es. \<exists>E w c email pw nxt token enc.
     es \<in> {slot_word (login A c email pw) E w, slot_word (logout A c) E w,
       slot_word (change_password A c pw nxt) E w, slot_word (register A email pw) E w,
       slot_word (request_password_reset A email) E w, slot_word (reset_password A token pw) E w,
       slot_word (verify_email token) E w, slot_word (invite A email) E w,
       slot_word (accept_invite A token pw) E w, slot_word (hash_password (ac_hasher A) pw) E w,
       slot_word (verify (ac_hasher A) pw enc) E w, slot_word (verify_dummy (ac_hasher A) pw) E w}}"

lemma word_bracketed: "keeps in_brackets E m \<Longrightarrow> bracketed False (slot_word m E w)"
  by (auto simp: keeps_def in_brackets_def slot_word_def dest!: spec [of _ w])

lemma flow_words_bracketed: "es \<in> flow_words A \<Longrightarrow> bracketed False es"
  unfolding flow_words_def by (auto intro!: word_bracketed guar)

section \<open>Many runs beside each other\<close>

text \<open>
  The words still ahead of each run, and the number of slots out. A run whose next event is to
  take a slot waits while none is free; giving up at its deadline is an event of its own. The
  semaphore is first come, first served; here whoever waits may be next.
\<close>

type_synonym slot_state = "nat \<times> slot_event list list"

inductive slot_step :: "nat \<Rightarrow> slot_state \<Rightarrow> slot_state \<Rightarrow> bool" for limit where
  takes: "i < length ps \<Longrightarrow> ps ! i = Slot_taken # es \<Longrightarrow> out < limit
    \<Longrightarrow> slot_step limit (out, ps) (Suc out, ps[i := es])"
| gives_up: "i < length ps \<Longrightarrow> ps ! i = Slot_refused # es \<Longrightarrow> slot_step limit (out, ps) (out, ps[i := es])"
| hashes: "i < length ps \<Longrightarrow> ps ! i = Hash_computed # es \<Longrightarrow> slot_step limit (out, ps) (out, ps[i := es])"
| gives: "i < length ps \<Longrightarrow> ps ! i = Slot_given # es \<Longrightarrow> slot_step limit (out, ps) (out - 1, ps[i := es])"

inductive_cases slot_stepE: "slot_step limit (out, ps) s"

definition computing :: "slot_event list \<Rightarrow> bool" where
  "computing p \<longleftrightarrow> take 1 p = [Hash_computed]"

text \<open>A run is inside its brackets exactly when its next event says so.\<close>

definition holds :: "slot_event list \<Rightarrow> bool" where
  "holds p \<longleftrightarrow> computing p \<or> take 1 p = [Slot_given]"

definition holders :: "slot_event list list \<Rightarrow> nat" where
  "holders ps = length (filter holds ps)"

lemma holds_simps [simp]:
  "\<not> holds []" "holds (e # es) \<longleftrightarrow> e = Hash_computed \<or> e = Slot_given"
  by (auto simp: holds_def computing_def)

lemma bracketed_holds: "bracketed h p \<Longrightarrow> h = holds p"
  by (cases "(h, p)" rule: bracketed.cases) auto

lemma holders_update:
  assumes "i < length ps"
  shows "holders (ps[i := p]) + (if holds (ps ! i) then 1 else 0) = holders ps + (if holds p then 1 else 0)"
  using assms
proof (induction ps arbitrary: i)
  case (Cons q ps)
  then show ?case by (cases i) (auto simp: holders_def)
qed simp

definition slots_ok :: "nat \<Rightarrow> slot_state \<Rightarrow> bool" where
  "slots_ok limit s \<longleftrightarrow> fst s = holders (snd s) \<and> fst s \<le> limit \<and> (\<forall>p \<in> set (snd s). bracketed (holds p) p)"

text \<open>One event of one run, before and after.\<close>

lemma event_ok:
  assumes "slots_ok limit (out, ps)" and "i < length ps" and "ps ! i = e # es"
  shows "bracketed (holds es) es" and "holds es \<longleftrightarrow> e = Slot_taken \<or> e = Hash_computed"
    and "\<forall>p \<in> set (ps[i := es]). bracketed (holds p) p"
    and "holders (ps[i := es]) + (if holds (e # es) then 1 else 0) = out + (if holds es then 1 else 0)"
proof -
  have "bracketed (holds (e # es)) (e # es)"
    using assms nth_mem [of i ps] by (simp add: slots_ok_def del: holds_simps)
  then have rest: "bracketed (e = Slot_taken \<or> e = Hash_computed) es"
    by (cases e) simp_all
  then show next_holds: "holds es \<longleftrightarrow> e = Slot_taken \<or> e = Hash_computed"
    using bracketed_holds by blast
  with rest show es: "bracketed (holds es) es" by simp
  show "\<forall>p \<in> set (ps[i := es]). bracketed (holds p) p"
    using es assms(1) set_update_subset_insert [of ps i es] by (auto simp: slots_ok_def)
  show "holders (ps[i := es]) + (if holds (e # es) then 1 else 0) = out + (if holds es then 1 else 0)"
    using holders_update [OF assms(2), of es] assms(1,3) by (simp add: slots_ok_def)
qed

lemma slot_step_ok: "slot_step limit s s' \<Longrightarrow> slots_ok limit s \<Longrightarrow> slots_ok limit s'"
proof (induction rule: slot_step.induct)
  case (takes i ps es out)
  from event_ok [OF takes(4,1,2)] takes(3) show ?case by (simp add: slots_ok_def)
next
  case (gives_up i ps es out)
  from event_ok [OF gives_up(3,1,2)] gives_up(3) show ?case by (simp add: slots_ok_def)
next
  case (hashes i ps es out)
  from event_ok [OF hashes(3,1,2)] hashes(3) show ?case by (simp add: slots_ok_def)
next
  case (gives i ps es out)
  from event_ok [OF gives(3,1,2)] gives(3) show ?case by (auto simp: slots_ok_def)
qed

lemma slot_steps_ok: "(slot_step limit)\<^sup>*\<^sup>* s s' \<Longrightarrow> slots_ok limit s \<Longrightarrow> slots_ok limit s'"
  by (induction rule: rtranclp_induct) (auto intro: slot_step_ok)

text \<open>Somebody can always go on: a holder, or, when there is none, anybody.\<close>

lemma slot_progress:
  assumes "slots_ok limit (out, ps)" and "0 < limit" and "p \<in> set ps" and "p \<noteq> []"
  shows "\<exists>s. slot_step limit (out, ps) s"
proof (cases "\<exists>q \<in> set ps. holds q")
  case True
  then obtain i where i: "i < length ps" "holds (ps ! i)"
    by (auto simp: in_set_conv_nth)
  then obtain e es where e: "ps ! i = e # es" by (cases "ps ! i") auto
  with i show ?thesis
    by (auto intro: slot_step.hashes slot_step.gives)
next
  case False
  then have none: "out = 0"
    using assms(1) by (auto simp: slots_ok_def holders_def filter_empty_conv)
  obtain i e es where i: "i < length ps" "ps ! i = e # es"
    using assms(3,4) by (metis in_set_conv_nth neq_Nil_conv)
  then have "\<not> holds (e # es)" using False by (metis nth_mem)
  with i none assms(2) show ?thesis
    by (cases e) (auto intro: slot_step.takes slot_step.gives_up)
qed

lemma shorter:
  assumes "i < length ps" and "ps ! i = e # es"
  shows "sum_list (map length ps) = Suc (sum_list (map length (ps[i := es])))"
  using assms
proof (induction ps arbitrary: i)
  case (Cons p ps)
  then show ?case by (cases i) auto
qed simp

lemma slot_step_shorter:
  "slot_step limit s s' \<Longrightarrow> sum_list (map length (snd s)) = Suc (sum_list (map length (snd s')))"
  by (induction rule: slot_step.induct) (simp_all add: shorter)

lemma slot_step_length: "slot_step limit s s' \<Longrightarrow> length (snd s') = length (snd s)"
  by (induction rule: slot_step.induct) simp_all

lemma all_finish:
  assumes "slots_ok limit s" and "0 < limit"
  shows "(slot_step limit)\<^sup>*\<^sup>* s (0, replicate (length (snd s)) [])"
  using assms(1)
proof (induction "sum_list (map length (snd s))" arbitrary: s rule: less_induct)
  case less
  obtain out ps where s: "s = (out, ps)" by fastforce
  show ?case
  proof (cases "\<forall>p \<in> set ps. p = []")
    case True
    then have "ps = replicate (length ps) []" by (metis replicate_eqI)
    moreover have "out = 0"
      using True less.prems by (auto simp: s slots_ok_def holders_def filter_empty_conv)
    ultimately show ?thesis by (simp add: s)
  next
    case False
    then obtain s' where step: "slot_step limit s s'"
      using slot_progress [OF _ assms(2)] less.prems unfolding s by blast
    have "(slot_step limit)\<^sup>*\<^sup>* s' (0, replicate (length (snd s')) [])"
      using slot_step_shorter [OF step] slot_step_ok [OF step less.prems] by (intro less.hyps) simp_all
    with step slot_step_length [OF step] show ?thesis
      by (metis converse_rtranclp_into_rtranclp)
  qed
qed

section \<open>Property\<close>

text \<open>C40 The bound holds under load: take any number of runs of the credential flows of one service
  and of calls of its hasher, in whatever worlds each of them runs, and let their slots and hashes
  interleave in any way a semaphore of the hasher's limit allows. Then at no moment are more hashes
  being computed than slots are out, nor more slots out than the limit; with a limit of at least
  one no run waits for ever, for all of them can finish; and when they have, every slot is back.\<close>

theorem slots_never_exceeded:
  assumes "set ps \<subseteq> flow_words A" and "(slot_step (h_limit (ac_hasher A)))\<^sup>*\<^sup>* (0, ps) (out, qs)"
  shows "length (filter computing qs) \<le> out \<and> out \<le> h_limit (ac_hasher A)
    \<and> (0 < h_limit (ac_hasher A) \<longrightarrow>
         (slot_step (h_limit (ac_hasher A)))\<^sup>*\<^sup>* (out, qs) (0, replicate (length ps) []))
    \<and> ((\<forall>q \<in> set qs. q = []) \<longrightarrow> out = 0)"
proof -
  let ?limit = "h_limit (ac_hasher A)"
  have start: "bracketed False p" if "p \<in> set ps" for p
    using assms(1) that flow_words_bracketed by blast
  then have "\<not> holds p" if "p \<in> set ps" for p
    using bracketed_holds that by blast
  with start have "slots_ok ?limit (0, ps)"
    by (auto simp: slots_ok_def holders_def filter_empty_conv)
  with assms(2) have ok: "slots_ok ?limit (out, qs)"
    by (rule slot_steps_ok)
  have "length (filter computing qs) \<le> holders qs"
    unfolding holders_def by (induction qs) (auto simp: holds_def)
  moreover have "length qs = length ps"
    using assms(2) by (induction rule: rtranclp_induct2) (auto dest: slot_step_length)
  ultimately show ?thesis
    using ok all_finish [OF ok] by (auto simp: slots_ok_def holders_def filter_empty_conv)
qed

text \<open>Two verifications against the dummy hash, both computing at once.\<close>

theorem slots_never_exceeded_witness:
  "\<exists>word qs. word \<in> flow_words sample_accounts \<and> (slot_step 4)\<^sup>*\<^sup>* (0, [word, word]) (2, qs)
     \<and> length (filter computing qs) = 2 \<and> (slot_step 4)\<^sup>*\<^sup>* (2, qs) (0, [[], []])"
proof -
  let ?dummy = "verify_dummy (ac_hasher sample_accounts) ''guess''"
  let ?word = "[Slot_taken, Hash_computed, Slot_given]" and ?rest = "[Hash_computed, Slot_given]"
  have "slot_word ?dummy sample_env (world_of sample_db) = ?word"
    by (simp add: slot_word_def verify_dummy_def verify_def within_bound_eq busy_def verify_stored_def tryM_def bindM_def
        count_hash_def with_env_def ret_def Let_def)
  then have word: "?word \<in> flow_words sample_accounts"
    unfolding flow_words_def by (simp, metis)
  have "slot_step 4 (0, [?word, ?word]) (1, [?rest, ?word])"
    using slot_step.takes [of 0 "[?word, ?word]" ?rest 0 4] by simp
  moreover have "slot_step 4 (1, [?rest, ?word]) (2, [?rest, ?rest])"
    using slot_step.takes [of 1 "[?rest, ?word]" ?rest 1 4] by (simp add: numeral_2_eq_2)
  ultimately have path: "(slot_step 4)\<^sup>*\<^sup>* (0, [?word, ?word]) (2, [?rest, ?rest])"
    by simp
  moreover have "length (filter computing [?rest, ?rest]) = 2"
    by (simp add: computing_def)
  moreover have "(slot_step 4)\<^sup>*\<^sup>* (2, [?rest, ?rest]) (0, [[], []])"
    using slots_never_exceeded [of "[?word, ?word]" sample_accounts 2 "[?rest, ?rest]"] path word
    by (simp add: numeral_2_eq_2)
  ultimately show ?thesis using word by blast
qed

end
