(* ===== verification/Login_Refused.thy ===== *)
theory Login_Refused
  imports Stored_Credentials
begin

text \<open>
  The refusals of Login, forwards: whoever is not let in, and for whatever reason, gets one and
  the same answer at one and the same price. It needs the stored hashes to be readable, which
  \<open>Stored_Credentials\<close> shows every flow to preserve.
\<close>

section \<open>The two refusing branches\<close>

lemma tryM_step: "m E w = (Inr a, w1) \<Longrightarrow> tryM m f E w = f a E w1"
  by (simp add: tryM_def bindM_def)

lemma refuse_run: "\<exists>w'. tryM (record_failure key ip) (\<lambda>_. tryM (emit hook ev) (\<lambda>_. fail x)) E w = (Inl x, w')"
  using refuse_tail [of key ip hook ev x E w] by (metis prod.collapse)

lemma login_nobody_refuses:
  assumes "argon2_ok E" and "verifiable E (h_dummy (ac_hasher A))" and "\<not> busy (ac_hasher A) E w"
  shows "\<exists>w'. login_nobody A email password ip E w = (Inl (invalid_credentials None), w')"
proof -
  obtain m r w1 where "verify (ac_hasher A) password (h_dummy (ac_hasher A)) E w = (Inr (m, r), w1)"
    using verify_progress [OF assms(2,1,3), of password] by (metis prod.collapse)
  then have "verify_dummy (ac_hasher A) password E w = (Inr (), w1)"
    by (simp add: verify_dummy_def tryM_def bindM_def ret_def)
  note step = tryM_step [where m = "verify_dummy (ac_hasher A) password" and E = E and w = w, OF this]
  show ?thesis
    unfolding login_nobody_def step by (rule refuse_run)
qed

lemma login_known_refuses:
  assumes "argon2_ok E" and "verifiable E stored" and "\<not> busy (ac_hasher A) E w"
    and "\<not> (matches E password stored \<and> (verified \<or> ac_allow_unverified A))"
  shows "\<exists>i w'. login_known A c email password prior user stored verified E w = (Inl (invalid_credentials i), w')"
proof -
  obtain m r w1 where v: "verify (ac_hasher A) password stored E w = (Inr (m, r), w1)"
    using verify_progress [OF assms(2,1,3), of password] by (metis prod.collapse)
  then have m: "m = matches E password stored"
    by (rule verify_Inr)
  note step = tryM_step [where m = "verify (ac_hasher A) password stored" and E = E and w = w, OF v]
  show ?thesis
  proof (cases m)
    case True
    with m assms(4) show ?thesis
      unfolding login_known_def Let_def step
      by (auto simp: tryM_def bindM_def emit_def fail_def)
  next
    case False
    then have "(\<not> m) = True" by simp
    then show ?thesis
      unfolding login_known_def Let_def step prod.case by (simp only: if_True) (intro exI [of _ None] refuse_run)
  qed
qed

section \<open>Property\<close>

text \<open>C23 Refused logins are alike: while statements and slots answer and no failure counter of the
  address or the IP is inside its delay, unless a live account with the address has a stored
  hash that matches the password and is verified or need not be (so for an unknown address, a
  deleted account, one without a password, a wrong password and an unverified address), Login
  fails, the client sees INVALID_CREDENTIALS with the message \<open>invalid email or password\<close>, exactly
  one password hash was computed, no cookie was set and no mail sent, and of the tables only the
  failure counters may have changed.\<close>

theorem login_failures_alike:
  assumes "quiet E" and "argon2_ok E" and "wf_db (unicode E) (db w)" and "credentials_ok E (db w)"
    and "verifiable E (h_dummy (ac_hasher A))" and "in_flight w < h_limit (ac_hasher A)"
    and closed: "\<And>a. a \<in> set (attempts (db w)) \<Longrightarrow>
      attempt_hit (normalise (unicode E) email) (mt_ip (meta_from_context c)) a \<Longrightarrow>
      delay_for (a_scope a) (a_failures a) \<le> db_clock E (step w) - a_last a"
    and refused: "\<nexists>u stored. u \<in> set (users (db w)) \<and> live_email (unicode E) (normalise (unicode E) email) u
      \<and> u_hash u = Some stored \<and> matches E password stored \<and> (u_verified u \<or> ac_allow_unverified A)"
  shows "\<exists>e w'. login A c email password E w = (Inl e, w')
    \<and> (\<forall>luima path. present_error luima path e
         = \<lparr>ge_message = ''invalid email or password'', ge_path = path, ge_code = Some ''INVALID_CREDENTIALS''\<rparr>)
    \<and> hash_runs w' = Suc (hash_runs w) \<and> jar w' = jar w \<and> outbox w' = outbox w
    \<and> db w' = (db w)\<lparr>attempts := attempts (db w')\<rparr>"
proof -
  let ?email = "normalise (unicode E) email" and ?ip = "mt_ip (meta_from_context c)"
  let ?select = "query_one (login_select_sql (unicode E) ?email)" and ?w = "tick (tick w)"
  have up: "\<And>n. \<not> db_fails E n"
    using assms(1) by (simp add: quiet_def)
  obtain prior where b: "check_backoff A ?email ?ip E w = (Inr prior, tick w)"
    using backoff_passes [OF up closed] .
  have free: "\<not> busy (ac_hasher A) E ?w"
    using assms(1,6) by (simp add: busy_def quiet_def)
  note nobody = login_nobody_refuses [OF assms(2,5) free, of ?email password ?ip]
  have "\<exists>i w'. login A c email password E w = (Inl (invalid_credentials i), w')"
  proof (cases "filter (live_email (unicode E) ?email) (users (db w))")
    case Nil
    then have "?select E (tick w) = (Inl NoRows, ?w)"
      using up by (simp add: query_one_def tryM_def bindM_def exec_def login_select_sql_def lift_def)
    with b nobody show ?thesis
      by (auto simp: login_def with_env_def Let_def tryM_def bindM_def)
  next
    case (Cons u us)
    then have u: "u \<in> set (users (db w))" "live_email (unicode E) ?email u"
      by (auto simp: filter_eq_Cons_iff)
    then have "filter (live_email (unicode E) ?email) (users (db w)) = [u]"
      using live_email_unique [OF _ u] assms(3) by (simp add: wf_db_def)
    then have q: "?select E (tick w) = (Inr (u_id u, coalesce_text (u_hash u), u_verified u), ?w)"
      using up by (simp add: query_one_def tryM_def bindM_def exec_def login_select_sql_def lift_def)
    show ?thesis
    proof (cases "coalesce_text (u_hash u) = []")
      case True
      with b q nobody show ?thesis
        by (auto simp: login_def with_env_def Let_def tryM_def bindM_def)
    next
      case False
      then obtain stored where stored: "u_hash u = Some stored" "coalesce_text (u_hash u) = stored"
        by (cases "u_hash u") (auto simp: coalesce_text_def)
      have "verifiable E stored"
        using assms(4) u(1) stored(1) by (auto simp: credentials_ok_def list_all_iff)
      moreover have "\<not> (matches E password stored \<and> (u_verified u \<or> ac_allow_unverified A))"
        using refused u stored(1) by blast
      ultimately show ?thesis
        using login_known_refuses [OF assms(2) _ free, of stored password "u_verified u" c ?email prior "u_id u"] b q stored(2) False
        by (auto simp: login_def with_env_def Let_def tryM_def bindM_def)
    qed
  qed
  then obtain i w' where run: "login A c email password E w = (Inl (invalid_credentials i), w')"
    by blast
  from login_blame [OF this] have "counted E (hashed_once 1 w) w'"
    by (auto simp: blames_def invalid_credentials_def)
  with run show ?thesis
    by (intro exI [of _ "invalid_credentials i"] exI [of _ w'])
      (auto simp: counted_def invalid_credentials_def present_error_def code_defs)
qed

text \<open>The four cases, one by one.\<close>

definition refusal_db :: database where
  "refusal_db = empty_db\<lparr>users := [sample_user,
     sample_user\<lparr>u_id := ''u2'', u_email := ''n@x.io'', u_hash := None\<rparr>,
     sample_user\<lparr>u_id := ''u3'', u_email := ''f@x.io'', u_verified := False\<rparr>]\<rparr>"

lemma refusal_db_simps [simp]:
  "users refusal_db = [sample_user, sample_user\<lparr>u_id := ''u2'', u_email := ''n@x.io'', u_hash := None\<rparr>,
     sample_user\<lparr>u_id := ''u3'', u_email := ''f@x.io'', u_verified := False\<rparr>]"
  "attempts refusal_db = []"
  by (simp_all add: refusal_db_def empty_db_def)

lemma refusal_wf: "wf_db U refusal_db"
  by (simp add: wf_db_def wf_defs refusal_db_def empty_db_def email_key_def pg_lower_def is_ascii_def ascii_char_def
      lower_char_def live_user_def sample_user_def)

lemma refusal_normalised: "normalise U ''n@x.io'' = ''n@x.io''" "normalise U ''f@x.io'' = ''f@x.io''"
  by (simp_all add: normalise_def to_lower_def trim_space_def trim_left.simps trim_right.simps
      space_len_def space_suffix_def is_ascii_def ascii_char_def lower_char_def ascii_space_def)

definition refused_alike :: "string \<Rightarrow> string \<Rightarrow> bool" where
  "refused_alike email password = (case login sample_accounts background email password sample_env (world_of refusal_db) of
     (Inr p, w') \<Rightarrow> False
   | (Inl e, w') \<Rightarrow> present_error (\<lambda>p e. \<lparr>ge_message = [], ge_path = p, ge_code = None\<rparr>) [] e
         = \<lparr>ge_message = ''invalid email or password'', ge_path = [], ge_code = Some ''INVALID_CREDENTIALS''\<rparr>
       \<and> hash_runs w' = 1 \<and> jar w' = [])"

theorem login_failures_alike_witness:
  "refused_alike ''a@x.io'' ''guess'' \<and> refused_alike ''b@x.io'' ''pass''
     \<and> refused_alike ''n@x.io'' ''pass'' \<and> refused_alike ''f@x.io'' ''pass''"
proof -
  let ?w = "world_of refusal_db" and ?U = "unicode sample_env"
  have q: "quiet sample_env"
    by (simp add: quiet_def sample_clock_mono)
  have wf: "wf_db ?U (db ?w)" and typed: "credentials_ok sample_env (db ?w)"
    by (simp_all add: refusal_wf credentials_ok_def verifiable_def)
  have dummy: "verifiable sample_env (h_dummy (ac_hasher sample_accounts))"
    by (simp add: verifiable_def)
  have slot: "in_flight ?w < h_limit (ac_hasher sample_accounts)" by simp
  have all: "refused_alike email password"
    if "\<nexists>u stored. u \<in> set (users (db ?w)) \<and> live_email ?U (normalise ?U email) u
      \<and> u_hash u = Some stored \<and> matches sample_env password stored \<and> (u_verified u \<or> ac_allow_unverified sample_accounts)"
    for email password
    using login_failures_alike [OF q sample_argon2_ok wf typed dummy slot _ that, of background]
    by (auto simp: refused_alike_def)
  note off = refusal_normalised live_email_def email_key_def pg_lower_def is_ascii_def ascii_char_def lower_char_def matches_def
  show ?thesis
    by (intro conjI; rule all) (auto simp: off)
qed

end
