(* ===== verification/Spec2Isabelle.thy ===== *)
theory Spec2Isabelle
  imports Kal_Facts Login_Live Crud Migrate Coverage Rls Account_Tokens Vault_Facts Guard Middleware Token_Facts
    Session_Directory Privileges Vault_Rounds Documented_Codes Work_Bounds Lifecycle Recovery Stored_Credentials Sql_Text Audit_Log
    Ddl_Facts Catalog Hash_Slots Login_Refused
begin

text \<open>
  A verification development for kal, an authentication and authorization library for GraphQL
  services on Postgres. This root imports every theory and declares nothing of its own.

  The program and how its parts meet. \<open>kal.go\<close> (New) checks a configuration and wires five
  services over one database pool: the session store (\<open>session/\<close>), the credential and
  emailed-token flows (\<open>authn/\<close>), the role table and the directive (\<open>authz/\<close>), the vaults of
  client-side encryption (\<open>e2ee/\<close>) and the minter of service tokens (\<open>session/jwt.go\<close>). A request
  passes the middleware, which refuses what a browser can send across origins, resolves the
  session cookie to a principal and puts it on the context; the resolvers behind it are reached
  through the @auth directive, the document guard and the scoped queries; they call the flows,
  whose cookies leave with the response. All durable state is in Postgres, and every access to it is
  one SQL statement; so the development has two layers, statements on tables and programs
  made of statements, and most safety theorems quantify over every schedule of statements by
  any number of requests.

  Foundations. \<open>Prelude\<close>: bytes, tables as lists of rows, the fact collections \<open>wp\<close>, \<open>guar\<close>,
  \<open>sql\<close>. \<open>Go_Strings\<close>, \<open>Go_Net\<close>, \<open>Go_Url\<close>, \<open>Go_Mime\<close>, \<open>Base64\<close>, \<open>Sha256\<close>: what kal uses of Go's
  standard library, computed. \<open>Kalerr\<close>: \<open>kalerr/errors.go\<close>, Go's error values as one datatype.
  \<open>Schema\<close>: the tables of \<open>migrations/0001_core.sql\<close> and \<open>0003_e2ee.sql\<close> as records, their keys,
  indexes, foreign keys and ranges as \<open>wf_db\<close>. \<open>Ddl\<close>: the four migration files as data and what
  Postgres enforces of such data; \<open>Ddl_Facts\<close> proves that \<open>wf_db\<close> is what they declare, and that
  the statements of the model fail with a violation only where the files make them. \<open>World\<close>: the state a program runs in (tables,
  trail of audit events, process log, outbox, cookie jar, hashing slots and what was done with them), the
  environment that decides what kal does not (clocks, failures, whether a statement that failed had taken
  effect, random bytes, what the Mailer prints),
  programs as functions of both that return
  \<open>goerr + 'a\<close>, the forward rules \<open>wp\<close>, and the locale \<open>guarantee\<close>, by which a two-state relation
  is carried through a program; its interpretations say what a program may touch.

  Statements. \<open>Session_Sql\<close>, \<open>Authn_Sql\<close>, \<open>Authz_Sql\<close>, \<open>E2ee_Sql\<close>: each statement of the four \<open>sql.go\<close> files
  as the function its text denotes, constraint violations included. \<open>Schedule\<close>: the transition
  system of all of them at non-decreasing database times, and \<open>via\<close>, which links a program's
  run to the statements it issued. \<open>Histories\<close>: what a row may become under any schedule.

  Components. \<open>Principal\<close> (\<open>authz/principal.go\<close>, \<open>scope.go\<close>, \<open>roles.go\<close>), \<open>Directive\<close> (\<open>directive.go\<close>),
  \<open>Coverage\<close> (\<open>coverage.go\<close>), \<open>Rls\<close> (\<open>rls.go\<close>) on \<open>Set_Config\<close>, which reads from the text of a
  \<open>select set_config(\<dots>)\<close> what it sets; \<open>Session_Store\<close> (\<open>session.go\<close>, \<open>token.go\<close>, \<open>cookie.go\<close>), \<open>Middleware\<close>
  (\<open>middleware.go\<close>, \<open>jar.go\<close>), \<open>Jwt\<close> (\<open>jwt.go\<close>); \<open>Password\<close>, \<open>Backoff\<close>, \<open>Accounts\<close>, \<open>Account_Tokens\<close>, \<open>Base_Url\<close>
  (\<open>password.go\<close>, \<open>backoff.go\<close>, \<open>accounts.go\<close>, \<open>tokens.go\<close>); \<open>Vaults\<close> (\<open>e2ee.go\<close>); \<open>Guard\<close> (\<open>guard.go\<close>),
  \<open>Crud\<close> (\<open>scoped.go\<close>), \<open>Migrate\<close> and \<open>Catalog\<close> (\<open>migrate.go\<close>, \<open>migrations.go\<close>), \<open>Kal\<close> (\<open>kal.go\<close>). Definitions carry the source's names in
  lower case; \<open>err != nil\<close> returns are \<open>tryM\<close>, a logged and dropped error is \<open>ignoring\<close>.
  \<open>Samples\<close> is the concrete environment and database the witnesses run on.

  What the lemmas show. Sessions: \<open>resolve\<close>, the principal a token stands for in given tables at a
  given time, is the specification; Lookup computes it, Issue, Rotate and Revoke change it as
  they promise, and no schedule revives a dead session or moves its deadline. Tables: \<open>wf_db\<close>
  is an invariant of every schedule. Login: sound and complete against the stored hash,
  uniform in its refusals (\<open>Login_Refused\<close>), free while a backoff window is open; \<open>Error_Codes\<close> bounds the codes a
  program answers with. Tokens: one use, one purpose, recovery ends every session. Hashing: the
  PHC form round-trips, Verify decides equality of derived keys. Directive, guard and coverage
  check: each equivalent to a declarative reading. Assembly: New's services agree with each
  other, and \<open>Kal_Facts\<close> follows a request from the login to the next one through the chain. The encoders
  of the program are instances of one locale, \<open>codec\<close>, whose round trip gives injectivity and
  canonical spelling; classes of errors closed under program structure are \<open>error_class\<close>.

  Across components. \<open>Session_Directory\<close> is the abstract contract of the session store, a map from
  session ids to live entries with six operations; \<open>directory\<close> abstracts the table to it, every
  statement is simulated by an operation, and \<open>stands_for\<close> is what a token means there.
  \<open>Privileges\<close>: along a schedule without grants and second factors no principal gains anything.
  \<open>Vault_Rounds\<close>: a Put read back by Get across any schedule, staleness included (rehash-on-login
  is one of the statements that may come between), and the salt of an address across the first Put of
  its account. \<open>Documented_Codes\<close>: for every operation the
  codes it can answer with. \<open>Work_Bounds\<close>: password hashes per call of a flow. \<open>Hash_Slots\<close>: every
  flow takes a slot before it hashes and gives it back, and so any number of calls interleaved around
  the hasher's semaphore keep to its limit and do not get stuck; a run of a single program meets a
  full semaphore as one whose two seconds of waiting were in vain, and waiting is a matter of the
  interleaving. \<open>Stored_Credentials\<close>: the stored hashes
  as a type, with preservation by every flow and progress of Verify. \<open>Lifecycle\<close> and \<open>Recovery\<close>
  follow an account across requests, from the registration, or the forgotten password, through
  the mailed link to the login; each request has an environment of its own, and only the tables,
  the mailbox and the host carry over.

  \<open>Audit_Log\<close>: what the flows and the middleware print to the process log, line by line, against
  the audit trail; and \<open>LogMailer\<close>, whose lines no event repeats.

  \<open>Sql_Text\<close> has the statements as written, byte for byte, and their rendering: whatever New
  builds for a schema sends no statement to a table outside it, nor one with a placeholder too
  many or too few.

  Bounds and fuel. No definition needs fuel: recursions are on the data or have a measure (the
  scanners of \<open>Go_Mime\<close> and \<open>Base64\<close> consume their input). The one loop of the source that need
  not end, over the pointers \<open>AssertDirectivesWired\<close> is given, is a partial function into \<open>option\<close>
  over a memory, and \<open>Coverage\<close> proves that it returns unless a pointer leads back to itself.
  uint32 and uint8 parameters are words; Go's int64 times and counters are \<open>int\<close>, in microseconds, with the range of the int4 columns
  checked where a statement writes one.

  Parameters, with what is assumed of them stated where they are used: Argon2 and bcrypt
  (\<open>argon2_ok\<close>: panics without a pass or a lane, else a key of the asked length), golang-jwt and
  Ed25519 (\<open>honours_jwt\<close>, for texts and numbers that survive JSON), luima's CRUD and go-pg's query conditions (\<open>honours_luima\<close>,
  \<open>honours_where\<close>), go-pg's identifier quoting and transactions, what Postgres reads in the text of
  a migration (\<open>honours_postgres\<close>), the Unicode tables of Go and Postgres. Each predicate has an instance on which its theorems' witnesses run.

  A statement that fails on its way may have been applied or not, as \<open>db_applied\<close> of the environment
  decides; that covers a lost reply and a context cancelled while the statement runs. An id that
  is not a uuid is an error of the driver, so it too is a failing statement.

  Not modelled: that the text of a statement in \<open>Sql_Text\<close> means what
  the function of the same name in \<open>Session_Sql\<close> and its siblings says, which is read off and not
  proved, Postgres having no model here; the re-exported aliases and one-line wrappers
  of \<open>kal.go\<close>, which are the definitions they name;
  gqlgen's empty interface methods; the texts of driver errors beyond the few kal builds on; a consumer that deletes account rows outright, which
  cascades (its other writes to auth_users are the operation \<open>Outside\<close>).
\<close>

end
